theory Spec2Isabelle
  imports Main "HOL-Library.Monad_Syntax"
begin

section \<open>Data types of the graph representation\<close>

text \<open>The tensor element types. Only \<open>DT_RESOURCE\<close> is distinguished by the pass.\<close>

datatype DataType = DT_INVALID | DT_FLOAT | DT_INT32 | DT_BOOL | DT_STRING | DT_RESOURCE

text \<open>
  Status codes that the modelled code produces. \<open>StdOutOfRange\<close> is not a status: it
  stands for the C++ exception \<open>std::out_of_range\<close> thrown by \<open>vector::at\<close> and
  \<open>map::at\<close>, which leaves the function like an error does.
\<close>

datatype error = InvalidArgument | NotFound | Unimplemented | Internal | StdOutOfRange

text \<open>
  Attribute values. A nested function reference (\<open>NameAttrList\<close>) is a function name with
  its own attribute bag. Attribute bags are association lists looked up with \<open>map_of\<close>.
\<close>

datatype AttrValue =
    AttrInt int
  | AttrIntList "int list"
  | AttrType DataType
  | AttrTypeList "DataType list"
  | AttrString string
  | AttrShape "int list"
  | AttrFunc string "(string \<times> AttrValue) list"

type_synonym AttrMap = "(string \<times> AttrValue) list"

record Node =
  name :: string
  type_string :: string
  attrs :: AttrMap

text \<open>
  An edge joins output slot \<open>src_output\<close> of node \<open>src\<close> to input slot \<open>dst_input\<close> of node
  \<open>dst\<close>; nodes are referred to by their id. A control edge uses slot \<open>kControlSlot\<close>.
\<close>

record Edge =
  src :: nat
  src_output :: int
  dst :: nat
  dst_input :: int

definition kControlSlot :: int where
  "kControlSlot = -1"

definition IsControlEdge :: "Edge \<Rightarrow> bool" where
  "IsControlEdge e \<longleftrightarrow> src_output e = kControlSlot"

text \<open>
  Modelled from the spec: the Graph Store (class \<open>Graph\<close> is not among the sources). The
  node table is indexed by node id, a removed node leaves \<open>None\<close>; the edges are kept in a
  list, an edge being identified by its four components.
\<close>

record Graph =
  nodes :: "Node option list"
  edges :: "Edge list"

definition node_ids :: "Graph \<Rightarrow> nat list" where
  "node_ids g = filter (\<lambda>i. nodes g ! i \<noteq> None) [0..<length (nodes g)]"

definition empty_node :: Node where
  "empty_node = \<lparr> name = [], type_string = [], attrs = [] \<rparr>"

text \<open>
  Dereferencing a node pointer. The source's graphs have no dangling pointers; an id without
  a node reads as an empty node here.
\<close>

definition node_at :: "Graph \<Rightarrow> nat \<Rightarrow> Node" where
  "node_at g i = (if i < length (nodes g) then (case nodes g ! i of Some n \<Rightarrow> n | None \<Rightarrow> empty_node)
                  else empty_node)"

definition update_node :: "Graph \<Rightarrow> nat \<Rightarrow> (Node \<Rightarrow> Node) \<Rightarrow> Graph" where
  "update_node g i f = g\<lparr> nodes := (nodes g)[i := Some (f (node_at g i))] \<rparr>"

definition in_edges :: "Graph \<Rightarrow> nat \<Rightarrow> Edge list" where
  "in_edges g n = filter (\<lambda>e. dst e = n) (edges g)"

definition out_edges :: "Graph \<Rightarrow> nat \<Rightarrow> Edge list" where
  "out_edges g n = filter (\<lambda>e. src e = n) (edges g)"

definition AddEdge :: "Graph \<Rightarrow> nat \<Rightarrow> int \<Rightarrow> nat \<Rightarrow> int \<Rightarrow> Graph" where
  "AddEdge g s x d y = g\<lparr> edges := edges g @ [\<lparr> src = s, src_output = x, dst = d, dst_input = y \<rparr>] \<rparr>"

definition RemoveEdge :: "Graph \<Rightarrow> Edge \<Rightarrow> Graph" where
  "RemoveEdge g e = g\<lparr> edges := remove1 e (edges g) \<rparr>"

text \<open>Removing a node cascades to its incident edges.\<close>

definition RemoveNode :: "Graph \<Rightarrow> nat \<Rightarrow> Graph" where
  "RemoveNode g n =
     g\<lparr> nodes := (nodes g)[n := None],
        edges := filter (\<lambda>e. src e \<noteq> n \<and> dst e \<noteq> n) (edges g) \<rparr>"

text \<open>
  Modelled from the spec: \<open>Node::input_edge\<close> and \<open>Node::input_node\<close> (not among the
  sources) find the node's own input edge that feeds a given slot; a negative slot is an
  invalid argument, a slot that no edge feeds is not found.
\<close>

definition input_edge :: "Graph \<Rightarrow> nat \<Rightarrow> int \<Rightarrow> error + Edge" where
  "input_edge g n idx =
     (if idx < 0 then Inl InvalidArgument
      else (case find (\<lambda>e. dst_input e = idx) (in_edges g n) of
              None \<Rightarrow> Inl NotFound
            | Some e \<Rightarrow> Inr e))"

definition input_node :: "Graph \<Rightarrow> nat \<Rightarrow> int \<Rightarrow> error + nat" where
  "input_node g n idx = (case input_edge g n idx of Inl err \<Rightarrow> Inl err | Inr e \<Rightarrow> Inr (src e))"

text \<open>Modelled from the spec: the special node kinds, told apart by the operation type.\<close>

definition IsArg :: "Node \<Rightarrow> bool" where
  "IsArg n \<longleftrightarrow> type_string n = ''_Arg''"

definition IsRetval :: "Node \<Rightarrow> bool" where
  "IsRetval n \<longleftrightarrow> type_string n = ''_Retval''"

definition IsIdentity :: "Node \<Rightarrow> bool" where
  "IsIdentity n \<longleftrightarrow> type_string n = ''Identity''"

text \<open>
  Modelled from the spec: the Node/Attribute Model. \<open>GetNodeAttr\<close> reads a value of the
  expected tag (not found when absent, invalid argument on another tag); \<open>ClearAttr\<close>
  removes an attribute; \<open>AddAttr\<close> sets it.
\<close>

definition GetNodeAttr_int :: "Node \<Rightarrow> string \<Rightarrow> error + int" where
  "GetNodeAttr_int n k =
     (case map_of (attrs n) k of None \<Rightarrow> Inl NotFound | Some (AttrInt i) \<Rightarrow> Inr i
      | Some _ \<Rightarrow> Inl InvalidArgument)"

definition GetNodeAttr_type :: "Node \<Rightarrow> string \<Rightarrow> error + DataType" where
  "GetNodeAttr_type n k =
     (case map_of (attrs n) k of None \<Rightarrow> Inl NotFound | Some (AttrType t) \<Rightarrow> Inr t
      | Some _ \<Rightarrow> Inl InvalidArgument)"

definition GetNodeAttr_type_list :: "Node \<Rightarrow> string \<Rightarrow> error + DataType list" where
  "GetNodeAttr_type_list n k =
     (case map_of (attrs n) k of None \<Rightarrow> Inl NotFound | Some (AttrTypeList ts) \<Rightarrow> Inr ts
      | Some _ \<Rightarrow> Inl InvalidArgument)"

definition GetNodeAttr_func :: "Node \<Rightarrow> string \<Rightarrow> error + (string \<times> AttrMap)" where
  "GetNodeAttr_func n k =
     (case map_of (attrs n) k of None \<Rightarrow> Inl NotFound | Some (AttrFunc f a) \<Rightarrow> Inr (f, a)
      | Some _ \<Rightarrow> Inl InvalidArgument)"

definition ClearAttr :: "string \<Rightarrow> Node \<Rightarrow> Node" where
  "ClearAttr k n = n\<lparr> attrs := filter (\<lambda>kv. fst kv \<noteq> k) (attrs n) \<rparr>"

definition AddAttr :: "string \<Rightarrow> AttrValue \<Rightarrow> Node \<Rightarrow> Node" where
  "AddAttr k v n = n\<lparr> attrs := filter (\<lambda>kv. fst kv \<noteq> k) (attrs n) @ [(k, v)] \<rparr>"

text \<open>The checked element access \<open>vector::at\<close>.\<close>

definition vector_at :: "'a list \<Rightarrow> int \<Rightarrow> error + 'a" where
  "vector_at xs i = (if 0 \<le> i \<and> i < int (length xs) then Inr (xs ! nat i) else Inl StdOutOfRange)"

text \<open>
  A \<open>std::map<int, int>\<close>: \<open>insert\<close> keeps an existing entry, \<open>size\<close> counts the entries,
  \<open>find\<close> is \<open>map_of\<close>.
\<close>

type_synonym IntMap = "(int \<times> int) list"

definition map_insert :: "IntMap \<Rightarrow> int \<Rightarrow> int \<Rightarrow> IntMap" where
  "map_insert m k v = (if map_of m k = None then m @ [(k, v)] else m)"

section \<open>Function bodies and the function library\<close>

record FunctionBody =
  graph :: Graph
  arg_nodes :: "nat list"
  ret_nodes :: "nat list"

text \<open>
  Modelled from the spec: a Function Definition (\<open>FunctionDef\<close> is not among the sources)
  is a named unit equivalent to a graph with labelled argument and return slots.
\<close>

record FunctionDef =
  signature_name :: string
  body_graph :: Graph

text \<open>
  Modelled from the spec: the Function Library (\<open>FunctionLibraryDefinition\<close> is not among
  the sources), keyed by name, with \<open>find\<close>, \<open>addFunctionDef\<close>, \<open>replaceFunction\<close> and
  \<open>uniqueFunctionName\<close>. Adding a definition under a name that holds a different
  definition is refused; adding the same definition again changes nothing.
\<close>

type_synonym FunctionLibraryDefinition = "(string \<times> FunctionDef) list"

definition Find :: "FunctionLibraryDefinition \<Rightarrow> string \<Rightarrow> FunctionDef option" where
  "Find fld fname = map_of fld fname"

definition AddFunctionDef :: "FunctionLibraryDefinition \<Rightarrow> FunctionDef \<Rightarrow> error + FunctionLibraryDefinition" where
  "AddFunctionDef fld fdef =
     (case map_of fld (signature_name fdef) of
        Some existing \<Rightarrow> if existing = fdef then Inr fld else Inl InvalidArgument
      | None \<Rightarrow> Inr (fld @ [(signature_name fdef, fdef)]))"

definition ReplaceFunction :: "FunctionLibraryDefinition \<Rightarrow> string \<Rightarrow> FunctionDef \<Rightarrow> error + FunctionLibraryDefinition" where
  "ReplaceFunction fld func fdef =
     (case map_of fld func of
        None \<Rightarrow> Inl InvalidArgument
      | Some _ \<Rightarrow> AddFunctionDef (filter (\<lambda>kv. fst kv \<noteq> func) fld) fdef)"

text \<open>The decimal rendering of the counter that is appended to the prefix.\<close>

fun string_of_nat :: "nat \<Rightarrow> string" where
  "string_of_nat n =
     (if n < 10 then [''0123456789'' ! n]
      else string_of_nat (n div 10) @ [''0123456789'' ! (n mod 10)])"

declare string_of_nat.simps [simp del]

text \<open>
  \<open>uniqueFunctionName\<close> tries \<open>prefix0\<close>, \<open>prefix1\<close>, ... until a name is free. A library
  of \<open>k\<close> entries cannot hold all of the first \<open>k + 1\<close> candidates, so the search is
  bounded by the size of the library.
\<close>

fun UniqueFunctionName_from :: "FunctionLibraryDefinition \<Rightarrow> string \<Rightarrow> nat \<Rightarrow> nat \<Rightarrow> string" where
  "UniqueFunctionName_from fld prefix 0 index = prefix @ string_of_nat index"
| "UniqueFunctionName_from fld prefix (Suc k) index =
     (if map_of fld (prefix @ string_of_nat index) \<noteq> None
      then UniqueFunctionName_from fld prefix k (Suc index)
      else prefix @ string_of_nat index)"

definition UniqueFunctionName :: "FunctionLibraryDefinition \<Rightarrow> string \<Rightarrow> string" where
  "UniqueFunctionName fld prefix = UniqueFunctionName_from fld prefix (length fld) 0"

text \<open>
  Modelled from the spec: the Function Body Materializer (\<open>FunctionDefToBodyHelper\<close> and
  \<open>GraphToFunctionDef\<close> are not among the sources). Instantiating yields the body graph
  with its \<open>Arg\<close> nodes in the order of their \<open>index\<close> attribute, and likewise its
  \<open>Retval\<close> nodes; duplicate or out-of-range indices are an internal error. Serialising
  packs a graph under a name.
\<close>

definition nodes_by_index :: "Graph \<Rightarrow> (Node \<Rightarrow> bool) \<Rightarrow> error + nat list" where
  "nodes_by_index g P =
     (let ids = filter (\<lambda>i. P (node_at g i)) (node_ids g);
          slots = map (\<lambda>k. find (\<lambda>i. GetNodeAttr_int (node_at g i) ''index'' = Inr (int k)) ids)
                    [0..<length ids]
      in if list_all (\<lambda>x. x \<noteq> None) slots then Inr (map the slots) else Inl Internal)"

definition FunctionDefToBodyHelper :: "FunctionDef \<Rightarrow> error + FunctionBody" where
  "FunctionDefToBodyHelper fdef =
     (case nodes_by_index (body_graph fdef) IsArg of
        Inl err \<Rightarrow> Inl err
      | Inr args \<Rightarrow>
          (case nodes_by_index (body_graph fdef) IsRetval of
             Inl err \<Rightarrow> Inl err
           | Inr rets \<Rightarrow> Inr \<lparr> graph = body_graph fdef, arg_nodes = args, ret_nodes = rets \<rparr>))"

definition GraphToFunctionDef :: "Graph \<Rightarrow> string \<Rightarrow> FunctionDef" where
  "GraphToFunctionDef g fname = \<lparr> signature_name = fname, body_graph = g \<rparr>"

section \<open>rearrange\_function\_argument\_pass.cc\<close>

subsection \<open>ShuffleInputDataTypeAttribute (lines 39-47)\<close>

text \<open>
  \<open>result\<close> starts as \<open>index_mapping.size()\<close> default values (\<open>DT_INVALID\<close>, the
  zero of the enum); entry \<open>index_mapping.at(i)\<close> receives \<open>in_types[i]\<close>. The checked
  access \<open>at\<close> throws outside the mapping; the unchecked store into \<open>result\<close> outside
  its range is undefined in the source and is reported like the exception.
\<close>

fun ShuffleInput_loop :: "DataType list \<Rightarrow> int list \<Rightarrow> int \<Rightarrow> DataType list \<Rightarrow> error + DataType list" where
  "ShuffleInput_loop [] index_mapping i result = Inr result"
| "ShuffleInput_loop (t # ts) index_mapping i result =
     (case vector_at index_mapping i of
        Inl err \<Rightarrow> Inl err
      | Inr j \<Rightarrow>
          if 0 \<le> j \<and> j < int (length result)
          then ShuffleInput_loop ts index_mapping (i + 1) (result[nat j := t])
          else Inl StdOutOfRange)"

definition ShuffleInputDataTypeAttribute :: "DataType list \<Rightarrow> int list \<Rightarrow> error + DataType list" where
  "ShuffleInputDataTypeAttribute in_types index_mapping =
     ShuffleInput_loop in_types index_mapping 0 (replicate (length index_mapping) DT_INVALID)"

subsection \<open>InputTypesNeedsRearrange (lines 54-103)\<close>

text \<open>Lines 57-64: the index of the first resource entry, or \<open>-1\<close>.\<close>

fun first_resource_from :: "DataType list \<Rightarrow> nat \<Rightarrow> int" where
  "first_resource_from [] i = -1"
| "first_resource_from (t # ts) i =
     (if t = DT_RESOURCE then int i else first_resource_from ts (Suc i))"

text \<open>
  Lines 71-77: is there a non-resource entry among the entries from
  \<open>first_resource_index + 1\<close> on? The argument is that tail of the list.
\<close>

fun has_non_resource :: "DataType list \<Rightarrow> bool" where
  "has_non_resource [] = False"
| "has_non_resource (t # ts) = (if t \<noteq> DT_RESOURCE then True else has_non_resource ts)"

text \<open>Lines 82-88: the number of resource entries.\<close>

fun count_resources :: "DataType list \<Rightarrow> int \<Rightarrow> int" where
  "count_resources [] c = c"
| "count_resources (t # ts) c = count_resources ts (if t = DT_RESOURCE then c + 1 else c)"

text \<open>Lines 92-100: the two running counters hand out the new positions.\<close>

fun assign_indices :: "DataType list \<Rightarrow> int \<Rightarrow> int \<Rightarrow> int list" where
  "assign_indices [] non_resource_index resource_index = []"
| "assign_indices (t # ts) non_resource_index resource_index =
     (if t \<noteq> DT_RESOURCE
      then non_resource_index # assign_indices ts (non_resource_index + 1) resource_index
      else resource_index # assign_indices ts non_resource_index (resource_index + 1))"

text \<open>
  The three out-parameters are modelled as arguments (their value at the call) and results
  (their value at return): \<open>resource_input_count\<close> and \<open>index_mapping\<close> are written only
  on the path that needs a rewrite. The returned status is always OK and is left out.
\<close>

definition InputTypesNeedsRearrange ::
  "DataType list \<Rightarrow> int \<Rightarrow> int list \<Rightarrow> bool \<times> int \<times> int list" where
  "InputTypesNeedsRearrange in_types resource_input_count index_mapping =
     (let first_resource_index = first_resource_from in_types 0 in
      if first_resource_index = -1 then (False, resource_input_count, index_mapping)
      else if \<not> has_non_resource (drop (nat (first_resource_index + 1)) in_types)
      then (False, resource_input_count, index_mapping)
      else
        (let rc = count_resources in_types 0 in
         (True, rc, assign_indices in_types 0 (int (length in_types) - rc))))"

subsection \<open>ReorderInputEdges (lines 107-125)\<close>

text \<open>
  The graph is changed in place, so a failing call hands back the graph as it stands at the
  failure (\<open>Inl\<close>) and a successful call the final graph (\<open>Inr\<close>).
\<close>

fun ReorderInputEdges_loop :: "Graph \<Rightarrow> nat \<Rightarrow> int list \<Rightarrow> Edge list \<Rightarrow> (error \<times> Graph) + Graph" where
  "ReorderInputEdges_loop g n index_mapping [] = Inr g"
| "ReorderInputEdges_loop g n index_mapping (e # es) =
     (case vector_at index_mapping (dst_input e) of
        Inl err \<Rightarrow> Inl (err, g)
      | Inr new_dst_input \<Rightarrow>
          ReorderInputEdges_loop
            (AddEdge (RemoveEdge g e) (src e) (src_output e) n new_dst_input) n index_mapping es)"

definition ReorderInputEdges :: "Graph \<Rightarrow> nat \<Rightarrow> int list \<Rightarrow> (error \<times> Graph) + Graph" where
  "ReorderInputEdges g n index_mapping =
     ReorderInputEdges_loop g n index_mapping (filter (\<lambda>e. \<not> IsControlEdge e) (in_edges g n))"

subsection \<open>ReorderOutputEdges (lines 131-157)\<close>

fun ReorderOutputEdges_loop ::
  "Graph \<Rightarrow> nat \<Rightarrow> int \<Rightarrow> int \<Rightarrow> int list \<Rightarrow> Edge list \<Rightarrow> (error \<times> Graph) + Graph" where
  "ReorderOutputEdges_loop g n input_count resource_input_count index_mapping [] = Inr g"
| "ReorderOutputEdges_loop g n input_count resource_input_count index_mapping (e # es) =
     (case vector_at index_mapping (src_output e) of
        Inl err \<Rightarrow> Inl (err, g)
      | Inr new_src_output \<Rightarrow>
          (let g1 = RemoveEdge g e in
           if new_src_output < input_count - resource_input_count
           then ReorderOutputEdges_loop (AddEdge g1 n new_src_output (dst e) (dst_input e))
                  n input_count resource_input_count index_mapping es
           else (case input_edge g1 n new_src_output of
                   Inl err \<Rightarrow> Inl (err, g1)
                 | Inr ie \<Rightarrow>
                     ReorderOutputEdges_loop
                       (AddEdge g1 (src ie) (src_output ie) (dst e) (dst_input e))
                       n input_count resource_input_count index_mapping es)))"

definition ReorderOutputEdges ::
  "Graph \<Rightarrow> nat \<Rightarrow> int \<Rightarrow> int \<Rightarrow> int list \<Rightarrow> (error \<times> Graph) + Graph" where
  "ReorderOutputEdges g n input_count resource_input_count index_mapping =
     ReorderOutputEdges_loop g n input_count resource_input_count index_mapping
       (filter (\<lambda>e. \<not> IsControlEdge e) (out_edges g n))"

subsection \<open>RearrangeArgNodes (lines 161-169)\<close>

text \<open>The \<open>_Arg\<close> nodes live in the graph of the function body, which is passed along.\<close>

fun RearrangeArgNodes_loop :: "Graph \<Rightarrow> nat list \<Rightarrow> int list \<Rightarrow> int \<Rightarrow> (error \<times> Graph) + Graph" where
  "RearrangeArgNodes_loop g [] index_mapping i = Inr g"
| "RearrangeArgNodes_loop g (n # ns) index_mapping i =
     (case vector_at index_mapping i of
        Inl err \<Rightarrow> Inl (err, g)
      | Inr new_index \<Rightarrow>
          RearrangeArgNodes_loop
            (update_node g n (AddAttr ''index'' (AttrInt new_index) \<circ> ClearAttr ''index''))
            ns index_mapping (i + 1))"

definition RearrangeArgNodes :: "Graph \<Rightarrow> nat list \<Rightarrow> int list \<Rightarrow> (error \<times> Graph) + Graph" where
  "RearrangeArgNodes g arg_node_ids index_mapping = RearrangeArgNodes_loop g arg_node_ids index_mapping 0"

subsection \<open>CalculateRetvalRearrange (lines 177-205)\<close>

text \<open>
  The two maps are in-out parameters: they are handed back as they stand, also on failure.
\<close>

fun CalculateRetvalRearrange_loop ::
  "Graph \<Rightarrow> nat list \<Rightarrow> int \<Rightarrow> IntMap \<Rightarrow> IntMap \<Rightarrow> (error \<times> IntMap \<times> IntMap) + (IntMap \<times> IntMap)" where
  "CalculateRetvalRearrange_loop g [] i retval_index_mapping resource_retval_to_arg =
     Inr (retval_index_mapping, resource_retval_to_arg)"
| "CalculateRetvalRearrange_loop g (n # ns) i retval_index_mapping resource_retval_to_arg =
     (case GetNodeAttr_type (node_at g n) ''T'' of
        Inl err \<Rightarrow> Inl (err, retval_index_mapping, resource_retval_to_arg)
      | Inr t \<Rightarrow>
          if t \<noteq> DT_RESOURCE
          then (let new_retval_index = int (length retval_index_mapping) in
                CalculateRetvalRearrange_loop g ns (i + 1)
                  (map_insert retval_index_mapping i new_retval_index) resource_retval_to_arg)
          else (case input_edge g n 0 of
                  Inl err \<Rightarrow> Inl (err, retval_index_mapping, resource_retval_to_arg)
                | Inr e \<Rightarrow>
                    if \<not> IsArg (node_at g (src e))
                    then Inl (Unimplemented, retval_index_mapping, resource_retval_to_arg)
                    else (case GetNodeAttr_int (node_at g (src e)) ''index'' of
                            Inl err \<Rightarrow> Inl (err, retval_index_mapping, resource_retval_to_arg)
                          | Inr src_index \<Rightarrow>
                              CalculateRetvalRearrange_loop g ns (i + 1) retval_index_mapping
                                (map_insert resource_retval_to_arg i src_index))))"

definition CalculateRetvalRearrange ::
  "Graph \<Rightarrow> nat list \<Rightarrow> IntMap \<Rightarrow> IntMap \<Rightarrow> (error \<times> IntMap \<times> IntMap) + (IntMap \<times> IntMap)" where
  "CalculateRetvalRearrange g ret_node_ids retval_index_mapping resource_retval_to_arg =
     CalculateRetvalRearrange_loop g ret_node_ids 0 retval_index_mapping resource_retval_to_arg"

subsection \<open>ShuffleOutputDataTypeAttribute (lines 209-220)\<close>

text \<open>The store into \<open>result\<close> is unchecked in the source; see \<open>ShuffleInput_loop\<close>.\<close>

fun ShuffleOutput_loop :: "DataType list \<Rightarrow> IntMap \<Rightarrow> int \<Rightarrow> DataType list \<Rightarrow> error + DataType list" where
  "ShuffleOutput_loop [] index_mapping i result = Inr result"
| "ShuffleOutput_loop (t # ts) index_mapping i result =
     (case map_of index_mapping i of
        None \<Rightarrow> ShuffleOutput_loop ts index_mapping (i + 1) result
      | Some j \<Rightarrow>
          if 0 \<le> j \<and> j < int (length result)
          then ShuffleOutput_loop ts index_mapping (i + 1) (result[nat j := t])
          else Inl StdOutOfRange)"

definition ShuffleOutputDataTypeAttribute :: "DataType list \<Rightarrow> IntMap \<Rightarrow> error + DataType list" where
  "ShuffleOutputDataTypeAttribute out_types index_mapping =
     ShuffleOutput_loop out_types index_mapping 0 (replicate (length index_mapping) DT_INVALID)"

subsection \<open>RearrangeOutputEdges (lines 226-254)\<close>

text \<open>
  The parameter \<open>offset\<close> is 0 here; the copy of this loop inside \<open>MaybeRewriteIfNode\<close>
  (lines 554-571) differs only in reading input \<open>resource_retval_to_arg.at(src_output) + 1\<close>.
\<close>

fun RearrangeOutputEdges_loop ::
  "nat \<Rightarrow> Graph \<Rightarrow> IntMap \<Rightarrow> IntMap \<Rightarrow> int \<Rightarrow> Edge list \<Rightarrow> (error \<times> Graph) + Graph" where
  "RearrangeOutputEdges_loop n g retval_index_mapping resource_retval_to_arg offset [] = Inr g"
| "RearrangeOutputEdges_loop n g retval_index_mapping resource_retval_to_arg offset (e # es) =
     (case map_of retval_index_mapping (src_output e) of
        None \<Rightarrow>
          (case map_of resource_retval_to_arg (src_output e) of
             None \<Rightarrow> Inl (Internal, g)
           | Some arg_index \<Rightarrow>
               (let g1 = RemoveEdge g e in
                case input_edge g1 n (arg_index + offset) of
                  Inl err \<Rightarrow> Inl (err, g1)
                | Inr ie \<Rightarrow>
                    RearrangeOutputEdges_loop n
                      (AddEdge g1 (src ie) (src_output ie) (dst e) (dst_input e))
                      retval_index_mapping resource_retval_to_arg offset es))
      | Some new_src_output \<Rightarrow>
          RearrangeOutputEdges_loop n
            (AddEdge (RemoveEdge g e) n new_src_output (dst e) (dst_input e))
            retval_index_mapping resource_retval_to_arg offset es)"

definition RearrangeOutputEdges :: "nat \<Rightarrow> Graph \<Rightarrow> IntMap \<Rightarrow> IntMap \<Rightarrow> (error \<times> Graph) + Graph" where
  "RearrangeOutputEdges n g retval_index_mapping resource_retval_to_arg =
     RearrangeOutputEdges_loop n g retval_index_mapping resource_retval_to_arg 0
       (filter (\<lambda>e. \<not> IsControlEdge e) (out_edges g n))"

subsection \<open>RearrangeRetvalNodes (lines 259-272)\<close>

fun RearrangeRetvalNodes_loop :: "nat list \<Rightarrow> Graph \<Rightarrow> IntMap \<Rightarrow> int \<Rightarrow> Graph" where
  "RearrangeRetvalNodes_loop [] g retval_index_mapping i = g"
| "RearrangeRetvalNodes_loop (n # ns) g retval_index_mapping i =
     (case map_of retval_index_mapping i of
        None \<Rightarrow> RearrangeRetvalNodes_loop ns (RemoveNode g n) retval_index_mapping (i + 1)
      | Some new_index \<Rightarrow>
          RearrangeRetvalNodes_loop ns
            (update_node g n (AddAttr ''index'' (AttrInt new_index) \<circ> ClearAttr ''index''))
            retval_index_mapping (i + 1))"

definition RearrangeRetvalNodes :: "nat list \<Rightarrow> Graph \<Rightarrow> IntMap \<Rightarrow> Graph" where
  "RearrangeRetvalNodes ret_node_ids g retval_index_mapping =
     RearrangeRetvalNodes_loop ret_node_ids g retval_index_mapping 0"

subsection \<open>Saving a rewritten function body (lines 363-373, 444-454 and 533-543)\<close>

text \<open>
  The three node rewriters end with the same steps: allocate a fresh name from the name of
  the original function, serialise the rewritten body under it, add it to the library, and
  point the node's function attribute at the new name.
\<close>

definition save_new_function ::
  "Graph \<Rightarrow> nat \<Rightarrow> FunctionLibraryDefinition \<Rightarrow> string \<Rightarrow> string \<Rightarrow> AttrMap \<Rightarrow> Graph
     \<Rightarrow> (error \<times> Graph \<times> FunctionLibraryDefinition) + (Graph \<times> FunctionLibraryDefinition)" where
  "save_new_function g n fld attr_name fname fattr body =
     (let new_name = UniqueFunctionName fld (fname @ ''_rearrange_'');
          new_fdef = GraphToFunctionDef body new_name
      in case AddFunctionDef fld new_fdef of
           Inl err \<Rightarrow> Inl (err, g, fld)
         | Inr fld' \<Rightarrow>
             Inr (update_node g n (AddAttr attr_name (AttrFunc new_name fattr) \<circ> ClearAttr attr_name),
                  fld'))"

subsection \<open>MaybeRewriteWhileNode (lines 274-376)\<close>

text \<open>
  Lines 329-331: follow identity nodes upstream. The loop has no bound in the source; on a
  cycle of identity nodes it does not return, which is the value \<open>None\<close>.
\<close>

partial_function (option) trace_identity :: "Graph \<Rightarrow> nat \<Rightarrow> (error + nat) option" where
  "trace_identity g input_node_id =
     (if IsIdentity (node_at g input_node_id)
      then (case input_node g input_node_id 0 of
              Inl err \<Rightarrow> Some (Inl err)
            | Inr m \<Rightarrow> trace_identity g m)
      else Some (Inr input_node_id))"

text \<open>Lines 319-346: every resource \<open>_Retval[i]\<close> of the body must come from \<open>_Arg[i]\<close>.\<close>

fun while_body_check :: "Graph \<Rightarrow> nat list \<Rightarrow> int \<Rightarrow> (error + unit) option" where
  "while_body_check g [] i = Some (Inr ())"
| "while_body_check g (n # ns) i =
     (case GetNodeAttr_type (node_at g n) ''T'' of
        Inl err \<Rightarrow> Some (Inl err)
      | Inr dtype \<Rightarrow>
          if dtype \<noteq> DT_RESOURCE then while_body_check g ns (i + 1)
          else (case input_node g n 0 of
                  Inl err \<Rightarrow> Some (Inl err)
                | Inr first \<Rightarrow>
                    (case trace_identity g first of
                       None \<Rightarrow> None
                     | Some (Inl err) \<Rightarrow> Some (Inl err)
                     | Some (Inr a) \<Rightarrow>
                         if IsArg (node_at g a)
                         then (case GetNodeAttr_int (node_at g a) ''index'' of
                                 Inl err \<Rightarrow> Some (Inl err)
                               | Inr index \<Rightarrow>
                                   if index \<noteq> i then Some (Inl Unimplemented)
                                   else while_body_check g ns (i + 1))
                         else Some (Inl Unimplemented))))"

text \<open>Lines 351-360: renumber the kept \<open>_Retval\<close> nodes of the body, remove the others.\<close>

fun while_ret_nodes_loop :: "Graph \<Rightarrow> nat list \<Rightarrow> int list \<Rightarrow> int \<Rightarrow> int \<Rightarrow> (error \<times> Graph) + Graph" where
  "while_ret_nodes_loop g [] index_mapping bound i = Inr g"
| "while_ret_nodes_loop g (n # ns) index_mapping bound i =
     (case vector_at index_mapping i of
        Inl err \<Rightarrow> Inl (err, g)
      | Inr new_index \<Rightarrow>
          if new_index < bound
          then while_ret_nodes_loop
                 (update_node g n (AddAttr ''index'' (AttrInt new_index) \<circ> ClearAttr ''index''))
                 ns index_mapping bound (i + 1)
          else while_ret_nodes_loop (RemoveNode g n) ns index_mapping bound (i + 1))"

text \<open>Lines 303-374: one round of the loop over the attributes \<open>cond\<close> and \<open>body\<close>.\<close>

definition while_rewrite_function ::
  "string \<Rightarrow> nat \<Rightarrow> DataType list \<Rightarrow> int \<Rightarrow> int list \<Rightarrow> Graph \<Rightarrow> FunctionLibraryDefinition
     \<Rightarrow> ((error \<times> Graph \<times> FunctionLibraryDefinition) + (Graph \<times> FunctionLibraryDefinition)) option" where
  "while_rewrite_function attr_name n types resource_input_count index_mapping g fld =
     (case GetNodeAttr_func (node_at g n) attr_name of
        Inl err \<Rightarrow> Some (Inl (err, g, fld))
      | Inr (fname, fattr) \<Rightarrow>
     (case Find fld fname of
        None \<Rightarrow> Some (Inl (Internal, g, fld))
      | Some fdef \<Rightarrow>
     (case FunctionDefToBodyHelper fdef of
        Inl err \<Rightarrow> Some (Inl (err, g, fld))
      | Inr fbody \<Rightarrow>
     (case (if attr_name = ''body'' then while_body_check (graph fbody) (ret_nodes fbody) 0
            else Some (Inr ())) of
        None \<Rightarrow> None
      | Some (Inl err) \<Rightarrow> Some (Inl (err, g, fld))
      | Some (Inr _) \<Rightarrow>
     (case RearrangeArgNodes (graph fbody) (arg_nodes fbody) index_mapping of
        Inl (err, _) \<Rightarrow> Some (Inl (err, g, fld))
      | Inr body1 \<Rightarrow>
     (case (if attr_name = ''body''
            then while_ret_nodes_loop body1 (ret_nodes fbody) index_mapping
                   (int (length types) - resource_input_count) 0
            else Inr body1) of
        Inl (err, _) \<Rightarrow> Some (Inl (err, g, fld))
      | Inr body2 \<Rightarrow> Some (save_new_function g n fld attr_name fname fattr body2)))))))"

text \<open>
  \<open>uninit\<close> is the indeterminate value the local \<open>resource_input_count\<close> holds before the
  call of \<open>InputTypesNeedsRearrange\<close>, which writes it only when a rewrite is needed.
  A failing call hands back the graph and the library as they stand at the failure.
\<close>

definition MaybeRewriteWhileNode ::
  "Graph \<Rightarrow> nat \<Rightarrow> FunctionLibraryDefinition \<Rightarrow> int
     \<Rightarrow> ((error \<times> Graph \<times> FunctionLibraryDefinition) + (Graph \<times> FunctionLibraryDefinition \<times> bool)) option" where
  "MaybeRewriteWhileNode g n fld uninit =
     (case GetNodeAttr_type_list (node_at g n) ''T'' of
        Inl err \<Rightarrow> Some (Inl (err, g, fld))
      | Inr types \<Rightarrow>
     (case InputTypesNeedsRearrange types uninit [] of
        (input_need_rearrange, resource_input_count, index_mapping) \<Rightarrow>
     if \<not> input_need_rearrange then Some (Inr (g, fld, False))
     else
     (case ShuffleInputDataTypeAttribute types index_mapping of
        Inl err \<Rightarrow> Some (Inl (err, g, fld))
      | Inr new_types \<Rightarrow>
     (case ReorderInputEdges
             (update_node g n (AddAttr ''T'' (AttrTypeList new_types) \<circ> ClearAttr ''T''))
             n index_mapping of
        Inl (err, g') \<Rightarrow> Some (Inl (err, g', fld))
      | Inr g2 \<Rightarrow>
     (case ReorderOutputEdges g2 n (int (length types)) resource_input_count index_mapping of
        Inl (err, g') \<Rightarrow> Some (Inl (err, g', fld))
      | Inr g3 \<Rightarrow>
     (case while_rewrite_function ''cond'' n types resource_input_count index_mapping g3 fld of
        None \<Rightarrow> None
      | Some (Inl err) \<Rightarrow> Some (Inl err)
      | Some (Inr (g4, fld1)) \<Rightarrow>
     (case while_rewrite_function ''body'' n types resource_input_count index_mapping g4 fld1 of
        None \<Rightarrow> None
      | Some (Inl err) \<Rightarrow> Some (Inl err)
      | Some (Inr (g5, fld2)) \<Rightarrow> Some (Inr (g5, fld2, True)))))))))"

subsection \<open>MaybeRewriteCallNode (lines 378-456)\<close>

text \<open>Lines 409-421: the node's graph and the graph of the callee body are both changed.\<close>

definition call_rearrange_inputs ::
  "Graph \<Rightarrow> nat \<Rightarrow> DataType list \<Rightarrow> int list \<Rightarrow> FunctionBody \<Rightarrow> (error \<times> Graph) + (Graph \<times> Graph)" where
  "call_rearrange_inputs g n in_types index_mapping fbody =
     (case ReorderInputEdges g n index_mapping of
        Inl (err, g') \<Rightarrow> Inl (err, g')
      | Inr g1 \<Rightarrow>
     (case ShuffleInputDataTypeAttribute in_types index_mapping of
        Inl err \<Rightarrow> Inl (err, g1)
      | Inr new_in_types \<Rightarrow>
     (let g2 = update_node g1 n (AddAttr ''Tin'' (AttrTypeList new_in_types) \<circ> ClearAttr ''Tin'') in
      case RearrangeArgNodes (graph fbody) (arg_nodes fbody) index_mapping of
        Inl (err, _) \<Rightarrow> Inl (err, g2)
      | Inr body1 \<Rightarrow> Inr (g2, body1))))"

text \<open>Lines 423-442.\<close>

definition call_rearrange_outputs ::
  "Graph \<Rightarrow> nat \<Rightarrow> DataType list \<Rightarrow> nat list \<Rightarrow> Graph \<Rightarrow> (error \<times> Graph) + (Graph \<times> Graph)" where
  "call_rearrange_outputs g n out_types ret_node_ids body =
     (case CalculateRetvalRearrange body ret_node_ids [] [] of
        Inl (err, _) \<Rightarrow> Inl (err, g)
      | Inr (retval_index_mapping, resource_retval_to_arg) \<Rightarrow>
     (case RearrangeOutputEdges n g retval_index_mapping resource_retval_to_arg of
        Inl (err, g') \<Rightarrow> Inl (err, g')
      | Inr g1 \<Rightarrow>
     (case ShuffleOutputDataTypeAttribute out_types retval_index_mapping of
        Inl err \<Rightarrow> Inl (err, g1)
      | Inr new_out_types \<Rightarrow>
          Inr (update_node g1 n (AddAttr ''Tout'' (AttrTypeList new_out_types) \<circ> ClearAttr ''Tout''),
               RearrangeRetvalNodes ret_node_ids body retval_index_mapping))))"

text \<open>
  \<open>uninit\<close> is the indeterminate value of the local \<open>resource_input_count\<close> before the call
  of \<open>InputTypesNeedsRearrange\<close>; line 394 reads the local whether or not it was written.
\<close>

definition MaybeRewriteCallNode ::
  "Graph \<Rightarrow> nat \<Rightarrow> FunctionLibraryDefinition \<Rightarrow> int
     \<Rightarrow> (error \<times> Graph \<times> FunctionLibraryDefinition) + (Graph \<times> FunctionLibraryDefinition \<times> bool)" where
  "MaybeRewriteCallNode g n fld uninit =
     (case GetNodeAttr_type_list (node_at g n) ''Tin'' of
        Inl err \<Rightarrow> Inl (err, g, fld)
      | Inr in_types \<Rightarrow>
     (case InputTypesNeedsRearrange in_types uninit [] of
        (input_need_rearrange, resource_input_count, index_mapping) \<Rightarrow>
     (case GetNodeAttr_type_list (node_at g n) ''Tout'' of
        Inl err \<Rightarrow> Inl (err, g, fld)
      | Inr out_types \<Rightarrow>
     (let has_resource_output = (DT_RESOURCE \<in> set out_types) in
      if resource_input_count = 0 \<and> \<not> has_resource_output then Inr (g, fld, False)
      else
     (case GetNodeAttr_func (node_at g n) ''f'' of
        Inl err \<Rightarrow> Inl (err, g, fld)
      | Inr (fname, fattr) \<Rightarrow>
     (case Find fld fname of
        None \<Rightarrow> Inl (Internal, g, fld)
      | Some fdef \<Rightarrow>
     (case FunctionDefToBodyHelper fdef of
        Inl err \<Rightarrow> Inl (err, g, fld)
      | Inr fbody \<Rightarrow>
     (case (if input_need_rearrange then call_rearrange_inputs g n in_types index_mapping fbody
            else Inr (g, graph fbody)) of
        Inl (err, g') \<Rightarrow> Inl (err, g', fld)
      | Inr (g1, body1) \<Rightarrow>
     (case (if has_resource_output then call_rearrange_outputs g1 n out_types (ret_nodes fbody) body1
            else Inr (g1, body1)) of
        Inl (err, g') \<Rightarrow> Inl (err, g', fld)
      | Inr (g2, body2) \<Rightarrow>
     (case save_new_function g2 n fld ''f'' fname fattr body2 of
        Inl err \<Rightarrow> Inl err
      | Inr (g3, fld') \<Rightarrow> Inr (g3, fld', True)))))))))))"

subsection \<open>MaybeRewriteIfNode (lines 458-580)\<close>

text \<open>
  Lines 483-497: the input edges but the one into slot 0 (the predicate) are moved; the
  mapping is read at \<open>dst_input - 1\<close> and the result shifted by one.
\<close>

fun if_reorder_inputs_loop :: "Graph \<Rightarrow> nat \<Rightarrow> int list \<Rightarrow> Edge list \<Rightarrow> (error \<times> Graph) + Graph" where
  "if_reorder_inputs_loop g n index_mapping [] = Inr g"
| "if_reorder_inputs_loop g n index_mapping (e # es) =
     (case vector_at index_mapping (dst_input e - 1) of
        Inl err \<Rightarrow> Inl (err, g)
      | Inr m \<Rightarrow>
          if_reorder_inputs_loop
            (AddEdge (RemoveEdge g e) (src e) (src_output e) n (m + 1)) n index_mapping es)"

definition if_reorder_inputs :: "Graph \<Rightarrow> nat \<Rightarrow> int list \<Rightarrow> (error \<times> Graph) + Graph" where
  "if_reorder_inputs g n index_mapping =
     if_reorder_inputs_loop g n index_mapping
       (filter (\<lambda>e. \<not> (IsControlEdge e \<or> dst_input e = 0)) (in_edges g n))"

text \<open>Lines 481-504.\<close>

definition if_rearrange_inputs :: "Graph \<Rightarrow> nat \<Rightarrow> DataType list \<Rightarrow> int list \<Rightarrow> (error \<times> Graph) + Graph" where
  "if_rearrange_inputs g n in_types index_mapping =
     (case if_reorder_inputs g n index_mapping of
        Inl (err, g') \<Rightarrow> Inl (err, g')
      | Inr g1 \<Rightarrow>
     (case ShuffleInputDataTypeAttribute in_types index_mapping of
        Inl err \<Rightarrow> Inl (err, g1)
      | Inr new_in_types \<Rightarrow>
          Inr (update_node g1 n (AddAttr ''Tin'' (AttrTypeList new_in_types) \<circ> ClearAttr ''Tin''))))"

text \<open>
  Lines 509-543: one round of the loop over \<open>then_branch\<close> and \<open>else_branch\<close>. The two
  maps are declared before the loop (line 506) and shared by both rounds.
\<close>

definition if_rewrite_branch ::
  "string \<Rightarrow> nat \<Rightarrow> bool \<Rightarrow> bool \<Rightarrow> int list \<Rightarrow> Graph \<Rightarrow> FunctionLibraryDefinition \<Rightarrow> IntMap \<Rightarrow> IntMap
     \<Rightarrow> (error \<times> Graph \<times> FunctionLibraryDefinition)
         + (Graph \<times> FunctionLibraryDefinition \<times> IntMap \<times> IntMap)" where
  "if_rewrite_branch attr_name n input_need_rearrange has_resource_output index_mapping g fld
       retval_index_mapping resource_retval_to_arg =
     (case GetNodeAttr_func (node_at g n) attr_name of
        Inl err \<Rightarrow> Inl (err, g, fld)
      | Inr (fname, fattr) \<Rightarrow>
     (case Find fld fname of
        None \<Rightarrow> Inl (Internal, g, fld)
      | Some fdef \<Rightarrow>
     (case FunctionDefToBodyHelper fdef of
        Inl err \<Rightarrow> Inl (err, g, fld)
      | Inr fbody \<Rightarrow>
     (case (if input_need_rearrange
            then RearrangeArgNodes (graph fbody) (arg_nodes fbody) index_mapping
            else Inr (graph fbody)) of
        Inl (err, _) \<Rightarrow> Inl (err, g, fld)
      | Inr body1 \<Rightarrow>
     (case (if has_resource_output
            then (case CalculateRetvalRearrange body1 (ret_nodes fbody)
                         retval_index_mapping resource_retval_to_arg of
                    Inl (err, _) \<Rightarrow> Inl err
                  | Inr (rim, rra) \<Rightarrow>
                      Inr (RearrangeRetvalNodes (ret_nodes fbody) body1 rim, rim, rra))
            else Inr (body1, retval_index_mapping, resource_retval_to_arg)) of
        Inl err \<Rightarrow> Inl (err, g, fld)
      | Inr (body2, rim, rra) \<Rightarrow>
     (case save_new_function g n fld attr_name fname fattr body2 of
        Inl err \<Rightarrow> Inl err
      | Inr (g1, fld') \<Rightarrow> Inr (g1, fld', rim, rra)))))))"

text \<open>Lines 546-578.\<close>

definition if_rearrange_outputs ::
  "Graph \<Rightarrow> nat \<Rightarrow> DataType list \<Rightarrow> IntMap \<Rightarrow> IntMap \<Rightarrow> (error \<times> Graph) + Graph" where
  "if_rearrange_outputs g n out_types retval_index_mapping resource_retval_to_arg =
     (case RearrangeOutputEdges_loop n g retval_index_mapping resource_retval_to_arg 1
             (filter (\<lambda>e. \<not> IsControlEdge e) (out_edges g n)) of
        Inl (err, g') \<Rightarrow> Inl (err, g')
      | Inr g1 \<Rightarrow>
     (case ShuffleOutputDataTypeAttribute out_types retval_index_mapping of
        Inl err \<Rightarrow> Inl (err, g1)
      | Inr new_out_types \<Rightarrow>
          Inr (update_node g1 n (AddAttr ''Tout'' (AttrTypeList new_out_types) \<circ> ClearAttr ''Tout''))))"

definition MaybeRewriteIfNode ::
  "Graph \<Rightarrow> nat \<Rightarrow> FunctionLibraryDefinition \<Rightarrow> int
     \<Rightarrow> (error \<times> Graph \<times> FunctionLibraryDefinition) + (Graph \<times> FunctionLibraryDefinition \<times> bool)" where
  "MaybeRewriteIfNode g n fld uninit =
     (case GetNodeAttr_type_list (node_at g n) ''Tin'' of
        Inl err \<Rightarrow> Inl (err, g, fld)
      | Inr in_types \<Rightarrow>
     (case InputTypesNeedsRearrange in_types uninit [] of
        (input_need_rearrange, resource_input_count, index_mapping) \<Rightarrow>
     (case GetNodeAttr_type_list (node_at g n) ''Tout'' of
        Inl err \<Rightarrow> Inl (err, g, fld)
      | Inr out_types \<Rightarrow>
     (let has_resource_output = (DT_RESOURCE \<in> set out_types) in
      if \<not> input_need_rearrange \<and> \<not> has_resource_output then Inr (g, fld, False)
      else
     (case (if input_need_rearrange then if_rearrange_inputs g n in_types index_mapping
            else Inr g) of
        Inl (err, g') \<Rightarrow> Inl (err, g', fld)
      | Inr g1 \<Rightarrow>
     (case if_rewrite_branch ''then_branch'' n input_need_rearrange has_resource_output
             index_mapping g1 fld [] [] of
        Inl err \<Rightarrow> Inl err
      | Inr (g2, fld1, rim1, rra1) \<Rightarrow>
     (case if_rewrite_branch ''else_branch'' n input_need_rearrange has_resource_output
             index_mapping g2 fld1 rim1 rra1 of
        Inl err \<Rightarrow> Inl err
      | Inr (g3, fld2, rim2, rra2) \<Rightarrow>
     (case (if has_resource_output then if_rearrange_outputs g3 n out_types rim2 rra2
            else Inr g3) of
        Inl (err, g') \<Rightarrow> Inl (err, g', fld2)
      | Inr g4 \<Rightarrow> Inr (g4, fld2, True)))))))))"

subsection \<open>RearrangeFunctionArgumentForFunction (lines 584-711)\<close>

text \<open>
  Modelled from the spec: the helpers of \<open>tf2xla_util\<close> and of the function library
  runtime that the pass calls (\<open>GetAssociatedFunctions\<close>, \<open>RewriteAssociatedFunction\<close>,
  \<open>Canonicalize\<close>, \<open>Instantiate\<close> with \<open>GetFunctionBody\<close>; none is among the sources).
  The functions associated with a node are the function references among its attributes,
  each a name plus a captured attribute set; rewriting one points that attribute at the
  new name; the canonicalized identity of a function is its name paired with its
  normalised attribute set; instantiating fails with not found for an unknown name.
\<close>

datatype AssociatedFunctionType = kFunctionAttr | kFunctionCallNode | kSymbolicGradient

record AssociatedFunctionInfo =
  af_type :: AssociatedFunctionType
  af_func_name :: string
  af_attrs :: AttrMap
  af_attr_name :: string

definition GetAssociatedFunctions :: "Node \<Rightarrow> FunctionLibraryDefinition \<Rightarrow> AssociatedFunctionInfo list" where
  "GetAssociatedFunctions n fld =
     concat (map (\<lambda>(k, v). case v of
                     AttrFunc f a \<Rightarrow> [\<lparr> af_type = kFunctionAttr, af_func_name = f, af_attrs = a, af_attr_name = k \<rparr>]
                   | _ \<Rightarrow> [])
              (attrs n))"

definition RewriteAssociatedFunction ::
  "Graph \<Rightarrow> nat \<Rightarrow> FunctionLibraryDefinition \<Rightarrow> AssociatedFunctionInfo \<Rightarrow> string
     \<Rightarrow> (error \<times> Graph \<times> FunctionLibraryDefinition) + (Graph \<times> FunctionLibraryDefinition)" where
  "RewriteAssociatedFunction g n fld associated_function rewritten_function_name =
     (case GetNodeAttr_func (node_at g n) (af_attr_name associated_function) of
        Inl err \<Rightarrow> Inl (err, g, fld)
      | Inr (fname, fattr) \<Rightarrow>
          Inr (update_node g n
                 (AddAttr (af_attr_name associated_function) (AttrFunc rewritten_function_name fattr)
                    \<circ> ClearAttr (af_attr_name associated_function)),
               fld))"

type_synonym CanonicalName = "string \<times> (string \<rightharpoonup> AttrValue)"

definition Canonicalize :: "string \<Rightarrow> AttrMap \<Rightarrow> CanonicalName" where
  "Canonicalize fname fattrs = (fname, map_of fattrs)"

definition Instantiate :: "FunctionLibraryDefinition \<Rightarrow> string \<Rightarrow> AttrMap \<Rightarrow> error + FunctionBody" where
  "Instantiate fld fname fattrs =
     (case Find fld fname of None \<Rightarrow> Inl NotFound | Some fdef \<Rightarrow> FunctionDefToBodyHelper fdef)"

text \<open>
  \<open>canonicalized_name_to_new_name\<close>: an absent key is a function not processed yet, an
  empty entry a processed function that was not rewritten, a name a rewritten function.
\<close>

type_synonym Memo = "CanonicalName \<rightharpoonup> string option"

type_synonym PassResult =
  "(error \<times> FunctionLibraryDefinition \<times> Memo) + (FunctionLibraryDefinition \<times> Memo \<times> bool)"

type_synonym 's LoopResult = "((error \<times> FunctionLibraryDefinition \<times> Memo) + 's) option"

text \<open>
  A range-based \<open>for\<close> loop whose body may fail (\<open>TF_RETURN_IF_ERROR\<close> leaves the loop and
  the function) or may not return.
\<close>

fun for_each :: "('a \<Rightarrow> 's \<Rightarrow> ('e + 's) option) \<Rightarrow> 'a list \<Rightarrow> 's \<Rightarrow> ('e + 's) option" where
  "for_each body [] s = Some (Inr s)"
| "for_each body (x # xs) s =
     Option.bind (body x s) (\<lambda>r. case r of Inl err \<Rightarrow> Some (Inl err) | Inr s' \<Rightarrow> for_each body xs s')"

lemma for_each_mono [partial_function_mono]:
  assumes "\<And>x s. mono_option (\<lambda>f. body f x s)"
  shows "mono_option (\<lambda>f. for_each (body f) xs s)"
proof (induction xs arbitrary: s)
  case Nil
  show ?case by (simp add: option.const_mono)
next
  case (Cons x xs)
  show ?case
    unfolding for_each.simps
  proof (rule bind_mono [OF assms])
    fix y
    show "mono_option (\<lambda>f. case y of Inl err \<Rightarrow> Some (Inl err) | Inr s' \<Rightarrow> for_each (body f) xs s')"
      by (cases y) (simp_all add: option.const_mono Cons)
  qed
qed

text \<open>Lines 660-669.\<close>

definition finish_associated_function ::
  "nat \<Rightarrow> AssociatedFunctionInfo \<Rightarrow> bool \<Rightarrow> string \<Rightarrow> Graph \<Rightarrow> FunctionLibraryDefinition \<Rightarrow> Memo \<Rightarrow> bool
     \<Rightarrow> (error \<times> FunctionLibraryDefinition \<times> Memo) + (Graph \<times> FunctionLibraryDefinition \<times> Memo \<times> bool)" where
  "finish_associated_function n associated_function function_modified new_name g fld memo modified =
     (if function_modified
      then (case RewriteAssociatedFunction g n fld associated_function new_name of
              Inl (err, _, fld') \<Rightarrow> Inl (err, fld', memo)
            | Inr (g', fld') \<Rightarrow> Inr (g', fld', memo, True))
      else Inr (g, fld, memo, modified))"

text \<open>Lines 621-670: one associated function of node \<open>n\<close>; \<open>self\<close> is the recursive call.\<close>

definition rewrite_associated_function ::
  "(string \<Rightarrow> string \<Rightarrow> AttrMap \<Rightarrow> FunctionLibraryDefinition \<Rightarrow> Memo \<Rightarrow> PassResult option)
     \<Rightarrow> nat \<Rightarrow> AssociatedFunctionInfo \<Rightarrow> Graph \<times> FunctionLibraryDefinition \<times> Memo \<times> bool
     \<Rightarrow> ((error \<times> FunctionLibraryDefinition \<times> Memo) + (Graph \<times> FunctionLibraryDefinition \<times> Memo \<times> bool)) option" where
  "rewrite_associated_function self n associated_function st =
     (case st of (g, fld, memo, modified) \<Rightarrow>
      let fname = af_func_name associated_function;
          canonicalized_name = Canonicalize fname (af_attrs associated_function)
      in case memo canonicalized_name of
           Some entry \<Rightarrow>
             Some (finish_associated_function n associated_function (entry \<noteq> None)
                     (case entry of Some v \<Rightarrow> v | None \<Rightarrow> []) g fld memo modified)
         | None \<Rightarrow>
             (let new_name =
                    (if af_type associated_function = kSymbolicGradient
                     then UniqueFunctionName fld (name (node_at g n) @ ''_rearrange_'')
                     else UniqueFunctionName fld (fname @ ''_rearrange_''))
              in Option.bind (self fname new_name (af_attrs associated_function) fld memo)
                   (\<lambda>r. case r of
                           Inl err \<Rightarrow> Some (Inl err)
                         | Inr (fld', memo', function_modified) \<Rightarrow>
                             Some (finish_associated_function n associated_function function_modified
                                     new_name g fld'
                                     (memo'(canonicalized_name \<mapsto>
                                              (if function_modified then Some new_name else None)))
                                     modified))))"

lemma rewrite_associated_function_mono [partial_function_mono]:
  assumes "\<And>a b c d e. mono_option (\<lambda>f. self f a b c d e)"
  shows "mono_option (\<lambda>f. rewrite_associated_function (self f) n associated_function st)"
proof -
  obtain g fld memo modified where st: "st = (g, fld, memo, modified)"
    by (cases st) auto
  show ?thesis
  proof (cases "memo (Canonicalize (af_func_name associated_function) (af_attrs associated_function))")
    case None
    show ?thesis
      unfolding rewrite_associated_function_def st prod.case Let_def None option.case
      by (rule bind_mono [OF assms]) (rule option.const_mono)
  next
    case (Some entry)
    show ?thesis
      unfolding rewrite_associated_function_def st prod.case Let_def Some option.case
      by (rule option.const_mono)
  qed
qed

text \<open>Lines 673-693: one node of the second loop.\<close>

definition rewrite_node ::
  "int \<Rightarrow> nat \<Rightarrow> Graph \<times> FunctionLibraryDefinition \<times> bool
     \<Rightarrow> ((error \<times> Graph \<times> FunctionLibraryDefinition) + (Graph \<times> FunctionLibraryDefinition \<times> bool)) option" where
  "rewrite_node uninit n st =
     (case st of (g, fld, modified) \<Rightarrow>
      if type_string (node_at g n) = ''While''
      then (case MaybeRewriteWhileNode g n fld uninit of
              None \<Rightarrow> None
            | Some (Inl err) \<Rightarrow> Some (Inl err)
            | Some (Inr (g', fld', node_rewritten)) \<Rightarrow>
                Some (Inr (g', fld', if node_rewritten then True else modified)))
      else if type_string (node_at g n) = ''StatefulPartitionedCall''
      then (case MaybeRewriteCallNode g n fld uninit of
              Inl err \<Rightarrow> Some (Inl err)
            | Inr (g', fld', node_rewritten) \<Rightarrow>
                Some (Inr (g', fld', if node_rewritten then True else modified)))
      else if type_string (node_at g n) = ''If''
      then (case MaybeRewriteIfNode g n fld uninit of
              Inl err \<Rightarrow> Some (Inl err)
            | Inr (g', fld', node_rewritten) \<Rightarrow>
                Some (Inr (g', fld', if node_rewritten then True else modified)))
      else Some (Inr (g, fld, modified)))"

text \<open>Lines 695-710.\<close>

definition register_rewritten ::
  "string \<Rightarrow> string \<Rightarrow> Graph \<Rightarrow> FunctionLibraryDefinition \<Rightarrow> Memo \<Rightarrow> bool \<Rightarrow> PassResult" where
  "register_rewritten func_name new_func_name g fld memo modified =
     (if modified
      then (case (if func_name = new_func_name
                  then ReplaceFunction fld new_func_name (GraphToFunctionDef g new_func_name)
                  else AddFunctionDef fld (GraphToFunctionDef g new_func_name)) of
              Inl err \<Rightarrow> Inl (err, fld, memo)
            | Inr fld' \<Rightarrow> Inr (fld', memo, True))
      else Inr (fld, memo, False))"

text \<open>
  The recursion has no bound in the source, so the function is partial: \<open>None\<close> is a call
  that does not return. The graph of the instantiated body is local to the call; the
  library and the memoization map are changed in place and handed back, also on failure.
  Releasing the handle (lines 596-601) is taken to succeed. \<open>uninit\<close> is passed on to the
  node rewriters.
\<close>

partial_function (option) RearrangeFunctionArgumentForFunction ::
  "int \<Rightarrow> string \<Rightarrow> string \<Rightarrow> AttrMap \<Rightarrow> FunctionLibraryDefinition \<Rightarrow> Memo \<Rightarrow> PassResult option" where
  "RearrangeFunctionArgumentForFunction uninit func_name new_func_name fattrs fld memo =
     (case Instantiate fld func_name fattrs of
        Inl err \<Rightarrow> Some (Inl (err, fld, memo))
      | Inr body \<Rightarrow>
          (let g = graph body;
               nodes_to_associated_functions =
                 filter (\<lambda>p. snd p \<noteq> [])
                   (map (\<lambda>n. (n, GetAssociatedFunctions (node_at g n) fld)) (node_ids g))
           in Option.bind
                (for_each
                   (\<lambda>p. for_each
                          (rewrite_associated_function
                             (RearrangeFunctionArgumentForFunction uninit) (fst p))
                          (snd p))
                   nodes_to_associated_functions (g, fld, memo, False))
                (\<lambda>r. case r of
                        Inl err \<Rightarrow> Some (Inl err)
                      | Inr (g1, fld1, memo1, modified1) \<Rightarrow>
                          (case for_each (rewrite_node uninit) (node_ids g1) (g1, fld1, modified1) of
                             None \<Rightarrow> None
                           | Some (Inl (err, _, fld2)) \<Rightarrow> Some (Inl (err, fld2, memo1))
                           | Some (Inr (g2, fld2, modified2)) \<Rightarrow>
                               Some (register_rewritten func_name new_func_name g2 fld2 memo1
                                       modified2)))))"

section \<open>graph\_def\_util.cc: AddDefaultAttrsToGraphDef (lines 46-67)\<close>

record NodeDef =
  node_name :: string
  op :: string
  input :: "string list"
  device :: string
  attr :: AttrMap

record AttrDef =
  attr_name :: string
  default_value :: "AttrValue option"

record OpDef =
  op_name :: string
  op_attr :: "AttrDef list"

type_synonym GraphDef = "NodeDef list"

text \<open>
  Modelled from the spec: default-value population of one node (\<open>AddDefaultsToNodeDef\<close> is
  not among the sources): any attribute absent on the node but present with a default in
  the operation's signature is filled in.
\<close>

fun AddDefaultsToNodeDef_loop :: "AttrDef list \<Rightarrow> NodeDef \<Rightarrow> NodeDef" where
  "AddDefaultsToNodeDef_loop [] node_def = node_def"
| "AddDefaultsToNodeDef_loop (a # as) node_def =
     AddDefaultsToNodeDef_loop as
       (case default_value a of
          Some v \<Rightarrow>
            if map_of (attr node_def) (attr_name a) = None
            then node_def\<lparr> attr := attr node_def @ [(attr_name a, v)] \<rparr>
            else node_def
        | None \<Rightarrow> node_def)"

definition AddDefaultsToNodeDef :: "OpDef \<Rightarrow> NodeDef \<Rightarrow> NodeDef" where
  "AddDefaultsToNodeDef op_def node_def = AddDefaultsToNodeDef_loop (op_attr op_def) node_def"

text \<open>
  Lines 57-64. The registry is a parameter: \<open>LookUp\<close> gives the signature of an operation
  or a failed status. The graph is changed in place, so the result is the status
  (\<open>None\<close> is OK) together with the graph as the call leaves it.
\<close>

function AddDefaultAttrs_loop ::
  "(string \<Rightarrow> error + OpDef) \<Rightarrow> GraphDef \<Rightarrow> nat \<Rightarrow> error option \<times> GraphDef" where
  "AddDefaultAttrs_loop LookUp graph_def i =
     (if i < length graph_def
      then (case LookUp (op (graph_def ! i)) of
              Inl err \<Rightarrow> (Some err, graph_def)
            | Inr op_def \<Rightarrow>
                AddDefaultAttrs_loop LookUp
                  (graph_def[i := AddDefaultsToNodeDef op_def (graph_def ! i)]) (Suc i))
      else (None, graph_def))"
  by pat_completeness auto
termination
  by (relation "measure (\<lambda>(LookUp, graph_def, i). length graph_def - i)") auto

declare AddDefaultAttrs_loop.simps [simp del]

text \<open>
  A negative \<open>node_offset\<close> passes the check of line 49 and makes line 58 index the node
  list below zero, which is undefined in the source; it is reported like an exception.
\<close>

definition AddDefaultAttrsToGraphDef ::
  "GraphDef \<Rightarrow> (string \<Rightarrow> error + OpDef) \<Rightarrow> int \<Rightarrow> error option \<times> GraphDef" where
  "AddDefaultAttrsToGraphDef graph_def LookUp node_offset =
     (if node_offset > int (length graph_def) then (Some InvalidArgument, graph_def)
      else if node_offset < 0 then (Some StdOutOfRange, graph_def)
      else AddDefaultAttrs_loop LookUp graph_def (nat node_offset))"


section \<open>Vocabulary of the properties\<close>

text \<open>The control edges of a graph, in the order of the edge list.\<close>

definition control_edges :: "Graph \<Rightarrow> Edge list" where
  "control_edges g = filter IsControlEdge (edges g)"

text \<open>The graph a primitive leaves behind, whether it succeeded or failed.\<close>

definition graph_left :: "(error \<times> Graph) + Graph \<Rightarrow> Graph" where
  "graph_left r = (case r of Inl (err, g) \<Rightarrow> g | Inr g \<Rightarrow> g)"

text \<open>An edge is a control edge at both ends or at neither.\<close>

definition slots_consistent :: "Edge \<Rightarrow> bool" where
  "slots_consistent e \<longleftrightarrow> (src_output e = kControlSlot) = (dst_input e = kControlSlot)"

text \<open>
  The control edges of the graph, and those into and out of node \<open>n\<close>, are the same in
  \<open>g'\<close> as in \<open>g\<close>.
\<close>

definition control_kept :: "Graph \<Rightarrow> nat \<Rightarrow> Graph \<Rightarrow> bool" where
  "control_kept g n g' \<longleftrightarrow>
     control_edges g' = control_edges g \<and>
     filter IsControlEdge (in_edges g' n) = filter IsControlEdge (in_edges g n) \<and>
     filter IsControlEdge (out_edges g' n) = filter IsControlEdge (out_edges g n)"

section \<open>Example graphs and libraries\<close>

definition mk_edge :: "nat \<Rightarrow> int \<Rightarrow> nat \<Rightarrow> int \<Rightarrow> Edge" where
  "mk_edge s x d y = \<lparr> src = s, src_output = x, dst = d, dst_input = y \<rparr>"

text \<open>
  Node 2 has a control input from node 0, data inputs from nodes 0 and 1, data outputs to
  nodes 3 and 4 and a control output to node 3.
\<close>

definition ctl_graph :: Graph where
  "ctl_graph = \<lparr> nodes = [],
                  edges = [mk_edge 0 (-1) 2 (-1), mk_edge 0 0 2 0, mk_edge 1 0 2 1,
                           mk_edge 2 1 3 0, mk_edge 2 0 4 0, mk_edge 2 (-1) 3 (-1)] \<rparr>"

text \<open>
  A registry that knows one operation, \<open>Conv\<close>, whose attribute \<open>data_format\<close> has a
  default, and a graph of two \<open>Conv\<close> nodes that both lack it.
\<close>

definition example_registry :: "string \<Rightarrow> error + OpDef" where
  "example_registry opname =
     (if opname = ''Conv'' then Inr \<lparr> op_name = ''Conv'',
          op_attr = [\<lparr> attr_name = ''T'', default_value = None \<rparr>,
                     \<lparr> attr_name = ''data_format'', default_value = Some (AttrString ''NHWC'') \<rparr>] \<rparr>
      else Inl NotFound)"

definition example_graph_def :: GraphDef where
  "example_graph_def =
     [\<lparr> node_name = ''old'', op = ''Conv'', input = [], device = [], attr = [(''T'', AttrType DT_FLOAT)] \<rparr>,
      \<lparr> node_name = ''new'', op = ''Conv'', input = [''old:0''], device = [], attr = [(''T'', AttrType DT_FLOAT)] \<rparr>]"

text \<open>
  The input edges of an \<open>If\<close> node that the rewrite moves (data edges into a slot other
  than 0, the predicate), and where an edge goes: the mapping is read at the slot minus
  one and the result shifted by one.
\<close>

definition if_input_moved :: "nat \<Rightarrow> Edge \<Rightarrow> bool" where
  "if_input_moved n e \<longleftrightarrow> dst e = n \<and> \<not> IsControlEdge e \<and> dst_input e \<noteq> 0"

definition if_input_target :: "int list \<Rightarrow> Edge \<Rightarrow> Edge" where
  "if_input_target index_mapping e = e\<lparr> dst_input := index_mapping ! nat (dst_input e - 1) + 1 \<rparr>"

text \<open>The edges that feed input slot 0 of node \<open>n\<close>; \<open>n\<close> has no edge to itself.\<close>

definition feeds_slot_0 :: "nat \<Rightarrow> Edge \<Rightarrow> bool" where
  "feeds_slot_0 n e \<longleftrightarrow> dst e = n \<and> dst_input e = 0"

definition no_self_loop :: "Graph \<Rightarrow> nat \<Rightarrow> bool" where
  "no_self_loop g n \<longleftrightarrow> (\<forall>e\<in>set (edges g). \<not> (src e = n \<and> dst e = n))"

text \<open>
  An \<open>If\<close> node (node 3) with inputs \<open>[pred, resource, float]\<close> from nodes 0, 1 and 2; both
  branches take \<open>(resource, float)\<close> and return the float argument.
\<close>

definition mk_node :: "string \<Rightarrow> string \<Rightarrow> AttrMap \<Rightarrow> Node" where
  "mk_node nm ty ats = \<lparr> name = nm, type_string = ty, attrs = ats \<rparr>"

definition branch_body :: Graph where
  "branch_body = \<lparr> nodes = [Some (mk_node ''a0'' ''_Arg'' [(''index'', AttrInt 0), (''T'', AttrType DT_RESOURCE)]),
                            Some (mk_node ''a1'' ''_Arg'' [(''index'', AttrInt 1), (''T'', AttrType DT_FLOAT)]),
                            Some (mk_node ''r0'' ''_Retval'' [(''index'', AttrInt 0), (''T'', AttrType DT_FLOAT)])],
                   edges = [mk_edge 1 0 2 0] \<rparr>"

definition if_fld :: FunctionLibraryDefinition where
  "if_fld = [(''then_fn'', \<lparr> signature_name = ''then_fn'', body_graph = branch_body \<rparr>),
             (''else_fn'', \<lparr> signature_name = ''else_fn'', body_graph = branch_body \<rparr>)]"

definition if_graph :: Graph where
  "if_graph = \<lparr> nodes = [Some (mk_node ''pred'' ''Const'' []),
                         Some (mk_node ''var'' ''VarHandleOp'' []),
                         Some (mk_node ''x'' ''Const'' []),
                         Some (mk_node ''if'' ''If'' [(''Tin'', AttrTypeList [DT_RESOURCE, DT_FLOAT]),
                                                     (''Tout'', AttrTypeList [DT_FLOAT]),
                                                     (''then_branch'', AttrFunc ''then_fn'' []),
                                                     (''else_branch'', AttrFunc ''else_fn'' [])])],
                 edges = [mk_edge 0 0 3 0, mk_edge 1 0 3 1, mk_edge 2 0 3 2] \<rparr>"

text \<open>
  A \<open>StatefulPartitionedCall\<close> node (node 1) that takes and returns one float; the
  callee returns its argument.
\<close>

definition float_identity_body :: Graph where
  "float_identity_body =
     \<lparr> nodes = [Some (mk_node ''x'' ''_Arg'' [(''index'', AttrInt 0), (''T'', AttrType DT_FLOAT)]),
                Some (mk_node ''y'' ''_Retval'' [(''index'', AttrInt 0), (''T'', AttrType DT_FLOAT)])],
       edges = [mk_edge 0 0 1 0] \<rparr>"

definition call_fld :: FunctionLibraryDefinition where
  "call_fld = [(''callee'', \<lparr> signature_name = ''callee'', body_graph = float_identity_body \<rparr>)]"

definition call_graph :: Graph where
  "call_graph =
     \<lparr> nodes = [Some (mk_node ''in'' ''Const'' []),
                Some (mk_node ''call'' ''StatefulPartitionedCall''
                        [(''Tin'', AttrTypeList [DT_FLOAT]), (''Tout'', AttrTypeList [DT_FLOAT]),
                         (''f'', AttrFunc ''callee'' [])])],
       edges = [mk_edge 0 0 1 0] \<rparr>"

text \<open>What the renumbering of the argument nodes leaves alone.\<close>

definition same_but_index :: "Graph \<Rightarrow> Graph \<Rightarrow> bool" where
  "same_but_index g g' \<longleftrightarrow>
     edges g' = edges g \<and> length (nodes g') = length (nodes g) \<and>
     (\<forall>x. type_string (node_at g' x) = type_string (node_at g x)) \<and>
     (\<forall>x k. k \<noteq> ''index'' \<longrightarrow> map_of (attrs (node_at g' x)) k = map_of (attrs (node_at g x)) k) \<and>
     (\<forall>x. (\<exists>i. GetNodeAttr_int (node_at g x) ''index'' = Inr i)
            \<longrightarrow> (\<exists>i. GetNodeAttr_int (node_at g' x) ''index'' = Inr i))"

text \<open>The input of \<open>_Retval\<close> node \<open>r\<close> comes directly from an \<open>_Arg\<close> node.\<close>

definition fed_by_arg :: "Graph \<Rightarrow> nat \<Rightarrow> bool" where
  "fed_by_arg g r \<longleftrightarrow> (\<exists>e. input_edge g r 0 = Inr e \<and> IsArg (node_at g (src e)))"

text \<open>
  A \<open>_Retval\<close> node has its type attribute; a resource-typed one has an input edge, and
  an \<open>_Arg\<close> that feeds it has its \<open>index\<close> attribute.
\<close>

definition retval_well_formed :: "Graph \<Rightarrow> nat \<Rightarrow> bool" where
  "retval_well_formed g r \<longleftrightarrow>
     (\<exists>t. GetNodeAttr_type (node_at g r) ''T'' = Inr t \<and>
          (t = DT_RESOURCE \<longrightarrow>
             (\<exists>e. input_edge g r 0 = Inr e \<and>
                  (IsArg (node_at g (src e)) \<longrightarrow>
                     (\<exists>i. GetNodeAttr_int (node_at g (src e)) ''index'' = Inr i)))))"

text \<open>The error a call reports, if any.\<close>

definition status_of :: "(error \<times> 's) + 'r \<Rightarrow> error option" where
  "status_of r = (case r of Inl (err, _) \<Rightarrow> Some err | Inr _ \<Rightarrow> None)"

text \<open>Every resource-typed \<open>_Retval\<close> of the body takes its input directly from an \<open>_Arg\<close>.\<close>

definition resource_retvals_fed_by_args :: "FunctionBody \<Rightarrow> bool" where
  "resource_retvals_fed_by_args fbody \<longleftrightarrow>
     (\<forall>r\<in>set (ret_nodes fbody).
        GetNodeAttr_type (node_at (graph fbody) r) ''T'' = Inr DT_RESOURCE \<longrightarrow> fed_by_arg (graph fbody) r)"

text \<open>
  An \<open>If\<close> node (node 3) over two resources whose single output is a resource: the
  then-branch returns its first argument, the else-branch its second. Node 4 reads the
  output.
\<close>

definition then_first_body :: Graph where
  "then_first_body =
     \<lparr> nodes = [Some (mk_node ''a'' ''_Arg'' [(''index'', AttrInt 0), (''T'', AttrType DT_RESOURCE)]),
                Some (mk_node ''b'' ''_Arg'' [(''index'', AttrInt 1), (''T'', AttrType DT_RESOURCE)]),
                Some (mk_node ''out'' ''_Retval'' [(''index'', AttrInt 0), (''T'', AttrType DT_RESOURCE)])],
       edges = [mk_edge 0 0 2 0] \<rparr>"

definition else_second_body :: Graph where
  "else_second_body = then_first_body\<lparr> edges := [mk_edge 1 0 2 0] \<rparr>"

definition mismatch_fld :: FunctionLibraryDefinition where
  "mismatch_fld =
     [(''then_first'', \<lparr> signature_name = ''then_first'', body_graph = then_first_body \<rparr>),
      (''else_second'', \<lparr> signature_name = ''else_second'', body_graph = else_second_body \<rparr>)]"

definition mismatch_if_graph :: Graph where
  "mismatch_if_graph =
     \<lparr> nodes = [Some (mk_node ''pred'' ''Const'' []),
                Some (mk_node ''var_a'' ''VarHandleOp'' []),
                Some (mk_node ''var_b'' ''VarHandleOp'' []),
                Some (mk_node ''if'' ''If''
                        [(''Tin'', AttrTypeList [DT_RESOURCE, DT_RESOURCE]),
                         (''Tout'', AttrTypeList [DT_RESOURCE]),
                         (''then_branch'', AttrFunc ''then_first'' []),
                         (''else_branch'', AttrFunc ''else_second'' [])]),
                Some (mk_node ''read'' ''ReadVariableOp'' [])],
       edges = [mk_edge 0 0 3 0, mk_edge 1 0 3 1, mk_edge 2 0 3 2, mk_edge 3 0 4 0] \<rparr>"

text \<open>Node \<open>x\<close> is an \<open>_Arg\<close>, or leads to one upstream through identity nodes only.\<close>

inductive reaches_arg :: "Graph \<Rightarrow> nat \<Rightarrow> bool" for g where
  arg: "IsArg (node_at g x) \<Longrightarrow> reaches_arg g x"
| through_identity:
    "IsIdentity (node_at g x) \<Longrightarrow> input_node g x 0 = Inr y \<Longrightarrow> reaches_arg g y \<Longrightarrow> reaches_arg g x"

text \<open>The input of \<open>_Retval\<close> node \<open>r\<close> traces back to an \<open>_Arg\<close> through zero or more identity nodes.\<close>

definition retval_from_arg :: "Graph \<Rightarrow> nat \<Rightarrow> bool" where
  "retval_from_arg g r \<longleftrightarrow> (\<exists>first. input_node g r 0 = Inr first \<and> reaches_arg g first)"

text \<open>The data inputs of node \<open>n\<close> sit in slots \<open>0 .. k - 1\<close>.\<close>

definition data_inputs_in_range :: "Graph \<Rightarrow> nat \<Rightarrow> nat \<Rightarrow> bool" where
  "data_inputs_in_range g n k \<longleftrightarrow>
     (\<forall>e\<in>set (in_edges g n). \<not> IsControlEdge e \<longrightarrow> 0 \<le> dst_input e \<and> dst_input e < int k)"

text \<open>
  A call node (node 1) whose callee returns a resource it makes itself (node 1 of the
  body, a \<open>VarHandleOp\<close>) and the float argument.
\<close>

definition internal_resource_body :: Graph where
  "internal_resource_body =
     \<lparr> nodes = [Some (mk_node ''x'' ''_Arg'' [(''index'', AttrInt 0), (''T'', AttrType DT_FLOAT)]),
                Some (mk_node ''v'' ''VarHandleOp'' []),
                Some (mk_node ''handle'' ''_Retval'' [(''index'', AttrInt 0), (''T'', AttrType DT_RESOURCE)]),
                Some (mk_node ''y'' ''_Retval'' [(''index'', AttrInt 1), (''T'', AttrType DT_FLOAT)])],
       edges = [mk_edge 1 0 2 0, mk_edge 0 0 3 0] \<rparr>"

definition internal_resource_fld :: FunctionLibraryDefinition where
  "internal_resource_fld =
     [(''make_var'', \<lparr> signature_name = ''make_var'', body_graph = internal_resource_body \<rparr>)]"

definition internal_resource_call :: Graph where
  "internal_resource_call =
     \<lparr> nodes = [Some (mk_node ''in'' ''Const'' []),
                Some (mk_node ''call'' ''StatefulPartitionedCall''
                        [(''Tin'', AttrTypeList [DT_FLOAT]),
                         (''Tout'', AttrTypeList [DT_RESOURCE, DT_FLOAT]),
                         (''f'', AttrFunc ''make_var'' [])])],
       edges = [mk_edge 0 0 1 0] \<rparr>"

text \<open>
  A function \<open>loop_fn\<close> whose body has one node, and that node refers to \<open>loop_fn\<close> through
  its attribute \<open>f\<close>.
\<close>

definition self_call_body :: Graph where
  "self_call_body =
     \<lparr> nodes = [Some (mk_node ''again'' ''PartitionedCall'' [(''f'', AttrFunc ''loop_fn'' [])])],
       edges = [] \<rparr>"

definition self_call_fld :: FunctionLibraryDefinition where
  "self_call_fld = [(''loop_fn'', \<lparr> signature_name = ''loop_fn'', body_graph = self_call_body \<rparr>)]"

text \<open>\<open>nodes_to_associated_functions\<close> (lines 609-616).\<close>

definition call_sites :: "Graph \<Rightarrow> FunctionLibraryDefinition \<Rightarrow> (nat \<times> AssociatedFunctionInfo list) list" where
  "call_sites g fld =
     filter (\<lambda>p. snd p \<noteq> []) (map (\<lambda>n. (n, GetAssociatedFunctions (node_at g n) fld)) (node_ids g))"

text \<open>
  A function \<open>caller\<close> with two \<open>StatefulPartitionedCall\<close> nodes (nodes 2 and 3) that call
  the same function \<open>shared\<close> with inputs \<open>[resource, float]\<close>, and the graphs and libraries
  after the first and after the second call node has been rewritten.
\<close>

definition two_calls_body :: Graph where
  "two_calls_body =
     \<lparr> nodes = [Some (mk_node ''var'' ''VarHandleOp'' []),
                Some (mk_node ''x'' ''Const'' []),
                Some (mk_node ''call1'' ''StatefulPartitionedCall''
                        [(''Tin'', AttrTypeList [DT_RESOURCE, DT_FLOAT]), (''Tout'', AttrTypeList [DT_FLOAT]),
                         (''f'', AttrFunc ''shared'' [])]),
                Some (mk_node ''call2'' ''StatefulPartitionedCall''
                        [(''Tin'', AttrTypeList [DT_RESOURCE, DT_FLOAT]), (''Tout'', AttrTypeList [DT_FLOAT]),
                         (''f'', AttrFunc ''shared'' [])])],
       edges = [mk_edge 0 0 2 0, mk_edge 1 0 2 1, mk_edge 0 0 3 0, mk_edge 1 0 3 1] \<rparr>"

definition two_calls_fld :: FunctionLibraryDefinition where
  "two_calls_fld =
     [(''shared'', \<lparr> signature_name = ''shared'', body_graph = branch_body \<rparr>),
      (''caller'', \<lparr> signature_name = ''caller'', body_graph = two_calls_body \<rparr>)]"

definition rearranged_branch_body :: Graph where
  "rearranged_branch_body =
     \<lparr> nodes = [Some (mk_node ''a0'' ''_Arg'' [(''T'', AttrType DT_RESOURCE), (''index'', AttrInt 1)]),
                Some (mk_node ''a1'' ''_Arg'' [(''T'', AttrType DT_FLOAT), (''index'', AttrInt 0)]),
                Some (mk_node ''r0'' ''_Retval'' [(''index'', AttrInt 0), (''T'', AttrType DT_FLOAT)])],
       edges = [mk_edge 1 0 2 0] \<rparr>"

definition rewritten_call :: "string \<Rightarrow> string \<Rightarrow> Node" where
  "rewritten_call nm callee =
     mk_node nm ''StatefulPartitionedCall''
       [(''Tout'', AttrTypeList [DT_FLOAT]), (''Tin'', AttrTypeList [DT_FLOAT, DT_RESOURCE]),
        (''f'', AttrFunc callee [])]"

definition after_call1 :: Graph where
  "after_call1 =
     \<lparr> nodes = [Some (mk_node ''var'' ''VarHandleOp'' []),
                Some (mk_node ''x'' ''Const'' []),
                Some (rewritten_call ''call1'' ''shared_rearrange_0''),
                Some (mk_node ''call2'' ''StatefulPartitionedCall''
                        [(''Tin'', AttrTypeList [DT_RESOURCE, DT_FLOAT]), (''Tout'', AttrTypeList [DT_FLOAT]),
                         (''f'', AttrFunc ''shared'' [])])],
       edges = [mk_edge 0 0 3 0, mk_edge 1 0 3 1, mk_edge 0 0 2 1, mk_edge 1 0 2 0] \<rparr>"

definition fld_after_call1 :: FunctionLibraryDefinition where
  "fld_after_call1 =
     two_calls_fld @
     [(''shared_rearrange_0'', \<lparr> signature_name = ''shared_rearrange_0'', body_graph = rearranged_branch_body \<rparr>)]"

definition after_call2 :: Graph where
  "after_call2 =
     \<lparr> nodes = [Some (mk_node ''var'' ''VarHandleOp'' []),
                Some (mk_node ''x'' ''Const'' []),
                Some (rewritten_call ''call1'' ''shared_rearrange_0''),
                Some (rewritten_call ''call2'' ''shared_rearrange_1'')],
       edges = [mk_edge 0 0 2 1, mk_edge 1 0 2 0, mk_edge 0 0 3 1, mk_edge 1 0 3 0] \<rparr>"

definition fld_after_call2 :: FunctionLibraryDefinition where
  "fld_after_call2 =
     fld_after_call1 @
     [(''shared_rearrange_1'', \<lparr> signature_name = ''shared_rearrange_1'', body_graph = rearranged_branch_body \<rparr>)]"

text \<open>
  A graph with two nodes that both refer to \<open>caller\<close> through their attribute \<open>f\<close>, and
  that reference as an associated function.
\<close>

definition two_sites_graph :: Graph where
  "two_sites_graph =
     \<lparr> nodes = [Some (mk_node ''site1'' ''MapDataset'' [(''f'', AttrFunc ''caller'' [])]),
                Some (mk_node ''site2'' ''MapDataset'' [(''f'', AttrFunc ''caller'' [])])],
       edges = [] \<rparr>"

definition caller_reference :: AssociatedFunctionInfo where
  "caller_reference = \<lparr> af_type = kFunctionAttr, af_func_name = ''caller'', af_attrs = [],
                         af_attr_name = ''f'' \<rparr>"

text \<open>
  Following identity nodes upstream from node \<open>x\<close> ends at node \<open>a\<close>, the first node on
  the way that is not an identity node.
\<close>

inductive traces_to :: "Graph \<Rightarrow> nat \<Rightarrow> nat \<Rightarrow> bool" for g where
  here: "\<not> IsIdentity (node_at g x) \<Longrightarrow> traces_to g x x"
| through_identity:
    "IsIdentity (node_at g x) \<Longrightarrow> input_node g x 0 = Inr y \<Longrightarrow> traces_to g y a \<Longrightarrow> traces_to g x a"

text \<open>The value of \<open>_Retval\<close> node \<open>r\<close> comes, through zero or more identity nodes, from node \<open>a\<close>.\<close>

definition retval_source :: "Graph \<Rightarrow> nat \<Rightarrow> nat \<Rightarrow> bool" where
  "retval_source g r a \<longleftrightarrow> (\<exists>first. input_node g r 0 = Inr first \<and> traces_to g first a)"

text \<open>The value of \<open>_Retval\<close> node \<open>r\<close> is the argument with index \<open>i\<close>.\<close>

definition returns_arg :: "Graph \<Rightarrow> nat \<Rightarrow> int \<Rightarrow> bool" where
  "returns_arg g r i \<longleftrightarrow>
     (\<exists>a. retval_source g r a \<and> IsArg (node_at g a) \<and> GetNodeAttr_int (node_at g a) ''index'' = Inr i)"

text \<open>
  The value of \<open>_Retval\<close> node \<open>r\<close> is something else than the argument with index \<open>i\<close>: an
  argument with another index, or the output of a node that is no \<open>_Arg\<close>.
\<close>

definition returns_other :: "Graph \<Rightarrow> nat \<Rightarrow> int \<Rightarrow> bool" where
  "returns_other g r i \<longleftrightarrow>
     (\<exists>a. retval_source g r a \<and>
          (if IsArg (node_at g a)
           then \<exists>j. GetNodeAttr_int (node_at g a) ''index'' = Inr j \<and> j \<noteq> i
           else True))"

text \<open>
  Every resource-typed \<open>_Retval\<close> of the body returns the argument of its own position;
  every \<open>_Retval\<close> has its type attribute.
\<close>

definition resources_in_place :: "Graph \<Rightarrow> nat list \<Rightarrow> bool" where
  "resources_in_place g rets \<longleftrightarrow>
     (\<forall>j<length rets.
        \<exists>t. GetNodeAttr_type (node_at g (rets ! j)) ''T'' = Inr t \<and>
            (t = DT_RESOURCE \<longrightarrow> returns_arg g (rets ! j) (int j)))"

text \<open>
  Some resource-typed \<open>_Retval\<close> of the body returns something else than the argument of
  its own position; every \<open>_Retval\<close> has its type attribute and every resource-typed one
  a source.
\<close>

definition resource_out_of_place :: "Graph \<Rightarrow> nat list \<Rightarrow> bool" where
  "resource_out_of_place g rets \<longleftrightarrow>
     (\<forall>j<length rets.
        \<exists>t. GetNodeAttr_type (node_at g (rets ! j)) ''T'' = Inr t \<and>
            (t = DT_RESOURCE \<longrightarrow> returns_arg g (rets ! j) (int j) \<or> returns_other g (rets ! j) (int j))) \<and>
     (\<exists>j<length rets.
        GetNodeAttr_type (node_at g (rets ! j)) ''T'' = Inr DT_RESOURCE \<and>
        returns_other g (rets ! j) (int j))"

text \<open>Where \<open>ReorderInputEdges\<close> puts an input edge.\<close>

definition input_target :: "int list \<Rightarrow> Edge \<Rightarrow> Edge" where
  "input_target index_mapping e = e\<lparr> dst_input := index_mapping ! nat (dst_input e) \<rparr>"

text \<open>Every input slot of node \<open>n\<close> below \<open>k\<close> is fed by a data edge.\<close>

definition inputs_fed :: "Graph \<Rightarrow> nat \<Rightarrow> nat \<Rightarrow> bool" where
  "inputs_fed g n k \<longleftrightarrow>
     (\<forall>i<k. \<exists>e\<in>set (in_edges g n). \<not> IsControlEdge e \<and> dst_input e = int i)"

text \<open>The data outputs of node \<open>n\<close> leave from slots \<open>0 .. k - 1\<close>.\<close>

definition data_outputs_in_range :: "Graph \<Rightarrow> nat \<Rightarrow> nat \<Rightarrow> bool" where
  "data_outputs_in_range g n k \<longleftrightarrow>
     (\<forall>e\<in>set (out_edges g n). \<not> IsControlEdge e \<longrightarrow> 0 \<le> src_output e \<and> src_output e < int k)"

text \<open>
  A \<open>While\<close> node (node 3) over \<open>[resource, float, resource]\<close>, fed by nodes 0, 1 and 2;
  node 4 reads its float output and node 5 its first resource output. The condition
  compares the float argument. The body \<open>keep_body\<close> returns every argument at its own
  position, the first resource through an identity node; the body \<open>swap_body\<close> returns the
  two resources exchanged.
\<close>

definition loop_cond :: Graph where
  "loop_cond =
     \<lparr> nodes = [Some (mk_node ''a0'' ''_Arg'' [(''index'', AttrInt 0), (''T'', AttrType DT_RESOURCE)]),
                Some (mk_node ''a1'' ''_Arg'' [(''index'', AttrInt 1), (''T'', AttrType DT_FLOAT)]),
                Some (mk_node ''a2'' ''_Arg'' [(''index'', AttrInt 2), (''T'', AttrType DT_RESOURCE)]),
                Some (mk_node ''less'' ''Less'' []),
                Some (mk_node ''r0'' ''_Retval'' [(''index'', AttrInt 0), (''T'', AttrType DT_BOOL)])],
       edges = [mk_edge 1 0 3 0, mk_edge 3 0 4 0] \<rparr>"

definition keep_body :: Graph where
  "keep_body =
     \<lparr> nodes = [Some (mk_node ''a0'' ''_Arg'' [(''index'', AttrInt 0), (''T'', AttrType DT_RESOURCE)]),
                Some (mk_node ''a1'' ''_Arg'' [(''index'', AttrInt 1), (''T'', AttrType DT_FLOAT)]),
                Some (mk_node ''a2'' ''_Arg'' [(''index'', AttrInt 2), (''T'', AttrType DT_RESOURCE)]),
                Some (mk_node ''id'' ''Identity'' []),
                Some (mk_node ''r0'' ''_Retval'' [(''index'', AttrInt 0), (''T'', AttrType DT_RESOURCE)]),
                Some (mk_node ''r1'' ''_Retval'' [(''index'', AttrInt 1), (''T'', AttrType DT_FLOAT)]),
                Some (mk_node ''r2'' ''_Retval'' [(''index'', AttrInt 2), (''T'', AttrType DT_RESOURCE)])],
       edges = [mk_edge 0 0 3 0, mk_edge 3 0 4 0, mk_edge 1 0 5 0, mk_edge 2 0 6 0] \<rparr>"

definition swap_body :: Graph where
  "swap_body = keep_body\<lparr> edges := [mk_edge 2 0 3 0, mk_edge 3 0 4 0, mk_edge 1 0 5 0, mk_edge 0 0 6 0] \<rparr>"

definition loop_fld :: "Graph \<Rightarrow> FunctionLibraryDefinition" where
  "loop_fld body =
     [(''cond_fn'', \<lparr> signature_name = ''cond_fn'', body_graph = loop_cond \<rparr>),
      (''body_fn'', \<lparr> signature_name = ''body_fn'', body_graph = body \<rparr>)]"

definition loop_graph :: Graph where
  "loop_graph =
     \<lparr> nodes = [Some (mk_node ''var1'' ''VarHandleOp'' []),
                Some (mk_node ''x'' ''Const'' []),
                Some (mk_node ''var2'' ''VarHandleOp'' []),
                Some (mk_node ''loop'' ''While''
                        [(''T'', AttrTypeList [DT_RESOURCE, DT_FLOAT, DT_RESOURCE]),
                         (''cond'', AttrFunc ''cond_fn'' []), (''body'', AttrFunc ''body_fn'' [])]),
                Some (mk_node ''use'' ''Neg'' []),
                Some (mk_node ''read'' ''ReadVariableOp'' [])],
       edges = [mk_edge 0 0 3 0, mk_edge 1 0 3 1, mk_edge 2 0 3 2, mk_edge 3 1 4 0, mk_edge 3 0 5 0] \<rparr>"

text \<open>
  A \<open>While\<close> node (node 2) over \<open>[resource, resource]\<close> whose body returns the two
  resources exchanged.
\<close>

definition exchange_cond :: Graph where
  "exchange_cond =
     \<lparr> nodes = [Some (mk_node ''a0'' ''_Arg'' [(''index'', AttrInt 0), (''T'', AttrType DT_RESOURCE)]),
                Some (mk_node ''a1'' ''_Arg'' [(''index'', AttrInt 1), (''T'', AttrType DT_RESOURCE)]),
                Some (mk_node ''true'' ''Const'' []),
                Some (mk_node ''r0'' ''_Retval'' [(''index'', AttrInt 0), (''T'', AttrType DT_BOOL)])],
       edges = [mk_edge 2 0 3 0] \<rparr>"

definition exchange_body :: Graph where
  "exchange_body =
     \<lparr> nodes = [Some (mk_node ''a0'' ''_Arg'' [(''index'', AttrInt 0), (''T'', AttrType DT_RESOURCE)]),
                Some (mk_node ''a1'' ''_Arg'' [(''index'', AttrInt 1), (''T'', AttrType DT_RESOURCE)]),
                Some (mk_node ''r0'' ''_Retval'' [(''index'', AttrInt 0), (''T'', AttrType DT_RESOURCE)]),
                Some (mk_node ''r1'' ''_Retval'' [(''index'', AttrInt 1), (''T'', AttrType DT_RESOURCE)])],
       edges = [mk_edge 1 0 2 0, mk_edge 0 0 3 0] \<rparr>"

definition exchange_fld :: FunctionLibraryDefinition where
  "exchange_fld =
     [(''cond_fn'', \<lparr> signature_name = ''cond_fn'', body_graph = exchange_cond \<rparr>),
      (''body_fn'', \<lparr> signature_name = ''body_fn'', body_graph = exchange_body \<rparr>)]"

definition exchange_graph :: Graph where
  "exchange_graph =
     \<lparr> nodes = [Some (mk_node ''var1'' ''VarHandleOp'' []),
                Some (mk_node ''var2'' ''VarHandleOp'' []),
                Some (mk_node ''loop'' ''While''
                        [(''T'', AttrTypeList [DT_RESOURCE, DT_RESOURCE]),
                         (''cond'', AttrFunc ''cond_fn'' []), (''body'', AttrFunc ''body_fn'' [])])],
       edges = [mk_edge 0 0 2 0, mk_edge 1 0 2 1] \<rparr>"

text \<open>
  A function \<open>pass_through\<close> that returns its resource argument through an identity node,
  and a graph with two call nodes: node 2 calls \<open>shared\<close> with inputs \<open>[resource, float]\<close>,
  node 3 calls \<open>pass_through\<close>. \<open>pass_through_after_call1\<close> is the graph once node 2 has been
  rewritten.
\<close>

definition pass_through_body :: Graph where
  "pass_through_body =
     \<lparr> nodes = [Some (mk_node ''v'' ''_Arg'' [(''index'', AttrInt 0), (''T'', AttrType DT_RESOURCE)]),
                Some (mk_node ''id'' ''Identity'' []),
                Some (mk_node ''out'' ''_Retval'' [(''index'', AttrInt 0), (''T'', AttrType DT_RESOURCE)])],
       edges = [mk_edge 0 0 1 0, mk_edge 1 0 2 0] \<rparr>"

definition pass_through_fld :: FunctionLibraryDefinition where
  "pass_through_fld =
     [(''shared'', \<lparr> signature_name = ''shared'', body_graph = branch_body \<rparr>),
      (''pass_through'', \<lparr> signature_name = ''pass_through'', body_graph = pass_through_body \<rparr>)]"

definition pass_through_call :: Graph where
  "pass_through_call =
     \<lparr> nodes = [Some (mk_node ''var'' ''VarHandleOp'' []),
                Some (mk_node ''x'' ''Const'' []),
                Some (mk_node ''call1'' ''StatefulPartitionedCall''
                        [(''Tin'', AttrTypeList [DT_RESOURCE, DT_FLOAT]), (''Tout'', AttrTypeList [DT_FLOAT]),
                         (''f'', AttrFunc ''shared'' [])]),
                Some (mk_node ''call2'' ''StatefulPartitionedCall''
                        [(''Tin'', AttrTypeList [DT_RESOURCE]), (''Tout'', AttrTypeList [DT_RESOURCE]),
                         (''f'', AttrFunc ''pass_through'' [])])],
       edges = [mk_edge 0 0 2 0, mk_edge 1 0 2 1, mk_edge 0 0 3 0] \<rparr>"

definition pass_through_after_call1 :: Graph where
  "pass_through_after_call1 =
     \<lparr> nodes = [Some (mk_node ''var'' ''VarHandleOp'' []),
                Some (mk_node ''x'' ''Const'' []),
                Some (rewritten_call ''call1'' ''shared_rearrange_0''),
                Some (mk_node ''call2'' ''StatefulPartitionedCall''
                        [(''Tin'', AttrTypeList [DT_RESOURCE]), (''Tout'', AttrTypeList [DT_RESOURCE]),
                         (''f'', AttrFunc ''pass_through'' [])])],
       edges = [mk_edge 0 0 3 0, mk_edge 0 0 2 1, mk_edge 1 0 2 0] \<rparr>"

section \<open>The index mapping of InputTypesNeedsRearrange\<close>

lemma assign_length[simp]: "length (assign_indices ts a b) = length ts"
  by (induction ts arbitrary: a b) auto

lemma count_resources_eq: "count_resources ts c = c + int (length (filter (\<lambda>t. t = DT_RESOURCE) ts))"
  by (induction ts arbitrary: c) auto

lemma assign_nth:
  "i < length ts \<Longrightarrow> assign_indices ts a b ! i =
     (if ts ! i \<noteq> DT_RESOURCE then a + int (length (filter (\<lambda>t. t \<noteq> DT_RESOURCE) (take i ts)))
      else b + int (length (filter (\<lambda>t. t = DT_RESOURCE) (take i ts))))"
proof (induction ts arbitrary: a b i)
  case Nil then show ?case by simp
next
  case (Cons t ts)
  show ?case
  proof (cases i)
    case 0 then show ?thesis by simp
  next
    case (Suc k)
    with Cons.prems have "k < length ts" by simp
    from Cons.IH[OF this] Suc show ?thesis by simp
  qed
qed

lemma first_resource_from_neg: "first_resource_from ts i = -1 \<longleftrightarrow> DT_RESOURCE \<notin> set ts"
  by (induction ts arbitrary: i) auto

lemma first_resource_from_prop:
  "DT_RESOURCE \<in> set ts \<Longrightarrow> \<exists>k. first_resource_from ts i = int (i + k) \<and> k < length ts \<and> ts ! k = DT_RESOURCE \<and> (\<forall>j<k. ts ! j \<noteq> DT_RESOURCE)"
proof (induction ts arbitrary: i)
  case Nil then show ?case by simp
next
  case (Cons t ts)
  show ?case
  proof (cases "t = DT_RESOURCE")
    case True then show ?thesis by (intro exI[of _ 0]) simp
  next
    case False
    with Cons.prems have "DT_RESOURCE \<in> set ts" by simp
    from Cons.IH[OF this, of "Suc i"] obtain k where k: "first_resource_from ts (Suc i) = int (Suc i + k)" "k < length ts" "ts ! k = DT_RESOURCE" "\<forall>j<k. ts ! j \<noteq> DT_RESOURCE" by blast
    show ?thesis using False k by (intro exI[of _ "Suc k"]) (auto simp: nth_Cons split: nat.splits)
  qed
qed

lemma has_non_resource_iff: "has_non_resource ts \<longleftrightarrow> (\<exists>t\<in>set ts. t \<noteq> DT_RESOURCE)"
  by (induction ts) auto

lemma needs_rearrange_scattered:
  assumes "i0 < j0" "j0 < length ts" "ts ! i0 = DT_RESOURCE" "ts ! j0 \<noteq> DT_RESOURCE"
  shows "InputTypesNeedsRearrange ts rc0 im0 =
           (True, int (length (filter (\<lambda>t. t = DT_RESOURCE) ts)),
            assign_indices ts 0 (int (length ts) - int (length (filter (\<lambda>t. t = DT_RESOURCE) ts))))"
proof -
  have mem: "DT_RESOURCE \<in> set ts" using assms by (metis nth_mem order.strict_trans)
  from first_resource_from_prop[OF mem, of 0] obtain k where
    k: "first_resource_from ts 0 = int k" "k < length ts" "ts ! k = DT_RESOURCE" "\<forall>j<k. ts ! j \<noteq> DT_RESOURCE"
    by auto
  have "k \<le> i0" using k(4) assms(3) by (meson not_le)
  then have "Suc k \<le> j0" using assms(1) by simp
  then have "drop (Suc k) ts ! (j0 - Suc k) = ts ! j0" "j0 - Suc k < length (drop (Suc k) ts)"
    using assms(2) by auto
  then have "ts ! j0 \<in> set (drop (Suc k) ts)"
    by (metis nth_mem)
  then have "has_non_resource (drop (Suc k) ts)"
    using assms(4) by (auto simp: has_non_resource_iff)
  moreover have "nat (int k + 1) = Suc k" by simp
  ultimately show ?thesis
    using k(1) by (simp add: InputTypesNeedsRearrange_def Let_def count_resources_eq)
qed

lemma filter_take_mono:
  "i \<le> j \<Longrightarrow> length (filter P (take i ts)) \<le> length (filter P (take j ts))"
proof -
  assume "i \<le> j"
  then have "take j ts = take i ts @ take (j - i) (drop i ts)"
    by (metis le_add_diff_inverse take_add)
  then show ?thesis by simp
qed

lemma filter_take_strict:
  assumes "i < j" "j \<le> length ts" "P (ts ! i)"
  shows "length (filter P (take i ts)) < length (filter P (take j ts))"
proof -
  have "take (Suc i) ts = take i ts @ [ts ! i]" using assms by (simp add: take_Suc_conv_app_nth)
  then have "length (filter P (take (Suc i) ts)) = Suc (length (filter P (take i ts)))"
    using assms(3) by simp
  moreover have "length (filter P (take (Suc i) ts)) \<le> length (filter P (take j ts))"
    using assms(1) by (intro filter_take_mono) simp
  ultimately show ?thesis by simp
qed

lemma filter_take_lt_total:
  assumes "i < length ts" "P (ts ! i)"
  shows "length (filter P (take i ts)) < length (filter P ts)"
  using filter_take_strict[of i "length ts" ts P] assms by simp

lemma filter_split_count:
  "length (filter (\<lambda>t. t \<noteq> DT_RESOURCE) ts) + length (filter (\<lambda>t. t = DT_RESOURCE) ts) = length ts"
  using sum_length_filter_compl[of "\<lambda>t. t \<noteq> DT_RESOURCE" ts] by simp


text \<open>
  Claim C1. When a resource entry is followed somewhere by a non-resource entry,
  \<open>InputTypesNeedsRearrange\<close> asks for a rewrite, counts the resource entries, and returns
  an index mapping that is a bijection from the positions \<open>[0, n)\<close> onto \<open>[0, n)\<close>,
  keeps the relative order inside the non-resource class and inside the resource class,
  and sends every resource position to an index \<open>\<ge> n - resource_input_count\<close>. For
  \<open>[float, resource, float, resource]\<close> the mapping is \<open>[0, 2, 1, 3]\<close>.
\<close>

theorem C1_index_mapping_bijective_stable:
  assumes "i0 < j0" "j0 < length in_types" "in_types ! i0 = DT_RESOURCE" "in_types ! j0 \<noteq> DT_RESOURCE"
  shows "case InputTypesNeedsRearrange in_types rc0 im0 of (need_rewrite, resource_input_count, index_mapping) \<Rightarrow>
           need_rewrite \<and>
           resource_input_count = int (length (filter (\<lambda>t. t = DT_RESOURCE) in_types)) \<and>
           length index_mapping = length in_types \<and>
           bij_betw (\<lambda>i. index_mapping ! i) {..<length in_types} {0..<int (length in_types)} \<and>
           (\<forall>i j. i < j \<and> j < length in_types \<and> (in_types ! i = DT_RESOURCE \<longleftrightarrow> in_types ! j = DT_RESOURCE)
                  \<longrightarrow> index_mapping ! i < index_mapping ! j) \<and>
           (\<forall>i<length in_types. in_types ! i = DT_RESOURCE
                  \<longrightarrow> int (length in_types) - resource_input_count \<le> index_mapping ! i) \<and>
           InputTypesNeedsRearrange [DT_FLOAT, DT_RESOURCE, DT_FLOAT, DT_RESOURCE] rc0 im0
             = (True, 2, [0, 2, 1, 3])"
proof -
  have scenario: "InputTypesNeedsRearrange [DT_FLOAT, DT_RESOURCE, DT_FLOAT, DT_RESOURCE] rc0 im0
             = (True, 2, [0, 2, 1, 3])"
    by (simp add: InputTypesNeedsRearrange_def)
  let ?n = "length in_types"
  let ?rc = "length (filter (\<lambda>t. t = DT_RESOURCE) in_types)"
  let ?nn = "length (filter (\<lambda>t. t \<noteq> DT_RESOURCE) in_types)"
  let ?im = "assign_indices in_types 0 (int ?n - int ?rc)"
  have eq: "InputTypesNeedsRearrange in_types rc0 im0 = (True, int ?rc, ?im)"
    by (rule needs_rearrange_scattered[OF assms])
  have nn: "int ?n - int ?rc = int ?nn" using filter_split_count[of in_types] by linarith
  have nonres: "?im ! i = int (length (filter (\<lambda>t. t \<noteq> DT_RESOURCE) (take i in_types)))"
    if "i < ?n" "in_types ! i \<noteq> DT_RESOURCE" for i
    using that by (simp add: assign_nth)
  have res: "?im ! i = int ?nn + int (length (filter (\<lambda>t. t = DT_RESOURCE) (take i in_types)))"
    if "i < ?n" "in_types ! i = DT_RESOURCE" for i
    using that nn by (simp add: assign_nth)
  have range: "0 \<le> ?im ! i \<and> ?im ! i < int ?n" if "i < ?n" for i
  proof (cases "in_types ! i = DT_RESOURCE")
    case True
    have "length (filter (\<lambda>t. t = DT_RESOURCE) (take i in_types)) < ?rc"
      using that True by (intro filter_take_lt_total) auto
    then show ?thesis using res[OF that True] filter_split_count[of in_types] by linarith
  next
    case False
    have "length (filter (\<lambda>t. t \<noteq> DT_RESOURCE) (take i in_types)) < ?nn"
      using that False by (intro filter_take_lt_total) auto
    then show ?thesis using nonres[OF that False] filter_split_count[of in_types] by linarith
  qed
  have stable: "?im ! i < ?im ! j"
    if "i < j" "j < ?n" "in_types ! i = DT_RESOURCE \<longleftrightarrow> in_types ! j = DT_RESOURCE" for i j
  proof (cases "in_types ! i = DT_RESOURCE")
    case True
    then have "length (filter (\<lambda>t. t = DT_RESOURCE) (take i in_types))
             < length (filter (\<lambda>t. t = DT_RESOURCE) (take j in_types))"
      using that by (intro filter_take_strict) auto
    then show ?thesis using res[of i] res[of j] that True by simp
  next
    case False
    then have "length (filter (\<lambda>t. t \<noteq> DT_RESOURCE) (take i in_types))
             < length (filter (\<lambda>t. t \<noteq> DT_RESOURCE) (take j in_types))"
      using that by (intro filter_take_strict) auto
    then show ?thesis using nonres[of i] nonres[of j] that False by simp
  qed
  have sep: "?im ! i < ?im ! j"
    if "i < ?n" "j < ?n" "in_types ! i \<noteq> DT_RESOURCE" "in_types ! j = DT_RESOURCE" for i j
  proof -
    have "length (filter (\<lambda>t. t \<noteq> DT_RESOURCE) (take i in_types)) < ?nn"
      using that by (intro filter_take_lt_total) auto
    then show ?thesis using nonres[of i] res[of j] that by simp
  qed
  have inj: "inj_on (\<lambda>i. ?im ! i) {..<?n}"
  proof (rule inj_onI)
    fix i j assume ij: "i \<in> {..<?n}" "j \<in> {..<?n}" "?im ! i = ?im ! j"
    show "i = j"
    proof (rule ccontr)
      assume ne: "i \<noteq> j"
      consider "in_types ! i = DT_RESOURCE \<longleftrightarrow> in_types ! j = DT_RESOURCE"
        | "in_types ! i \<noteq> DT_RESOURCE" "in_types ! j = DT_RESOURCE"
        | "in_types ! j \<noteq> DT_RESOURCE" "in_types ! i = DT_RESOURCE" by blast
      then show False
      proof cases
        case 1
        then show False using stable[of i j] stable[of j i] ij ne
          by (cases "i < j") auto
      next
        case 2 then show False using sep[of i j] ij by simp
      next
        case 3 then show False using sep[of j i] ij by simp
      qed
    qed
  qed
  have sub: "(\<lambda>i. ?im ! i) ` {..<?n} \<subseteq> {0..<int ?n}" using range by auto
  have "card ((\<lambda>i. ?im ! i) ` {..<?n}) = ?n" using inj by (simp add: card_image)
  then have "(\<lambda>i. ?im ! i) ` {..<?n} = {0..<int ?n}"
    using sub by (intro card_subset_eq) auto
  then have bij: "bij_betw (\<lambda>i. ?im ! i) {..<?n} {0..<int ?n}"
    using inj by (simp add: bij_betw_def)
  have tail: "int ?n - int ?rc \<le> ?im ! i" if "i < ?n" "in_types ! i = DT_RESOURCE" for i
    using res[OF that] nn by simp
  show ?thesis
    unfolding eq using bij stable tail scenario by simp
qed


theorem C1_index_mapping_witness:
  "(case InputTypesNeedsRearrange [DT_FLOAT, DT_RESOURCE, DT_FLOAT, DT_RESOURCE] 0 [] of
      (need_rewrite, resource_input_count, index_mapping) \<Rightarrow>
        need_rewrite \<and> resource_input_count = 2 \<and> index_mapping = [0, 2, 1, 3] \<and>
        bij_betw (\<lambda>i. index_mapping ! i) {..<4} {0..<4})"
proof -
  let ?ts = "[DT_FLOAT, DT_RESOURCE, DT_FLOAT, DT_RESOURCE]"
  have e: "InputTypesNeedsRearrange ?ts 0 [] = (True, 2, [0, 2, 1, 3])"
    by (simp add: InputTypesNeedsRearrange_def)
  have len: "length ?ts = 4" by simp
  have "(1::nat) < 2" "2 < length ?ts" "?ts ! 1 = DT_RESOURCE" "?ts ! 2 \<noteq> DT_RESOURCE"
    by simp_all
  from C1_index_mapping_bijective_stable [OF this, of 0 "[]"]
  have "bij_betw (\<lambda>i. [0, 2, 1, 3::int] ! i) {..<length ?ts} {0..<int (length ?ts)}"
    unfolding e prod.case by blast
  then have "bij_betw (\<lambda>i. [0, 2, 1, 3::int] ! i) {..<4} {0..<4}"
    unfolding len by simp
  then show ?thesis unfolding e by simp
qed

section \<open>Control edges under the edge-reordering primitives\<close>

lemma filter_remove1_other: "\<not> P e \<Longrightarrow> filter P (remove1 e xs) = filter P xs"
  by (induction xs) auto

lemma control_edges_RemoveEdge:
  "\<not> IsControlEdge e \<Longrightarrow> control_edges (RemoveEdge g e) = control_edges g"
  by (simp add: control_edges_def RemoveEdge_def filter_remove1_other)

lemma control_edges_AddEdge:
  "x \<noteq> kControlSlot \<Longrightarrow> control_edges (AddEdge g s x d y) = control_edges g"
  by (simp add: control_edges_def AddEdge_def IsControlEdge_def)

lemma edges_RemoveEdge_subset: "set (edges (RemoveEdge g e)) \<subseteq> set (edges g)"
  using set_remove1_subset[of e "edges g"] by (simp add: RemoveEdge_def)

lemma edges_AddEdge:
  "set (edges (AddEdge g s x d y)) = insert \<lparr> src = s, src_output = x, dst = d, dst_input = y \<rparr> (set (edges g))"
  by (simp add: AddEdge_def)

lemma ReorderInputEdges_loop_control:
  "\<forall>e\<in>set es. \<not> IsControlEdge e \<Longrightarrow>
   control_edges (graph_left (ReorderInputEdges_loop g n index_mapping es)) = control_edges g"
proof (induction es arbitrary: g)
  case Nil
  show ?case by (simp add: graph_left_def)
next
  case (Cons e es)
  show ?case
  proof (cases "vector_at index_mapping (dst_input e)")
    case (Inl err)
    then show ?thesis by (simp add: graph_left_def)
  next
    case (Inr m)
    have ne: "\<not> IsControlEdge e" using Cons.prems by simp
    then have "src_output e \<noteq> kControlSlot" by (simp add: IsControlEdge_def)
    then have "control_edges (AddEdge (RemoveEdge g e) (src e) (src_output e) n m) = control_edges g"
      using ne by (simp add: control_edges_AddEdge control_edges_RemoveEdge)
    moreover have "\<forall>e\<in>set es. \<not> IsControlEdge e" using Cons.prems by simp
    ultimately show ?thesis using Inr Cons.IH by simp
  qed
qed

lemma find_Some_set: "find P xs = Some x \<Longrightarrow> x \<in> set xs \<and> P x"
  by (induction xs) (auto split: if_splits)

lemma input_edge_props:
  "input_edge g n idx = Inr ie \<Longrightarrow> ie \<in> set (edges g) \<and> dst ie = n \<and> dst_input ie = idx \<and> 0 \<le> idx"
  by (auto simp: input_edge_def in_edges_def split: if_splits option.splits dest!: find_Some_set)

lemma ReorderOutputEdges_loop_control:
  assumes "\<forall>e\<in>set es. \<not> IsControlEdge e"
    and "\<forall>e\<in>set (edges g). slots_consistent e"
    and "\<forall>e\<in>set es. slots_consistent e"
    and "\<forall>m\<in>set index_mapping. 0 \<le> m"
  shows "control_edges (graph_left (ReorderOutputEdges_loop g n input_count resource_input_count index_mapping es))
           = control_edges g"
  using assms
proof (induction es arbitrary: g)
  case Nil
  show ?case by (simp add: graph_left_def)
next
  case (Cons e es)
  have ne: "\<not> IsControlEdge e" and ce: "slots_consistent e" using Cons.prems by simp_all
  then have di: "dst_input e \<noteq> kControlSlot" by (simp add: slots_consistent_def IsControlEdge_def)
  have rest: "\<forall>e\<in>set es. \<not> IsControlEdge e" "\<forall>e\<in>set es. slots_consistent e"
    using Cons.prems by simp_all
  let ?g1 = "RemoveEdge g e"
  have g1c: "control_edges ?g1 = control_edges g" using ne by (rule control_edges_RemoveEdge)
  have g1w: "\<forall>e\<in>set (edges ?g1). slots_consistent e"
    using Cons.prems(2) edges_RemoveEdge_subset[of g e] by blast
  show ?case
  proof (cases "vector_at index_mapping (src_output e)")
    case (Inl err)
    then show ?thesis by (simp add: graph_left_def)
  next
    case (Inr m)
    then have m0: "0 \<le> m" using Cons.prems(4)
      by (auto simp: vector_at_def split: if_splits)
    then have mk: "m \<noteq> kControlSlot" by (simp add: kControlSlot_def)
    show ?thesis
    proof (cases "m < input_count - resource_input_count")
      case True
      let ?g2 = "AddEdge ?g1 n m (dst e) (dst_input e)"
      have "control_edges ?g2 = control_edges g" using mk g1c by (simp add: control_edges_AddEdge)
      moreover have "\<forall>e\<in>set (edges ?g2). slots_consistent e"
        using g1w mk di by (auto simp: edges_AddEdge slots_consistent_def)
      ultimately show ?thesis using Inr True Cons.IH[of ?g2] rest Cons.prems(4) by simp
    next
      case False
      show ?thesis
      proof (cases "input_edge ?g1 n m")
        case (Inl err)
        then show ?thesis using Inr False g1c by (simp add: graph_left_def)
      next
        case (Inr ie)
        from input_edge_props[OF this] have "ie \<in> set (edges ?g1)" "dst_input ie = m" by simp_all
        then have so: "src_output ie \<noteq> kControlSlot"
          using g1w mk by (auto simp: slots_consistent_def)
        let ?g2 = "AddEdge ?g1 (src ie) (src_output ie) (dst e) (dst_input e)"
        have "control_edges ?g2 = control_edges g" using so g1c by (simp add: control_edges_AddEdge)
        moreover have "\<forall>e\<in>set (edges ?g2). slots_consistent e"
          using g1w so di by (auto simp: edges_AddEdge slots_consistent_def)
        ultimately show ?thesis
          using \<open>vector_at index_mapping (src_output e) = Inr m\<close> False Inr Cons.IH[of ?g2] rest Cons.prems(4)
          by simp
      qed
    qed
  qed
qed

lemma RearrangeOutputEdges_loop_control:
  assumes "\<forall>e\<in>set es. \<not> IsControlEdge e"
    and "\<forall>e\<in>set (edges g). slots_consistent e"
    and "\<forall>e\<in>set es. slots_consistent e"
    and "\<forall>p\<in>set retval_index_mapping. 0 \<le> snd p"
  shows "control_edges (graph_left (RearrangeOutputEdges_loop n g retval_index_mapping resource_retval_to_arg offset es))
           = control_edges g"
  using assms
proof (induction es arbitrary: g)
  case Nil
  show ?case by (simp add: graph_left_def)
next
  case (Cons e es)
  have ne: "\<not> IsControlEdge e" and ce: "slots_consistent e" using Cons.prems by simp_all
  then have di: "dst_input e \<noteq> kControlSlot" by (simp add: slots_consistent_def IsControlEdge_def)
  have rest: "\<forall>e\<in>set es. \<not> IsControlEdge e" "\<forall>e\<in>set es. slots_consistent e"
    using Cons.prems by simp_all
  let ?g1 = "RemoveEdge g e"
  have g1c: "control_edges ?g1 = control_edges g" using ne by (rule control_edges_RemoveEdge)
  have g1w: "\<forall>e\<in>set (edges ?g1). slots_consistent e"
    using Cons.prems(2) edges_RemoveEdge_subset[of g e] by blast
  show ?case
  proof (cases "map_of retval_index_mapping (src_output e)")
    case (Some m)
    then have "(src_output e, m) \<in> set retval_index_mapping" by (rule map_of_SomeD)
    then have "0 \<le> m" using Cons.prems(4) by force
    then have mk: "m \<noteq> kControlSlot" by (simp add: kControlSlot_def)
    let ?g2 = "AddEdge ?g1 n m (dst e) (dst_input e)"
    have "control_edges ?g2 = control_edges g" using mk g1c by (simp add: control_edges_AddEdge)
    moreover have "\<forall>e\<in>set (edges ?g2). slots_consistent e"
      using g1w mk di by (auto simp: edges_AddEdge slots_consistent_def)
    ultimately show ?thesis using Some Cons.IH[of ?g2] rest Cons.prems(4) by simp
  next
    case None
    show ?thesis
    proof (cases "map_of resource_retval_to_arg (src_output e)")
      case None
      then show ?thesis using \<open>map_of retval_index_mapping (src_output e) = None\<close>
        by (simp add: graph_left_def)
    next
      case (Some a)
      show ?thesis
      proof (cases "input_edge ?g1 n (a + offset)")
        case (Inl err)
        then show ?thesis using \<open>map_of retval_index_mapping (src_output e) = None\<close> Some g1c
          by (simp add: graph_left_def)
      next
        case (Inr ie)
        from input_edge_props[OF this] have "ie \<in> set (edges ?g1)" "dst_input ie = a + offset" "0 \<le> a + offset"
          by simp_all
        then have so: "src_output ie \<noteq> kControlSlot"
          using g1w by (auto simp: slots_consistent_def kControlSlot_def)
        let ?g2 = "AddEdge ?g1 (src ie) (src_output ie) (dst e) (dst_input e)"
        have "control_edges ?g2 = control_edges g" using so g1c by (simp add: control_edges_AddEdge)
        moreover have "\<forall>e\<in>set (edges ?g2). slots_consistent e"
          using g1w so di by (auto simp: edges_AddEdge slots_consistent_def)
        ultimately show ?thesis
          using \<open>map_of retval_index_mapping (src_output e) = None\<close> Some Inr Cons.IH[of ?g2] rest Cons.prems(4)
          by simp
      qed
    qed
  qed
qed


lemma control_in_out:
  assumes "control_edges g' = control_edges g"
  shows "filter IsControlEdge (in_edges g' n) = filter IsControlEdge (in_edges g n)"
    and "filter IsControlEdge (out_edges g' n) = filter IsControlEdge (out_edges g n)"
proof -
  have "filter IsControlEdge (in_edges h n) = filter (\<lambda>e. dst e = n) (control_edges h)" for h
    by (simp add: in_edges_def control_edges_def conj_commute)
  then show "filter IsControlEdge (in_edges g' n) = filter IsControlEdge (in_edges g n)"
    using assms by simp
  have "filter IsControlEdge (out_edges h n) = filter (\<lambda>e. src e = n) (control_edges h)" for h
    by (simp add: out_edges_def control_edges_def conj_commute)
  then show "filter IsControlEdge (out_edges g' n) = filter IsControlEdge (out_edges g n)"
    using assms by simp
qed

lemma control_keptI: "control_edges g' = control_edges g \<Longrightarrow> control_kept g n g'"
  unfolding control_kept_def using control_in_out[of g' g n] by simp

text \<open>
  Claim C10. \<open>ReorderInputEdges\<close>, \<open>ReorderOutputEdges\<close> and \<open>RearrangeOutputEdges\<close> skip
  control edges: on a graph whose edges are control edges at both ends or at neither, and
  for mappings without negative entries (as the pass computes them), the control edges of
  the graph, and so those into and out of the node, are the same after the call as
  before, whether the call succeeds or fails part-way.
\<close>

theorem C10_control_edges_unchanged:
  assumes "\<forall>e\<in>set (edges g). slots_consistent e"
    and "\<forall>m\<in>set index_mapping. 0 \<le> m"
    and "\<forall>p\<in>set retval_index_mapping. 0 \<le> snd p"
  shows "control_kept g n (graph_left (ReorderInputEdges g n index_mapping)) \<and>
         control_kept g n (graph_left (ReorderOutputEdges g n input_count resource_input_count index_mapping)) \<and>
         control_kept g n (graph_left (RearrangeOutputEdges n g retval_index_mapping resource_retval_to_arg))"
proof -
  let ?ins = "filter (\<lambda>e. \<not> IsControlEdge e) (in_edges g n)"
  let ?outs = "filter (\<lambda>e. \<not> IsControlEdge e) (out_edges g n)"
  have nc: "\<forall>e\<in>set ?ins. \<not> IsControlEdge e" "\<forall>e\<in>set ?outs. \<not> IsControlEdge e" by simp_all
  have sc: "\<forall>e\<in>set ?outs. slots_consistent e" using assms(1) by (simp add: out_edges_def)
  have 1: "control_edges (graph_left (ReorderInputEdges g n index_mapping)) = control_edges g"
    unfolding ReorderInputEdges_def by (rule ReorderInputEdges_loop_control [OF nc(1)])
  have 2: "control_edges (graph_left (ReorderOutputEdges g n input_count resource_input_count index_mapping))
             = control_edges g"
    unfolding ReorderOutputEdges_def
    by (rule ReorderOutputEdges_loop_control [OF nc(2) assms(1) sc assms(2)])
  have 3: "control_edges (graph_left (RearrangeOutputEdges n g retval_index_mapping resource_retval_to_arg))
             = control_edges g"
    unfolding RearrangeOutputEdges_def
    by (rule RearrangeOutputEdges_loop_control [OF nc(2) assms(1) sc assms(3)])
  show ?thesis using 1 2 3 by (simp add: control_keptI)
qed

theorem C10_control_edges_witness:
  "control_edges (graph_left (ReorderInputEdges ctl_graph 2 [1, 0])) = [mk_edge 0 (-1) 2 (-1), mk_edge 2 (-1) 3 (-1)] \<and>
   edges (graph_left (ReorderInputEdges ctl_graph 2 [1, 0]))
     = [mk_edge 0 (-1) 2 (-1), mk_edge 2 1 3 0, mk_edge 2 0 4 0, mk_edge 2 (-1) 3 (-1), mk_edge 0 0 2 1, mk_edge 1 0 2 0] \<and>
   control_kept ctl_graph 2 (graph_left (ReorderOutputEdges ctl_graph 2 2 1 [1, 0])) \<and>
   control_kept ctl_graph 2 (graph_left (RearrangeOutputEdges 2 ctl_graph [(1, 0)] [(0, 1)]))"
proof -
  have a: "\<forall>e\<in>set (edges ctl_graph). slots_consistent e"
    by (simp add: ctl_graph_def mk_edge_def slots_consistent_def kControlSlot_def)
  have b: "\<forall>m\<in>set [1, 0::int]. 0 \<le> m" by simp
  have c: "\<forall>p\<in>set [(1::int, 0::int)]. 0 \<le> snd p" by simp
  have ce: "control_edges ctl_graph = [mk_edge 0 (-1) 2 (-1), mk_edge 2 (-1) 3 (-1)]"
    by (simp add: control_edges_def ctl_graph_def mk_edge_def IsControlEdge_def kControlSlot_def)
  have ev: "edges (graph_left (ReorderInputEdges ctl_graph 2 [1, 0]))
     = [mk_edge 0 (-1) 2 (-1), mk_edge 2 1 3 0, mk_edge 2 0 4 0, mk_edge 2 (-1) 3 (-1), mk_edge 0 0 2 1, mk_edge 1 0 2 0]"
    by (simp add: ReorderInputEdges_def in_edges_def ctl_graph_def mk_edge_def IsControlEdge_def
          kControlSlot_def vector_at_def AddEdge_def RemoveEdge_def graph_left_def)
  from C10_control_edges_unchanged [OF a b c, of 2 2 1 "[(0, 1)]"]
  show ?thesis using ce ev by (simp add: control_kept_def)
qed

section \<open>Default attributes from a node offset on\<close>

lemma AddDefaults_loop_op [simp]: "op (AddDefaultsToNodeDef_loop as nd) = op nd"
  by (induction as arbitrary: nd) (auto split: option.splits)

lemma AddDefaults_loop_keeps:
  "map_of (attr nd) k \<noteq> None \<Longrightarrow> map_of (attr (AddDefaultsToNodeDef_loop as nd)) k \<noteq> None"
proof (induction as arbitrary: nd)
  case Nil
  then show ?case by simp
next
  case (Cons a as)
  show ?case
  proof (cases "default_value a")
    case None
    then show ?thesis using Cons by simp
  next
    case (Some v)
    show ?thesis
    proof (cases "map_of (attr nd) (attr_name a) = None")
      case True
      have "map_of (attr (nd\<lparr>attr := attr nd @ [(attr_name a, v)]\<rparr>)) k \<noteq> None"
        using Cons.prems by (auto simp: map_add_def split: option.splits)
      from Cons.IH[OF this] show ?thesis using Some True by simp
    next
      case False
      from Cons.IH[OF Cons.prems] show ?thesis using Some False by auto
    qed
  qed
qed

lemma AddDefaults_loop_fills:
  "a \<in> set as \<Longrightarrow> default_value a \<noteq> None \<Longrightarrow>
   map_of (attr (AddDefaultsToNodeDef_loop as nd)) (attr_name a) \<noteq> None"
proof (induction as arbitrary: nd)
  case Nil
  then show ?case by simp
next
  case (Cons b bs)
  let ?nd' = "(case default_value b of
          Some v \<Rightarrow>
            if map_of (attr nd) (attr_name b) = None
            then nd\<lparr> attr := attr nd @ [(attr_name b, v)] \<rparr>
            else nd
        | None \<Rightarrow> nd)"
  show ?case
  proof (cases "a = b")
    case True
    then have "map_of (attr ?nd') (attr_name a) \<noteq> None"
      using Cons.prems(2) by (auto simp: map_add_def split: option.splits)
    then show ?thesis using AddDefaults_loop_keeps[of ?nd' "attr_name a" bs] by simp
  next
    case False
    then have "a \<in> set bs" using Cons.prems(1) by simp
    from Cons.IH[OF this Cons.prems(2), of ?nd'] show ?thesis by simp
  qed
qed

lemma AddDefaults_loop_fixed:
  "\<forall>a\<in>set as. default_value a \<noteq> None \<longrightarrow> map_of (attr nd) (attr_name a) \<noteq> None \<Longrightarrow>
   AddDefaultsToNodeDef_loop as nd = nd"
  by (induction as arbitrary: nd) (auto split: option.splits)

lemma AddDefaultsToNodeDef_idem:
  "AddDefaultsToNodeDef op_def (AddDefaultsToNodeDef op_def nd) = AddDefaultsToNodeDef op_def nd"
  unfolding AddDefaultsToNodeDef_def
  by (rule AddDefaults_loop_fixed) (simp add: AddDefaults_loop_fills)

lemma AddDefaultsToNodeDef_op [simp]: "op (AddDefaultsToNodeDef op_def nd) = op nd"
  by (simp add: AddDefaultsToNodeDef_def)

lemma AddDefaultAttrs_loop_length:
  "length (snd (AddDefaultAttrs_loop LookUp gd i)) = length gd"
proof (induction LookUp gd i rule: AddDefaultAttrs_loop.induct)
  case (1 LookUp gd i)
  show ?case
  proof (cases "i < length gd")
    case False
    then show ?thesis by (simp add: AddDefaultAttrs_loop.simps)
  next
    case True
    show ?thesis
    proof (cases "LookUp (op (gd ! i))")
      case (Inl err)
      then show ?thesis using True by (simp add: AddDefaultAttrs_loop.simps[of LookUp gd i])
    next
      case (Inr op_def)
      from "1.IH"[OF True Inr] show ?thesis
        using True Inr by (simp add: AddDefaultAttrs_loop.simps[of LookUp gd i])
    qed
  qed
qed

lemma AddDefaultAttrs_loop_frame:
  "j < i \<Longrightarrow> snd (AddDefaultAttrs_loop LookUp gd i) ! j = gd ! j"
proof (induction LookUp gd i rule: AddDefaultAttrs_loop.induct)
  case (1 LookUp gd i)
  show ?case
  proof (cases "i < length gd")
    case False
    then show ?thesis by (simp add: AddDefaultAttrs_loop.simps)
  next
    case True
    show ?thesis
    proof (cases "LookUp (op (gd ! i))")
      case (Inl err)
      then show ?thesis using True by (simp add: AddDefaultAttrs_loop.simps[of LookUp gd i])
    next
      case (Inr op_def)
      have "j < Suc i" using "1.prems" by simp
      from "1.IH"[OF True Inr this] show ?thesis
        using True Inr "1.prems" by (simp add: AddDefaultAttrs_loop.simps[of LookUp gd i])
    qed
  qed
qed

lemma AddDefaultAttrs_loop_idem:
  "AddDefaultAttrs_loop LookUp (snd (AddDefaultAttrs_loop LookUp gd i)) i = AddDefaultAttrs_loop LookUp gd i"
proof (induction LookUp gd i rule: AddDefaultAttrs_loop.induct)
  case (1 LookUp gd i)
  show ?case
  proof (cases "i < length gd")
    case False
    then show ?thesis by (simp add: AddDefaultAttrs_loop.simps)
  next
    case True
    show ?thesis
    proof (cases "LookUp (op (gd ! i))")
      case (Inl err)
      then show ?thesis using True by (simp add: AddDefaultAttrs_loop.simps[of LookUp gd i])
    next
      case (Inr op_def)
      let ?gd' = "gd[i := AddDefaultsToNodeDef op_def (gd ! i)]"
      let ?R = "snd (AddDefaultAttrs_loop LookUp ?gd' (Suc i))"
      have step: "AddDefaultAttrs_loop LookUp gd i = AddDefaultAttrs_loop LookUp ?gd' (Suc i)"
        using True Inr by (simp add: AddDefaultAttrs_loop.simps[of LookUp gd i])
      have len: "length ?R = length gd" by (simp add: AddDefaultAttrs_loop_length)
      have Ri: "?R ! i = AddDefaultsToNodeDef op_def (gd ! i)"
        using AddDefaultAttrs_loop_frame[of i "Suc i" LookUp ?gd'] True by simp
      have lk: "LookUp (op (?R ! i)) = Inr op_def" using Ri Inr by simp
      have "?R[i := AddDefaultsToNodeDef op_def (?R ! i)] = ?R"
        using Ri by (simp add: AddDefaultsToNodeDef_idem list_update_same_conv len True)
      then have "AddDefaultAttrs_loop LookUp ?R i = AddDefaultAttrs_loop LookUp ?R (Suc i)"
        using lk len True by (simp add: AddDefaultAttrs_loop.simps[of LookUp ?R i])
      also have "\<dots> = AddDefaultAttrs_loop LookUp ?gd' (Suc i)"
        by (rule "1.IH"[OF True Inr])
      finally show ?thesis using step by simp
    qed
  qed
qed

text \<open>
  Claim C9. For an offset that is not negative, \<open>AddDefaultAttrsToGraphDef\<close> leaves every
  node at an index below the offset as it is (and the number of nodes too), and a second
  application to the graph it produced gives the same status and the same graph.
\<close>

theorem C9_defaults_from_offset_idempotent:
  assumes "0 \<le> node_offset"
  shows "case AddDefaultAttrsToGraphDef graph_def LookUp node_offset of
           (status, graph_def') \<Rightarrow>
             length graph_def' = length graph_def \<and>
             (\<forall>i. i < length graph_def \<and> int i < node_offset \<longrightarrow> graph_def' ! i = graph_def ! i) \<and>
             AddDefaultAttrsToGraphDef graph_def' LookUp node_offset = (status, graph_def')"
proof (cases "node_offset > int (length graph_def)")
  case True
  then show ?thesis by (simp add: AddDefaultAttrsToGraphDef_def)
next
  case False
  let ?r = "AddDefaultAttrs_loop LookUp graph_def (nat node_offset)"
  have eq: "AddDefaultAttrsToGraphDef graph_def LookUp node_offset = ?r"
    using False assms by (simp add: AddDefaultAttrsToGraphDef_def)
  have len: "length (snd ?r) = length graph_def" by (rule AddDefaultAttrs_loop_length)
  have frame: "snd ?r ! i = graph_def ! i" if "int i < node_offset" for i
    using that by (intro AddDefaultAttrs_loop_frame) linarith
  have "AddDefaultAttrsToGraphDef (snd ?r) LookUp node_offset
          = AddDefaultAttrs_loop LookUp (snd ?r) (nat node_offset)"
    using False assms len by (simp add: AddDefaultAttrsToGraphDef_def)
  also have "\<dots> = ?r" by (rule AddDefaultAttrs_loop_idem)
  finally have idem: "AddDefaultAttrsToGraphDef (snd ?r) LookUp node_offset = ?r" .
  show ?thesis
    unfolding eq using len frame idem by (cases ?r) auto
qed

theorem C9_defaults_witness:
  "AddDefaultAttrsToGraphDef example_graph_def example_registry 1
     = (None, [example_graph_def ! 0,
               \<lparr> node_name = ''new'', op = ''Conv'', input = [''old:0''], device = [],
                 attr = [(''T'', AttrType DT_FLOAT), (''data_format'', AttrString ''NHWC'')] \<rparr>]) \<and>
   AddDefaultAttrsToGraphDef (snd (AddDefaultAttrsToGraphDef example_graph_def example_registry 1))
       example_registry 1
     = AddDefaultAttrsToGraphDef example_graph_def example_registry 1"
proof -
  have e: "AddDefaultAttrsToGraphDef example_graph_def example_registry 1
     = (None, [example_graph_def ! 0,
               \<lparr> node_name = ''new'', op = ''Conv'', input = [''old:0''], device = [],
                 attr = [(''T'', AttrType DT_FLOAT), (''data_format'', AttrString ''NHWC'')] \<rparr>])"
    by (simp add: AddDefaultAttrsToGraphDef_def example_graph_def_def example_registry_def
          AddDefaultAttrs_loop.simps AddDefaultsToNodeDef_def)
  have "(0::int) \<le> 1" by simp
  from C9_defaults_from_offset_idempotent [OF this, of example_graph_def example_registry]
  show ?thesis unfolding e by simp
qed

section \<open>The inputs of a conditional node\<close>

lemma need_rewrite_result:
  assumes "InputTypesNeedsRearrange ts rc0 im0 = (True, rc, im)"
  shows "rc = int (length (filter (\<lambda>t. t = DT_RESOURCE) ts))"
    and "im = assign_indices ts 0 (int (length ts) - rc)"
  using assms
  by (auto simp: InputTypesNeedsRearrange_def Let_def count_resources_eq split: if_splits)

lemma need_rewrite_mapping_range:
  assumes "InputTypesNeedsRearrange ts rc0 im0 = (True, rc, im)"
  shows "length im = length ts" and "\<forall>i<length ts. 0 \<le> im ! i \<and> im ! i < int (length ts)"
proof -
  let ?rc = "length (filter (\<lambda>t. t = DT_RESOURCE) ts)"
  let ?nn = "length (filter (\<lambda>t. t \<noteq> DT_RESOURCE) ts)"
  have rc: "rc = int ?rc" and im: "im = assign_indices ts 0 (int (length ts) - rc)"
    using need_rewrite_result[OF assms] by simp_all
  show "length im = length ts" using im by simp
  have nn: "int (length ts) - rc = int ?nn" using filter_split_count[of ts] rc by linarith
  show "\<forall>i<length ts. 0 \<le> im ! i \<and> im ! i < int (length ts)"
  proof (intro allI impI)
    fix i assume i: "i < length ts"
    show "0 \<le> im ! i \<and> im ! i < int (length ts)"
    proof (cases "ts ! i = DT_RESOURCE")
      case True
      have "length (filter (\<lambda>t. t = DT_RESOURCE) (take i ts)) < ?rc"
        using i True by (intro filter_take_lt_total) auto
      then show ?thesis using i True im nn filter_split_count[of ts] by (simp add: assign_nth)
    next
      case False
      have "length (filter (\<lambda>t. t \<noteq> DT_RESOURCE) (take i ts)) < ?nn"
        using i False by (intro filter_take_lt_total) auto
      then show ?thesis using i False im nn filter_split_count[of ts] by (simp add: assign_nth)
    qed
  qed
qed

lemma ShuffleInput_loop_ok:
  assumes "\<forall>k<length ts. 0 \<le> i + int k \<and> i + int k < int (length im) \<and>
                0 \<le> im ! nat (i + int k) \<and> im ! nat (i + int k) < int (length result)"
  shows "\<exists>r. ShuffleInput_loop ts im i result = Inr r \<and> length r = length result"
  using assms
proof (induction ts arbitrary: i result)
  case Nil
  then show ?case by simp
next
  case (Cons t ts)
  from Cons.prems[rule_format, of 0]
  have h0: "0 \<le> i" "i < int (length im)" "0 \<le> im ! nat i" "im ! nat i < int (length result)"
    by simp_all
  have "\<forall>k<length ts. 0 \<le> (i + 1) + int k \<and> (i + 1) + int k < int (length im) \<and>
          0 \<le> im ! nat ((i + 1) + int k) \<and>
          im ! nat ((i + 1) + int k) < int (length (result[nat (im ! nat i) := t]))"
  proof (intro allI impI)
    fix k assume "k < length ts"
    then have "Suc k < length (t # ts)" by simp
    from Cons.prems[rule_format, OF this]
    show "0 \<le> (i + 1) + int k \<and> (i + 1) + int k < int (length im) \<and>
          0 \<le> im ! nat ((i + 1) + int k) \<and>
          im ! nat ((i + 1) + int k) < int (length (result[nat (im ! nat i) := t]))"
      by (simp add: algebra_simps)
  qed
  from Cons.IH[OF this] show ?case using h0 by (simp add: vector_at_def)
qed

lemma ShuffleInput_need_rewrite_ok:
  assumes "InputTypesNeedsRearrange ts rc0 im0 = (True, rc, im)"
  shows "\<exists>r. ShuffleInputDataTypeAttribute ts im = Inr r \<and> length r = length ts"
proof -
  note r = need_rewrite_mapping_range[OF assms]
  have "\<exists>r. ShuffleInput_loop ts im 0 (replicate (length im) DT_INVALID) = Inr r \<and>
            length r = length (replicate (length im) DT_INVALID)"
    by (rule ShuffleInput_loop_ok) (use r in auto)
  then show ?thesis using r(1) by (simp add: ShuffleInputDataTypeAttribute_def)
qed

lemma remove1_first_match:
  assumes "\<forall>u\<in>set us. \<not> Q u" "Q x"
  shows "remove1 x (us @ x # vs @ zs) = us @ vs @ zs"
proof -
  have "x \<notin> set us" using assms by auto
  then show ?thesis by (simp add: remove1_append)
qed

lemma if_reorder_inputs_loop_edges:
  assumes "filter Q ys = es"
    and "\<forall>e\<in>set es. 1 \<le> dst_input e \<and> dst_input e \<le> int (length im)"
    and "\<forall>e\<in>set es. dst e = n"
  shows "if_reorder_inputs_loop (g\<lparr> edges := ys @ zs \<rparr>) n im es
           = Inr (g\<lparr> edges := filter (\<lambda>e. \<not> Q e) ys @ zs @ map (if_input_target im) es \<rparr>)"
  using assms
proof (induction es arbitrary: ys zs)
  case Nil
  then have "filter (\<lambda>e. \<not> Q e) ys = ys"
    by (metis (mono_tags, lifting) filter_True filter_empty_conv)
  then show ?case by simp
next
  case (Cons e es)
  from Cons.prems(1) obtain us vs where
    ys: "ys = us @ e # vs" and us: "\<forall>u\<in>set us. \<not> Q u" and Qe: "Q e" and es: "es = filter Q vs"
    unfolding filter_eq_Cons_iff by blast
  have rng: "1 \<le> dst_input e" "dst_input e \<le> int (length im)" and de: "dst e = n"
    using Cons.prems by simp_all
  then have at: "vector_at im (dst_input e - 1) = Inr (im ! nat (dst_input e - 1))"
    by (simp add: vector_at_def)
  have rm: "remove1 e (ys @ zs) = (us @ vs) @ zs"
    using remove1_first_match[OF us Qe, of vs zs] ys by simp
  have tgt: "\<lparr>src = src e, src_output = src_output e, dst = n,
              dst_input = im ! nat (dst_input e - 1) + 1\<rparr> = if_input_target im e"
    using de by (simp add: if_input_target_def)
  have step: "AddEdge (RemoveEdge (g\<lparr> edges := ys @ zs \<rparr>) e) (src e) (src_output e) n
                 (im ! nat (dst_input e - 1) + 1)
              = g\<lparr> edges := (us @ vs) @ (zs @ [if_input_target im e]) \<rparr>"
    using rm tgt by (simp add: AddEdge_def RemoveEdge_def)
  have es': "filter Q (us @ vs) = es" using es us by simp
  have nq: "filter (\<lambda>e. \<not> Q e) ys = filter (\<lambda>e. \<not> Q e) (us @ vs)" using ys Qe by simp
  from Cons.IH[OF es', of "zs @ [if_input_target im e]"] Cons.prems(2,3)
  show ?case using at step nq by simp
qed

lemma filter_replace_edge:
  assumes "\<not> P e" "\<not> P \<lparr> src = s, src_output = x, dst = d, dst_input = y \<rparr>"
  shows "filter P (edges (AddEdge (RemoveEdge g e) s x d y)) = filter P (edges g)"
  using assms by (simp add: AddEdge_def RemoveEdge_def filter_remove1_other)

lemma if_reorder_inputs_loop_slot_0:
  assumes "if_reorder_inputs_loop g n im es = Inr g'"
    and "\<forall>m\<in>set im. 0 \<le> m"
    and "\<forall>e\<in>set es. dst_input e \<noteq> 0"
  shows "filter (feeds_slot_0 n) (edges g') = filter (feeds_slot_0 n) (edges g)"
  using assms
proof (induction es arbitrary: g)
  case Nil
  then show ?case by simp
next
  case (Cons e es)
  from Cons.prems(1) obtain m where
    m: "vector_at im (dst_input e - 1) = Inr m"
    and rest: "if_reorder_inputs_loop (AddEdge (RemoveEdge g e) (src e) (src_output e) n (m + 1)) n im es = Inr g'"
    by (auto split: sum.splits)
  from m Cons.prems(2) have "0 \<le> m" by (auto simp: vector_at_def split: if_splits)
  then have "\<not> feeds_slot_0 n \<lparr> src = src e, src_output = src_output e, dst = n, dst_input = m + 1 \<rparr>"
    by (simp add: feeds_slot_0_def)
  moreover have "\<not> feeds_slot_0 n e" using Cons.prems(3) by (simp add: feeds_slot_0_def)
  ultimately have "filter (feeds_slot_0 n) (edges (AddEdge (RemoveEdge g e) (src e) (src_output e) n (m + 1)))
                     = filter (feeds_slot_0 n) (edges g)"
    by (intro filter_replace_edge)
  moreover have "filter (feeds_slot_0 n) (edges g')
                   = filter (feeds_slot_0 n) (edges (AddEdge (RemoveEdge g e) (src e) (src_output e) n (m + 1)))"
    using Cons.IH[OF rest Cons.prems(2)] Cons.prems(3) by simp
  ultimately show ?case by simp
qed

lemma RearrangeOutputEdges_loop_slot_0:
  assumes "RearrangeOutputEdges_loop n g rim rra offset es = Inr g'"
    and "\<forall>e\<in>set es. dst e \<noteq> n"
  shows "filter (feeds_slot_0 n) (edges g') = filter (feeds_slot_0 n) (edges g)"
  using assms
proof (induction es arbitrary: g)
  case Nil
  then show ?case by simp
next
  case (Cons e es)
  have ne: "\<not> feeds_slot_0 n e" using Cons.prems(2) by (simp add: feeds_slot_0_def)
  have nn: "\<not> feeds_slot_0 n \<lparr> src = s, src_output = x, dst = dst e, dst_input = dst_input e \<rparr>" for s x
    using Cons.prems(2) by (simp add: feeds_slot_0_def)
  have tl: "\<forall>e\<in>set es. dst e \<noteq> n" using Cons.prems(2) by simp
  show ?case
  proof (cases "map_of rim (src_output e)")
    case (Some m)
    with Cons.prems(1) have
      "RearrangeOutputEdges_loop n (AddEdge (RemoveEdge g e) n m (dst e) (dst_input e)) rim rra offset es = Inr g'"
      by simp
    from Cons.IH[OF this tl] show ?thesis
      using filter_replace_edge[OF ne nn, of g n m] by simp
  next
    case None
    with Cons.prems(1) obtain a ie where
      "map_of rra (src_output e) = Some a"
      "input_edge (RemoveEdge g e) n (a + offset) = Inr ie"
      "RearrangeOutputEdges_loop n (AddEdge (RemoveEdge g e) (src ie) (src_output ie) (dst e) (dst_input e))
          rim rra offset es = Inr g'"
      by (auto simp: Let_def split: option.splits sum.splits)
    from Cons.IH[OF this(3) tl] show ?thesis
      using filter_replace_edge[OF ne nn, of g "src ie" "src_output ie"] by simp
  qed
qed

lemma edges_update_node [simp]: "edges (update_node g n f) = edges g"
  by (simp add: update_node_def)

lemma save_new_function_edges:
  "save_new_function g n fld an fname fattr body = Inr (g', fld') \<Longrightarrow> edges g' = edges g"
  by (auto simp: save_new_function_def Let_def split: sum.splits)

lemma if_rewrite_branch_edges:
  "if_rewrite_branch an n need has_out im g fld rim rra = Inr (g', fld', rim', rra')
     \<Longrightarrow> edges g' = edges g"
  unfolding if_rewrite_branch_def
  by (auto split: sum.splits option.splits prod.splits if_splits dest: save_new_function_edges)

lemma need_rewrite_nonneg:
  assumes "InputTypesNeedsRearrange ts rc0 im0 = (True, rc, im)"
  shows "\<forall>m\<in>set im. 0 \<le> m"
  using need_rewrite_mapping_range[OF assms] by (auto simp: in_set_conv_nth)

lemma if_rearrange_inputs_slot_0:
  assumes "if_rearrange_inputs g n in_types im = Inr g'" and "\<forall>m\<in>set im. 0 \<le> m"
  shows "filter (feeds_slot_0 n) (edges g') = filter (feeds_slot_0 n) (edges g)"
proof -
  from assms(1) obtain g1 new_types where
    g1: "if_reorder_inputs g n im = Inr g1"
    and g': "g' = update_node g1 n (AddAttr ''Tin'' (AttrTypeList new_types) \<circ> ClearAttr ''Tin'')"
    by (auto simp: if_rearrange_inputs_def split: sum.splits)
  have "filter (feeds_slot_0 n) (edges g1) = filter (feeds_slot_0 n) (edges g)"
    using g1 unfolding if_reorder_inputs_def
    by (rule if_reorder_inputs_loop_slot_0) (use assms(2) in auto)
  then show ?thesis using g' by simp
qed

lemma if_rearrange_outputs_slot_0:
  assumes "if_rearrange_outputs g n out_types rim rra = Inr g'" and "no_self_loop g n"
  shows "filter (feeds_slot_0 n) (edges g') = filter (feeds_slot_0 n) (edges g)"
proof -
  from assms(1) obtain g1 new_types where
    g1: "RearrangeOutputEdges_loop n g rim rra 1 (filter (\<lambda>e. \<not> IsControlEdge e) (out_edges g n)) = Inr g1"
    and g': "g' = update_node g1 n (AddAttr ''Tout'' (AttrTypeList new_types) \<circ> ClearAttr ''Tout'')"
    by (auto simp: if_rearrange_outputs_def split: sum.splits)
  have "\<forall>e\<in>set (filter (\<lambda>e. \<not> IsControlEdge e) (out_edges g n)). dst e \<noteq> n"
    using assms(2) by (auto simp: no_self_loop_def out_edges_def)
  from RearrangeOutputEdges_loop_slot_0[OF g1 this] show ?thesis using g' by simp
qed

lemma MaybeRewriteIfNode_slot_0:
  assumes "MaybeRewriteIfNode g n fld uninit = Inr (g', fld', rw)" and "no_self_loop g n"
  shows "filter (feeds_slot_0 n) (edges g') = filter (feeds_slot_0 n) (edges g)"
proof -
  from assms(1) obtain in_types out_types where
    tin: "GetNodeAttr_type_list (node_at g n) ''Tin'' = Inr in_types"
    and tout: "GetNodeAttr_type_list (node_at g n) ''Tout'' = Inr out_types"
    by (auto simp: MaybeRewriteIfNode_def split: sum.splits prod.splits)
  obtain need rc im where itn: "InputTypesNeedsRearrange in_types uninit [] = (need, rc, im)"
    by (cases "InputTypesNeedsRearrange in_types uninit []") auto
  let ?has = "DT_RESOURCE \<in> set out_types"
  show ?thesis
  proof (cases "\<not> need \<and> \<not> ?has")
    case True
    then show ?thesis using assms(1) tin tout itn by (simp add: MaybeRewriteIfNode_def)
  next
    case False
    from assms(1) tin tout itn False obtain g1 g2 fld1 rim1 rra1 g3 rim2 rra2 where
      s1: "(if need then if_rearrange_inputs g n in_types im else Inr g) = Inr g1"
      and s2: "if_rewrite_branch ''then_branch'' n need ?has im g1 fld [] [] = Inr (g2, fld1, rim1, rra1)"
      and s3: "if_rewrite_branch ''else_branch'' n need ?has im g2 fld1 rim1 rra1 = Inr (g3, fld', rim2, rra2)"
      and s4: "(if ?has then if_rearrange_outputs g3 n out_types rim2 rra2 else Inr g3) = Inr g'"
      by (auto simp: MaybeRewriteIfNode_def Let_def split: sum.splits prod.splits if_splits)
    have e1: "filter (feeds_slot_0 n) (edges g1) = filter (feeds_slot_0 n) (edges g)"
    proof (cases need)
      case True
      with s1 have "if_rearrange_inputs g n in_types im = Inr g1" by simp
      moreover have "\<forall>m\<in>set im. 0 \<le> m"
        by (rule need_rewrite_nonneg[of in_types uninit "[]" rc]) (use itn True in simp)
      ultimately show ?thesis by (rule if_rearrange_inputs_slot_0)
    next
      case False
      with s1 show ?thesis by simp
    qed
    have e3: "edges g3 = edges g1"
      using if_rewrite_branch_edges[OF s2] if_rewrite_branch_edges[OF s3] by simp
    have nsl: "no_self_loop g3 n"
    proof (cases need)
      case False
      with s1 e3 assms(2) show ?thesis by (simp add: no_self_loop_def)
    next
      case True
      with s1 obtain g0 new_types where
        g0: "if_reorder_inputs g n im = Inr g0"
        and g1: "g1 = update_node g0 n (AddAttr ''Tin'' (AttrTypeList new_types) \<circ> ClearAttr ''Tin'')"
        by (auto simp: if_rearrange_inputs_def split: sum.splits)
      have "\<And>es h h'. if_reorder_inputs_loop h n im es = Inr h' \<Longrightarrow> no_self_loop h n \<Longrightarrow>
              \<forall>e\<in>set es. src e \<noteq> n \<Longrightarrow> no_self_loop h' n"
      proof -
        fix es h h'
        show "if_reorder_inputs_loop h n im es = Inr h' \<Longrightarrow> no_self_loop h n \<Longrightarrow>
              \<forall>e\<in>set es. src e \<noteq> n \<Longrightarrow> no_self_loop h' n"
        proof (induction es arbitrary: h)
          case Nil
          then show ?case by simp
        next
          case (Cons e es)
          from Cons.prems(1) obtain m where
            rest: "if_reorder_inputs_loop (AddEdge (RemoveEdge h e) (src e) (src_output e) n (m + 1)) n im es = Inr h'"
            by (auto split: sum.splits)
          have "no_self_loop (AddEdge (RemoveEdge h e) (src e) (src_output e) n (m + 1)) n"
            using Cons.prems(2,3) set_remove1_subset[of e "edges h"]
            by (auto simp: no_self_loop_def AddEdge_def RemoveEdge_def)
          from Cons.IH[OF rest this] Cons.prems(3) show ?case by simp
        qed
      qed
      from this[OF g0[unfolded if_reorder_inputs_def] assms(2)]
      have "no_self_loop g0 n"
        using assms(2) by (auto simp: no_self_loop_def in_edges_def)
      then show ?thesis using e3 g1 by (simp add: no_self_loop_def)
    qed
    have e4: "filter (feeds_slot_0 n) (edges g') = filter (feeds_slot_0 n) (edges g3)"
    proof (cases ?has)
      case True
      with s4 have "if_rearrange_outputs g3 n out_types rim2 rra2 = Inr g'" by simp
      from if_rearrange_outputs_slot_0[OF this nsl] show ?thesis .
    next
      case False
      with s4 show ?thesis by simp
    qed
    show ?thesis using e1 e3 e4 by simp
  qed
qed

lemma if_rearrange_inputs_result:
  assumes need: "InputTypesNeedsRearrange in_types uninit [] = (True, rc, im)"
    and slots: "\<forall>e\<in>set (in_edges g n). \<not> IsControlEdge e \<longrightarrow>
                  0 \<le> dst_input e \<and> dst_input e \<le> int (length in_types)"
  shows "\<exists>g'. if_rearrange_inputs g n in_types im = Inr g' \<and>
            edges g' = filter (\<lambda>e. \<not> if_input_moved n e) (edges g)
                         @ map (if_input_target im) (filter (if_input_moved n) (edges g)) \<and>
            (\<forall>e\<in>set (edges g). if_input_moved n e \<longrightarrow>
                1 \<le> dst_input (if_input_target im e) \<and>
                dst_input (if_input_target im e) \<le> int (length in_types)) \<and>
            filter (\<lambda>e. dst e = n \<and> dst_input e = 0) (edges g')
              = filter (\<lambda>e. dst e = n \<and> dst_input e = 0) (edges g)"
proof -
  note rng = need_rewrite_mapping_range[OF need]
  let ?Q = "if_input_moved n"
  let ?es = "filter ?Q (edges g)"
  have es_slots: "1 \<le> dst_input e \<and> dst_input e \<le> int (length im)" and es_dst: "dst e = n"
    if "e \<in> set ?es" for e
  proof -
    from that have "e \<in> set (in_edges g n)" "\<not> IsControlEdge e" "dst_input e \<noteq> 0"
      by (auto simp: if_input_moved_def in_edges_def)
    with slots rng(1) show "1 \<le> dst_input e \<and> dst_input e \<le> int (length im)" by force
    from that show "dst e = n" by (simp add: if_input_moved_def)
  qed
  have target: "1 \<le> dst_input (if_input_target im e) \<and>
                dst_input (if_input_target im e) \<le> int (length in_types)"
    if "e \<in> set ?es" for e
  proof -
    from es_slots[OF that] rng(1) have "nat (dst_input e - 1) < length in_types" by linarith
    with rng(2) have "0 \<le> im ! nat (dst_input e - 1) \<and> im ! nat (dst_input e - 1) < int (length in_types)"
      by blast
    then show ?thesis by (simp add: if_input_target_def)
  qed
  have wl: "filter (\<lambda>e. \<not> (IsControlEdge e \<or> dst_input e = 0)) (in_edges g n) = ?es"
    unfolding in_edges_def filter_filter if_input_moved_def
    by (rule filter_cong) auto
  have "if_reorder_inputs_loop (g\<lparr> edges := edges g @ [] \<rparr>) n im ?es
          = Inr (g\<lparr> edges := filter (\<lambda>e. \<not> ?Q e) (edges g) @ [] @ map (if_input_target im) ?es \<rparr>)"
    by (rule if_reorder_inputs_loop_edges) (use es_slots es_dst in auto)
  then have reorder: "if_reorder_inputs g n im
          = Inr (g\<lparr> edges := filter (\<lambda>e. \<not> ?Q e) (edges g) @ map (if_input_target im) ?es \<rparr>)"
    unfolding if_reorder_inputs_def wl by simp
  obtain new_types where sh: "ShuffleInputDataTypeAttribute in_types im = Inr new_types"
    using ShuffleInput_need_rewrite_ok[OF need] by blast
  let ?g' = "update_node (g\<lparr> edges := filter (\<lambda>e. \<not> ?Q e) (edges g) @ map (if_input_target im) ?es \<rparr>) n
               (AddAttr ''Tin'' (AttrTypeList new_types) \<circ> ClearAttr ''Tin'')"
  have res: "if_rearrange_inputs g n in_types im = Inr ?g'"
    using reorder sh by (simp add: if_rearrange_inputs_def)
  have ed: "edges ?g' = filter (\<lambda>e. \<not> ?Q e) (edges g) @ map (if_input_target im) ?es"
    by (simp add: update_node_def)
  have none: "filter (\<lambda>e. dst e = n \<and> dst_input e = 0) (map (if_input_target im) ?es) = []"
  proof -
    have "\<not> (dst e' = n \<and> dst_input e' = 0)" if "e' \<in> set (map (if_input_target im) ?es)" for e'
    proof -
      from that obtain e where "e \<in> set ?es" "e' = if_input_target im e" by auto
      with target[of e] show ?thesis by auto
    qed
    then show ?thesis unfolding filter_empty_conv by blast
  qed
  have same: "filter (\<lambda>e. dst e = n \<and> dst_input e = 0) (filter (\<lambda>e. \<not> ?Q e) (edges g))
                = filter (\<lambda>e. dst e = n \<and> dst_input e = 0) (edges g)"
    unfolding filter_filter by (rule filter_cong) (auto simp: if_input_moved_def)
  have general: "\<exists>g'. if_rearrange_inputs g n in_types im = Inr g' \<and>
            edges g' = filter (\<lambda>e. \<not> if_input_moved n e) (edges g)
                         @ map (if_input_target im) (filter (if_input_moved n) (edges g)) \<and>
            (\<forall>e\<in>set (edges g). if_input_moved n e \<longrightarrow>
                1 \<le> dst_input (if_input_target im e) \<and>
                dst_input (if_input_target im e) \<le> int (length in_types)) \<and>
            filter (\<lambda>e. dst e = n \<and> dst_input e = 0) (edges g')
              = filter (\<lambda>e. dst e = n \<and> dst_input e = 0) (edges g)"
    using res ed target none same by (intro exI[of _ ?g']) simp
  show ?thesis by (rule general)
qed

lemma if_scenario:
  "\<exists>g' fld'. MaybeRewriteIfNode if_graph 3 if_fld uninit = Inr (g', fld', True) \<and>
            edges g' = [mk_edge 0 0 3 0, mk_edge 1 0 3 2, mk_edge 2 0 3 1]"
proof -
  have "case MaybeRewriteIfNode if_graph 3 if_fld uninit of
          Inl _ \<Rightarrow> False
        | Inr (g', fld', rw) \<Rightarrow> rw \<and> edges g' = [mk_edge 0 0 3 0, mk_edge 1 0 3 2, mk_edge 2 0 3 1]"
    by code_simp
  then show ?thesis by (auto split: sum.splits)
qed

text \<open>
  Claim C7. For an \<open>If\<close> node whose inputs need rearranging (the mapping is computed from
  \<open>Tin\<close>, the types of the inputs after the predicate), the input rewrite of lines 481-504
  succeeds when the data inputs sit in slots \<open>0 .. length Tin\<close>; it leaves every edge that is
  not a data input in a slot \<open>\<ge> 1\<close> where it is, moves a data input from slot \<open>k + 1\<close> to
  slot \<open>index_mapping[k] + 1\<close>, which is again a slot \<open>\<ge> 1\<close>, and so the edges into slot 0
  are the same as before. The same holds of the whole of \<open>MaybeRewriteIfNode\<close> whenever it
  succeeds on a node without an edge to itself. For inputs \<open>[pred, resource, float]\<close> the
  predicate stays in slot 0, the float input ends in slot 1 and the resource in slot 2.
\<close>

theorem C7_if_predicate_stays_at_slot_0:
  "(InputTypesNeedsRearrange in_types uninit [] = (True, rc, im) \<and>
    (\<forall>e\<in>set (in_edges g n). \<not> IsControlEdge e \<longrightarrow>
        0 \<le> dst_input e \<and> dst_input e \<le> int (length in_types))
    \<longrightarrow> (\<exists>g'. if_rearrange_inputs g n in_types im = Inr g' \<and>
           edges g' = filter (\<lambda>e. \<not> if_input_moved n e) (edges g)
                        @ map (if_input_target im) (filter (if_input_moved n) (edges g)) \<and>
           (\<forall>e\<in>set (edges g). if_input_moved n e \<longrightarrow>
               1 \<le> dst_input (if_input_target im e) \<and>
               dst_input (if_input_target im e) \<le> int (length in_types)) \<and>
           filter (feeds_slot_0 n) (edges g') = filter (feeds_slot_0 n) (edges g))) \<and>
   (\<forall>g' fld' node_rewritten.
      MaybeRewriteIfNode g n fld uninit = Inr (g', fld', node_rewritten) \<and> no_self_loop g n
      \<longrightarrow> filter (feeds_slot_0 n) (edges g') = filter (feeds_slot_0 n) (edges g)) \<and>
   (\<exists>g' fld'. MaybeRewriteIfNode if_graph 3 if_fld uninit = Inr (g', fld', True) \<and>
      edges g' = [mk_edge 0 0 3 0, mk_edge 1 0 3 2, mk_edge 2 0 3 1])"
proof (intro conjI impI allI)
  assume h: "InputTypesNeedsRearrange in_types uninit [] = (True, rc, im) \<and>
    (\<forall>e\<in>set (in_edges g n). \<not> IsControlEdge e \<longrightarrow>
        0 \<le> dst_input e \<and> dst_input e \<le> int (length in_types))"
  then have a: "InputTypesNeedsRearrange in_types uninit [] = (True, rc, im)"
    and b: "\<forall>e\<in>set (in_edges g n). \<not> IsControlEdge e \<longrightarrow>
        0 \<le> dst_input e \<and> dst_input e \<le> int (length in_types)" by blast+
  from if_rearrange_inputs_result[OF a b]
  show "\<exists>g'. if_rearrange_inputs g n in_types im = Inr g' \<and>
           edges g' = filter (\<lambda>e. \<not> if_input_moved n e) (edges g)
                        @ map (if_input_target im) (filter (if_input_moved n) (edges g)) \<and>
           (\<forall>e\<in>set (edges g). if_input_moved n e \<longrightarrow>
               1 \<le> dst_input (if_input_target im e) \<and>
               dst_input (if_input_target im e) \<le> int (length in_types)) \<and>
           filter (feeds_slot_0 n) (edges g') = filter (feeds_slot_0 n) (edges g)"
    unfolding feeds_slot_0_def by blast
next
  fix g' fld' node_rewritten
  assume "MaybeRewriteIfNode g n fld uninit = Inr (g', fld', node_rewritten) \<and> no_self_loop g n"
  then show "filter (feeds_slot_0 n) (edges g') = filter (feeds_slot_0 n) (edges g)"
    using MaybeRewriteIfNode_slot_0 by blast
next
  show "\<exists>g' fld'. MaybeRewriteIfNode if_graph 3 if_fld uninit = Inr (g', fld', True) \<and>
      edges g' = [mk_edge 0 0 3 0, mk_edge 1 0 3 2, mk_edge 2 0 3 1]"
    by (rule if_scenario)
qed

theorem C7_if_predicate_witness:
  "(case if_rearrange_inputs if_graph 3 [DT_RESOURCE, DT_FLOAT] [1, 0] of
      Inl _ \<Rightarrow> False
    | Inr g' \<Rightarrow> edges g' = [mk_edge 0 0 3 0, mk_edge 1 0 3 2, mk_edge 2 0 3 1]) \<and>
   (case MaybeRewriteIfNode if_graph 3 if_fld 7 of
      Inl _ \<Rightarrow> False
    | Inr (g', fld', node_rewritten) \<Rightarrow>
        node_rewritten \<and> filter (feeds_slot_0 3) (edges g') = [mk_edge 0 0 3 0])"
proof -
  note main = C7_if_predicate_stays_at_slot_0
    [of "[DT_RESOURCE, DT_FLOAT]" 7 1 "[1, 0]" if_graph 3 if_fld]
  have need: "InputTypesNeedsRearrange [DT_RESOURCE, DT_FLOAT] 7 [] = (True, 1, [1, 0])"
    by (simp add: InputTypesNeedsRearrange_def)
  have slots: "\<forall>e\<in>set (in_edges if_graph 3). \<not> IsControlEdge e \<longrightarrow>
        0 \<le> dst_input e \<and> dst_input e \<le> int (length [DT_RESOURCE, DT_FLOAT])"
    by (simp add: in_edges_def if_graph_def mk_edge_def)
  have nsl: "no_self_loop if_graph 3"
    by (simp add: no_self_loop_def if_graph_def mk_edge_def)
  have old: "filter (feeds_slot_0 3) (edges if_graph) = [mk_edge 0 0 3 0]"
    by (simp add: feeds_slot_0_def if_graph_def mk_edge_def)
  have moved: "filter (\<lambda>e. \<not> if_input_moved 3 e) (edges if_graph)
                 @ map (if_input_target [1, 0]) (filter (if_input_moved 3) (edges if_graph))
               = [mk_edge 0 0 3 0, mk_edge 1 0 3 2, mk_edge 2 0 3 1]"
    by (simp add: if_input_moved_def if_input_target_def if_graph_def mk_edge_def
          IsControlEdge_def kControlSlot_def)
  from main need slots obtain g1 where
    "if_rearrange_inputs if_graph 3 [DT_RESOURCE, DT_FLOAT] [1, 0] = Inr g1"
    "edges g1 = filter (\<lambda>e. \<not> if_input_moved 3 e) (edges if_graph)
                 @ map (if_input_target [1, 0]) (filter (if_input_moved 3) (edges if_graph))"
    by blast
  then have first: "case if_rearrange_inputs if_graph 3 [DT_RESOURCE, DT_FLOAT] [1, 0] of
      Inl _ \<Rightarrow> False
    | Inr g' \<Rightarrow> edges g' = [mk_edge 0 0 3 0, mk_edge 1 0 3 2, mk_edge 2 0 3 1]"
    using moved by simp
  from main obtain g2 fld2 where run: "MaybeRewriteIfNode if_graph 3 if_fld 7 = Inr (g2, fld2, True)"
    by blast
  with main nsl have "filter (feeds_slot_0 3) (edges g2) = filter (feeds_slot_0 3) (edges if_graph)"
    by blast
  then show ?thesis using first run old by simp
qed

section \<open>Node rewriters: what is left alone, and which errors are reported\<close>

lemma MaybeRewriteWhileNode_untouched:
  assumes "GetNodeAttr_type_list (node_at g n) ''T'' = Inr types"
    and "fst (InputTypesNeedsRearrange types uninit []) = False"
  shows "MaybeRewriteWhileNode g n fld uninit = Some (Inr (g, fld, False))"
  using assms by (auto simp: MaybeRewriteWhileNode_def split: prod.splits)

lemma MaybeRewriteIfNode_untouched:
  assumes "GetNodeAttr_type_list (node_at g n) ''Tin'' = Inr in_types"
    and "GetNodeAttr_type_list (node_at g n) ''Tout'' = Inr out_types"
    and "fst (InputTypesNeedsRearrange in_types uninit []) = False"
    and "DT_RESOURCE \<notin> set out_types"
  shows "MaybeRewriteIfNode g n fld uninit = Inr (g, fld, False)"
  using assms by (auto simp: MaybeRewriteIfNode_def split: prod.splits)

lemma not_needed_count_unwritten:
  "fst (InputTypesNeedsRearrange in_types uninit []) = False \<Longrightarrow>
   InputTypesNeedsRearrange in_types uninit [] = (False, uninit, [])"
  by (auto simp: InputTypesNeedsRearrange_def Let_def split: if_splits)

lemma MaybeRewriteCallNode_untouched_iff:
  assumes "GetNodeAttr_type_list (node_at g n) ''Tin'' = Inr in_types"
    and "GetNodeAttr_type_list (node_at g n) ''Tout'' = Inr out_types"
    and "fst (InputTypesNeedsRearrange in_types uninit []) = False"
    and "DT_RESOURCE \<notin> set out_types"
  shows "(\<exists>g' fld'. MaybeRewriteCallNode g n fld uninit = Inr (g', fld', False)) \<longleftrightarrow> uninit = 0"
    and "uninit = 0 \<Longrightarrow> MaybeRewriteCallNode g n fld uninit = Inr (g, fld, False)"
  using assms not_needed_count_unwritten[OF assms(3)]
  by (auto simp: MaybeRewriteCallNode_def Let_def split: prod.splits sum.splits option.splits)

text \<open>
  Claim C6, evaluated on \<open>MaybeRewriteCallNode\<close> at a node with no resource input and no
  resource output. \<open>InputTypesNeedsRearrange\<close> reports no need for a rewrite and leaves
  \<open>resource_input_count\<close> unwritten; line 394 tests that local instead of
  \<open>input_need_rearrange\<close>. With the indeterminate value 1 the node is rewritten: a
  function \<open>callee_rearrange_0\<close> is registered and the node is pointed at it. With the
  value 0 the node is left alone.
\<close>

theorem C6_call_node_rewritten_without_need:
  "GetNodeAttr_type_list (node_at call_graph 1) ''Tin'' = Inr [DT_FLOAT] \<and>
   GetNodeAttr_type_list (node_at call_graph 1) ''Tout'' = Inr [DT_FLOAT] \<and>
   InputTypesNeedsRearrange [DT_FLOAT] 1 [] = (False, 1, []) \<and>
   MaybeRewriteCallNode call_graph 1 call_fld 1
     = Inr (update_node call_graph 1 (AddAttr ''f'' (AttrFunc ''callee_rearrange_0'' []) \<circ> ClearAttr ''f''),
            call_fld @ [(''callee_rearrange_0'',
                         \<lparr> signature_name = ''callee_rearrange_0'', body_graph = float_identity_body \<rparr>)],
            True) \<and>
   MaybeRewriteCallNode call_graph 1 call_fld 0 = Inr (call_graph, call_fld, False)"
  by code_simp

subsection \<open>Attributes and nodes under updates\<close>

lemma map_of_filter_key:
  "map_of (filter (\<lambda>kv. fst kv \<noteq> k) xs) k' = (if k' = k then None else map_of xs k')"
  by (induction xs) auto

lemma map_of_set_attr:
  "map_of (attrs (AddAttr k v (ClearAttr k nd))) k' = (if k' = k then Some v else map_of (attrs nd) k')"
  by (simp add: AddAttr_def ClearAttr_def map_of_filter_key map_add_def split: option.splits)

lemma type_string_set_attr [simp]:
  "type_string (AddAttr k v (ClearAttr k nd)) = type_string nd"
  by (simp add: AddAttr_def ClearAttr_def)

lemma node_at_update_node:
  "node_at (update_node g n f) x = (if x = n \<and> n < length (nodes g) then f (node_at g n) else node_at g x)"
  by (auto simp: node_at_def update_node_def)

lemma length_nodes_update_node [simp]: "length (nodes (update_node g n f)) = length (nodes g)"
  by (simp add: update_node_def)

lemma type_string_update_set_attr [simp]:
  "type_string (node_at (update_node g n (AddAttr k v \<circ> ClearAttr k)) x) = type_string (node_at g x)"
  by (simp add: node_at_update_node)

lemma attr_update_set_attr_other:
  "k' \<noteq> k \<Longrightarrow> map_of (attrs (node_at (update_node g n (AddAttr k v \<circ> ClearAttr k)) x)) k'
                 = map_of (attrs (node_at g x)) k'"
  by (simp add: node_at_update_node map_of_set_attr)

lemma GetNodeAttr_cong:
  assumes "map_of (attrs a) k = map_of (attrs b) k"
  shows "GetNodeAttr_int a k = GetNodeAttr_int b k"
    and "GetNodeAttr_type a k = GetNodeAttr_type b k"
    and "GetNodeAttr_type_list a k = GetNodeAttr_type_list b k"
    and "GetNodeAttr_func a k = GetNodeAttr_func b k"
  using assms
  by (simp_all add: GetNodeAttr_int_def GetNodeAttr_type_def GetNodeAttr_type_list_def GetNodeAttr_func_def)

lemma IsArg_cong: "type_string a = type_string b \<Longrightarrow> IsArg a = IsArg b"
  by (simp add: IsArg_def)

lemma input_edge_cong: "edges g' = edges g \<Longrightarrow> input_edge g' n idx = input_edge g n idx"
  by (simp add: input_edge_def in_edges_def)

lemma same_but_index_refl: "same_but_index g g"
  by (simp add: same_but_index_def)

lemma same_but_indexD:
  assumes "same_but_index g g'"
  shows "edges g' = edges g"
    and "length (nodes g') = length (nodes g)"
    and "type_string (node_at g' x) = type_string (node_at g x)"
    and "k \<noteq> ''index'' \<Longrightarrow> map_of (attrs (node_at g' x)) k = map_of (attrs (node_at g x)) k"
    and "\<exists>i. GetNodeAttr_int (node_at g x) ''index'' = Inr i
          \<Longrightarrow> \<exists>i. GetNodeAttr_int (node_at g' x) ''index'' = Inr i"
  using assms unfolding same_but_index_def by simp_all

lemma same_but_index_trans:
  assumes "same_but_index a b" "same_but_index b c"
  shows "same_but_index a c"
proof -
  note ab = same_but_indexD[OF assms(1)] and bc = same_but_indexD[OF assms(2)]
  show ?thesis
    unfolding same_but_index_def
  proof (intro conjI allI impI)
    show "edges c = edges a" using ab(1) bc(1) by simp
    show "length (nodes c) = length (nodes a)" using ab(2) bc(2) by simp
    show "type_string (node_at c x) = type_string (node_at a x)" for x using ab(3) bc(3) by simp
    show "map_of (attrs (node_at c x)) k = map_of (attrs (node_at a x)) k" if "k \<noteq> ''index''" for x k
      using ab(4)[OF that] bc(4)[OF that] by simp
    show "\<exists>i. GetNodeAttr_int (node_at c x) ''index'' = Inr i"
      if "\<exists>i. GetNodeAttr_int (node_at a x) ''index'' = Inr i" for x
      using bc(5)[OF ab(5)[OF that]] .
  qed
qed

lemma same_but_index_step:
  "same_but_index g (update_node g n (AddAttr ''index'' (AttrInt v) \<circ> ClearAttr ''index''))"
  unfolding same_but_index_def
  by (auto simp: attr_update_set_attr_other node_at_update_node map_of_set_attr GetNodeAttr_int_def)

lemma RearrangeArgNodes_loop_same:
  "RearrangeArgNodes_loop g ns im i = Inr g' \<or> RearrangeArgNodes_loop g ns im i = Inl (err, g')
     \<Longrightarrow> same_but_index g g'"
proof (induction ns arbitrary: g i)
  case Nil
  then show ?case by (auto simp: same_but_index_refl)
next
  case (Cons n ns)
  show ?case
  proof (cases "vector_at im i")
    case (Inl e)
    then show ?thesis using Cons.prems by (auto simp: same_but_index_refl)
  next
    case (Inr v)
    let ?g1 = "update_node g n (AddAttr ''index'' (AttrInt v) \<circ> ClearAttr ''index'')"
    from Cons.prems Inr have
      "RearrangeArgNodes_loop ?g1 ns im (i + 1) = Inr g' \<or> RearrangeArgNodes_loop ?g1 ns im (i + 1) = Inl (err, g')"
      by simp
    from Cons.IH[OF this] same_but_index_step[of g n v] show ?thesis
      by (rule same_but_index_trans[rotated])
  qed
qed

lemma RearrangeArgNodes_loop_ok:
  "0 \<le> i \<Longrightarrow> i + int (length ns) \<le> int (length im) \<Longrightarrow> \<exists>g'. RearrangeArgNodes_loop g ns im i = Inr g'"
proof (induction ns arbitrary: g i)
  case Nil
  then show ?case by simp
next
  case (Cons n ns)
  then have "vector_at im i = Inr (im ! nat i)" by (simp add: vector_at_def)
  moreover have "0 \<le> i + 1" "i + 1 + int (length ns) \<le> int (length im)" using Cons.prems by simp_all
  ultimately show ?case using Cons.IH[of "i + 1"] by simp
qed

lemma RearrangeArgNodes_error_code:
  "RearrangeArgNodes_loop g ns im i = Inl (err, g') \<Longrightarrow> err = StdOutOfRange"
  by (induction ns arbitrary: g i) (auto simp: vector_at_def split: sum.splits if_splits)

subsection \<open>CalculateRetvalRearrange\<close>

lemma same_but_index_fed_by_arg:
  assumes "same_but_index g g'"
  shows "fed_by_arg g' r = fed_by_arg g r"
proof -
  have "input_edge g' r 0 = input_edge g r 0"
    using same_but_indexD(1)[OF assms] by (rule input_edge_cong)
  moreover have "IsArg (node_at g' x) = IsArg (node_at g x)" for x
    using same_but_indexD(3)[OF assms] by (rule IsArg_cong)
  ultimately show ?thesis by (simp add: fed_by_arg_def)
qed

lemma same_but_index_T:
  assumes "same_but_index g g'"
  shows "GetNodeAttr_type (node_at g' r) ''T'' = GetNodeAttr_type (node_at g r) ''T''"
  by (rule GetNodeAttr_cong) (rule same_but_indexD(4)[OF assms], simp)

lemma same_but_index_well_formed:
  assumes "same_but_index g g'" "retval_well_formed g r"
  shows "retval_well_formed g' r"
proof -
  from assms(2) obtain t where t: "GetNodeAttr_type (node_at g r) ''T'' = Inr t"
    and res: "t = DT_RESOURCE \<longrightarrow>
             (\<exists>e. input_edge g r 0 = Inr e \<and>
                  (IsArg (node_at g (src e)) \<longrightarrow>
                     (\<exists>i. GetNodeAttr_int (node_at g (src e)) ''index'' = Inr i)))"
    unfolding retval_well_formed_def by blast
  have ie: "input_edge g' r 0 = input_edge g r 0"
    using same_but_indexD(1)[OF assms(1)] by (rule input_edge_cong)
  have arg: "IsArg (node_at g' x) = IsArg (node_at g x)" for x
    using same_but_indexD(3)[OF assms(1)] by (rule IsArg_cong)
  have t': "GetNodeAttr_type (node_at g' r) ''T'' = Inr t"
    using t same_but_index_T[OF assms(1)] by simp
  have "\<exists>e. input_edge g' r 0 = Inr e \<and>
                  (IsArg (node_at g' (src e)) \<longrightarrow>
                     (\<exists>i. GetNodeAttr_int (node_at g' (src e)) ''index'' = Inr i))"
    if "t = DT_RESOURCE"
  proof -
    from res that obtain e where e: "input_edge g r 0 = Inr e"
      and i: "IsArg (node_at g (src e)) \<longrightarrow> (\<exists>i. GetNodeAttr_int (node_at g (src e)) ''index'' = Inr i)"
      by blast
    have "\<exists>i. GetNodeAttr_int (node_at g' (src e)) ''index'' = Inr i" if "IsArg (node_at g' (src e))"
      using that arg i same_but_indexD(5)[OF assms(1)] by blast
    then show ?thesis using e ie by auto
  qed
  then show ?thesis unfolding retval_well_formed_def using t' by blast
qed

lemma CalculateRetvalRearrange_loop_not_unimplemented:
  assumes "\<forall>r\<in>set rets. GetNodeAttr_type (node_at g r) ''T'' = Inr DT_RESOURCE \<longrightarrow> fed_by_arg g r"
  shows "CalculateRetvalRearrange_loop g rets i rim rra \<noteq> Inl (Unimplemented, m1, m2)"
  using assms
proof (induction rets arbitrary: i rim rra)
  case Nil
  then show ?case by simp
next
  case (Cons r rets)
  have tl: "\<forall>r\<in>set rets. GetNodeAttr_type (node_at g r) ''T'' = Inr DT_RESOURCE \<longrightarrow> fed_by_arg g r"
    using Cons.prems by simp
  note IH = Cons.IH[OF tl]
  show ?case
  proof (cases "GetNodeAttr_type (node_at g r) ''T''")
    case (Inl e)
    then have "e \<noteq> Unimplemented"
      by (auto simp: GetNodeAttr_type_def split: option.splits AttrValue.splits)
    then show ?thesis using Inl by simp
  next
    case (Inr t)
    show ?thesis
    proof (cases "t = DT_RESOURCE")
      case False
      then show ?thesis using Inr IH by (simp add: Let_def)
    next
      case True
      with Inr Cons.prems obtain e where e: "input_edge g r 0 = Inr e" "IsArg (node_at g (src e))"
        by (auto simp: fed_by_arg_def)
      show ?thesis
      proof (cases "GetNodeAttr_int (node_at g (src e)) ''index''")
        case (Inl err)
        then have "err \<noteq> Unimplemented"
          by (auto simp: GetNodeAttr_int_def split: option.splits AttrValue.splits)
        then show ?thesis using Inr True e Inl by simp
      next
        case (Inr idx)
        then show ?thesis using \<open>GetNodeAttr_type (node_at g r) ''T'' = Inr t\<close> True e IH by simp
      qed
    qed
  qed
qed

lemma map_of_map_insert_keeps:
  "map_of m k = Some v \<Longrightarrow> map_of (map_insert m k' v') k = Some v"
  by (auto simp: map_insert_def map_add_def)

lemma CalculateRetvalRearrange_loop_keeps:
  assumes "CalculateRetvalRearrange_loop g rets i rim rra = Inr (rim', rra')"
  shows "(\<forall>k v. map_of rim k = Some v \<longrightarrow> map_of rim' k = Some v) \<and>
         (\<forall>k v. map_of rra k = Some v \<longrightarrow> map_of rra' k = Some v)"
  using assms
proof (induction rets arbitrary: i rim rra)
  case Nil
  then show ?case by simp
next
  case (Cons r rets)
  from Cons.prems obtain t where t: "GetNodeAttr_type (node_at g r) ''T'' = Inr t"
    by (auto split: sum.splits)
  show ?case
  proof (cases "t = DT_RESOURCE")
    case False
    with Cons.prems t have
      "CalculateRetvalRearrange_loop g rets (i + 1) (map_insert rim i (int (length rim))) rra = Inr (rim', rra')"
      by (simp add: Let_def)
    from Cons.IH[OF this] show ?thesis by (meson map_of_map_insert_keeps)
  next
    case True
    from Cons.prems t True obtain e where e: "input_edge g r 0 = Inr e"
      by (cases "input_edge g r 0") auto
    from Cons.prems t True e have isarg: "IsArg (node_at g (src e))"
      by (auto split: if_splits)
    from Cons.prems t True e isarg obtain idx where
      idx: "GetNodeAttr_int (node_at g (src e)) ''index'' = Inr idx"
      by (cases "GetNodeAttr_int (node_at g (src e)) ''index''") auto
    from Cons.prems t True e isarg idx have
      "CalculateRetvalRearrange_loop g rets (i + 1) rim (map_insert rra i idx) = Inr (rim', rra')"
      by simp
    from Cons.IH[OF this] show ?thesis by (meson map_of_map_insert_keeps)
  qed
qed

lemma CalculateRetvalRearrange_loop_unimplemented:
  assumes "\<forall>r\<in>set rets. retval_well_formed g r"
    and "\<exists>r\<in>set rets. GetNodeAttr_type (node_at g r) ''T'' = Inr DT_RESOURCE \<and> \<not> fed_by_arg g r"
  shows "\<exists>m1 m2. CalculateRetvalRearrange_loop g rets i rim rra = Inl (Unimplemented, m1, m2)"
  using assms
proof (induction rets arbitrary: i rim rra)
  case Nil
  then show ?case by simp
next
  case (Cons r rets)
  from Cons.prems(1) have wf: "retval_well_formed g r" and wfs: "\<forall>r\<in>set rets. retval_well_formed g r"
    by simp_all
  from wf obtain t where t: "GetNodeAttr_type (node_at g r) ''T'' = Inr t"
    unfolding retval_well_formed_def by blast
  show ?case
  proof (cases "t = DT_RESOURCE")
    case False
    then have "\<exists>r\<in>set rets. GetNodeAttr_type (node_at g r) ''T'' = Inr DT_RESOURCE \<and> \<not> fed_by_arg g r"
      using Cons.prems(2) t by auto
    from Cons.IH[OF wfs this] show ?thesis using t False by (simp add: Let_def)
  next
    case True
    with wf t obtain e where e: "input_edge g r 0 = Inr e"
      and idx: "IsArg (node_at g (src e)) \<longrightarrow> (\<exists>i. GetNodeAttr_int (node_at g (src e)) ''index'' = Inr i)"
      unfolding retval_well_formed_def by auto
    show ?thesis
    proof (cases "IsArg (node_at g (src e))")
      case False
      then show ?thesis using t True e by simp
    next
      case isarg: True
      with idx obtain j where j: "GetNodeAttr_int (node_at g (src e)) ''index'' = Inr j" by blast
      have "fed_by_arg g r" using e isarg by (auto simp: fed_by_arg_def)
      then have "\<exists>r\<in>set rets. GetNodeAttr_type (node_at g r) ''T'' = Inr DT_RESOURCE \<and> \<not> fed_by_arg g r"
        using Cons.prems(2) by auto
      from Cons.IH[OF wfs this] show ?thesis using t True e isarg j by simp
    qed
  qed
qed

lemma CalculateRetvalRearrange_loop_fails:
  assumes "\<exists>r\<in>set rets. GetNodeAttr_type (node_at g r) ''T'' = Inr DT_RESOURCE \<and> \<not> fed_by_arg g r"
  shows "\<exists>err m1 m2. CalculateRetvalRearrange_loop g rets i rim rra = Inl (err, m1, m2)"
  using assms
proof (induction rets arbitrary: i rim rra)
  case Nil
  then show ?case by simp
next
  case (Cons r rets)
  show ?case
  proof (cases "GetNodeAttr_type (node_at g r) ''T'' = Inr DT_RESOURCE \<and> \<not> fed_by_arg g r")
    case True
    show ?thesis
    proof (cases "input_edge g r 0")
      case (Inl err)
      then show ?thesis using True by simp
    next
      case (Inr e)
      then have "\<not> IsArg (node_at g (src e))" using True by (auto simp: fed_by_arg_def)
      then show ?thesis using True Inr by simp
    qed
  next
    case False
    then have "\<exists>r\<in>set rets. GetNodeAttr_type (node_at g r) ''T'' = Inr DT_RESOURCE \<and> \<not> fed_by_arg g r"
      using Cons.prems by auto
    note IH = Cons.IH[OF this]
    show ?thesis
    proof (cases "GetNodeAttr_type (node_at g r) ''T''")
      case (Inl err)
      then show ?thesis by simp
    next
      case (Inr t)
      show ?thesis
      proof (cases "t = DT_RESOURCE")
        case ne: False
        then show ?thesis using Inr IH by (simp add: Let_def)
      next
        case res: True
        show ?thesis
        proof (cases "input_edge g r 0")
          case (Inl err)
          then show ?thesis using Inr res by simp
        next
          case e: (Inr e)
          show ?thesis
          proof (cases "IsArg (node_at g (src e))")
            case False
            then show ?thesis using Inr res e by simp
          next
            case True
            then show ?thesis using Inr res e IH
              by (cases "GetNodeAttr_int (node_at g (src e)) ''index''") simp_all
          qed
        qed
      qed
    qed
  qed
qed

subsection \<open>Which errors the steps can report\<close>

lemma GetNodeAttr_error_codes:
  "GetNodeAttr_int nd k = Inl err \<Longrightarrow> err \<noteq> Unimplemented"
  "GetNodeAttr_type nd k = Inl err \<Longrightarrow> err \<noteq> Unimplemented"
  "GetNodeAttr_type_list nd k = Inl err \<Longrightarrow> err \<noteq> Unimplemented"
  "GetNodeAttr_func nd k = Inl err \<Longrightarrow> err \<noteq> Unimplemented"
  by (auto simp: GetNodeAttr_int_def GetNodeAttr_type_def GetNodeAttr_type_list_def GetNodeAttr_func_def
      split: option.splits AttrValue.splits)

lemma input_edge_error_code: "input_edge g n idx = Inl err \<Longrightarrow> err \<noteq> Unimplemented"
  by (auto simp: input_edge_def split: if_splits option.splits)

lemma ShuffleInput_loop_error_code: "ShuffleInput_loop ts im i res = Inl err \<Longrightarrow> err = StdOutOfRange"
  by (induction ts arbitrary: i res) (auto simp: vector_at_def split: sum.splits if_splits)

lemma ShuffleOutput_loop_error_code: "ShuffleOutput_loop ts m i res = Inl err \<Longrightarrow> err = StdOutOfRange"
  by (induction ts arbitrary: i res) (auto split: option.splits if_splits)

lemma if_reorder_inputs_loop_error:
  "if_reorder_inputs_loop g n im es = Inl (err, g') \<Longrightarrow> err = StdOutOfRange"
  by (induction es arbitrary: g) (auto simp: vector_at_def split: sum.splits if_splits)

lemma if_reorder_inputs_loop_nodes:
  "if_reorder_inputs_loop g n im es = Inr g' \<Longrightarrow> nodes g' = nodes g"
  by (induction es arbitrary: g) (auto simp: AddEdge_def RemoveEdge_def split: sum.splits)

lemma RearrangeOutputEdges_loop_error:
  "RearrangeOutputEdges_loop n g rim rra offset es = Inl (err, g') \<Longrightarrow> err \<noteq> Unimplemented"
proof (induction es arbitrary: g)
  case Nil
  then show ?case by simp
next
  case (Cons e es)
  show ?case
  proof (cases "map_of rim (src_output e)")
    case (Some m)
    with Cons show ?thesis by simp
  next
    case None
    show ?thesis
    proof (cases "map_of rra (src_output e)")
      case None
      with Cons.prems \<open>map_of rim (src_output e) = None\<close> show ?thesis by simp
    next
      case (Some a)
      show ?thesis
      proof (cases "input_edge (RemoveEdge g e) n (a + offset)")
        case (Inl err')
        with Cons.prems \<open>map_of rim (src_output e) = None\<close> Some input_edge_error_code[OF Inl]
        show ?thesis by (simp add: Let_def)
      next
        case (Inr ie)
        with Cons \<open>map_of rim (src_output e) = None\<close> Some show ?thesis by (simp add: Let_def)
      qed
    qed
  qed
qed

lemma RearrangeOutputEdges_loop_nodes:
  "RearrangeOutputEdges_loop n g rim rra offset es = Inr g' \<Longrightarrow> nodes g' = nodes g"
  by (induction es arbitrary: g)
     (auto simp: AddEdge_def RemoveEdge_def Let_def split: sum.splits option.splits)

lemma save_new_function_error:
  "save_new_function g n fld an fname fattr body = Inl (err, g', fld')
     \<Longrightarrow> err = InvalidArgument \<and> g' = g \<and> fld' = fld"
  by (auto simp: save_new_function_def Let_def AddFunctionDef_def split: sum.splits option.splits if_splits)

lemma node_at_edges_only: "nodes g' = nodes g \<Longrightarrow> node_at g' x = node_at g x"
  by (simp add: node_at_def)

lemma save_new_function_result:
  assumes "save_new_function g n fld an fname fattr body = Inr (g', fld')"
  shows "edges g' = edges g"
    and "k \<noteq> an \<Longrightarrow> map_of (attrs (node_at g' x)) k = map_of (attrs (node_at g x)) k"
    and "Find fld nm = Some d \<Longrightarrow> Find fld' nm = Some d"
proof -
  from assms obtain new_name where
    g': "g' = update_node g n (AddAttr an (AttrFunc new_name fattr) \<circ> ClearAttr an)"
    and fld': "AddFunctionDef fld (GraphToFunctionDef body new_name) = Inr fld'"
    by (auto simp: save_new_function_def Let_def split: sum.splits)
  show "edges g' = edges g" using g' by simp
  show "map_of (attrs (node_at g' x)) k = map_of (attrs (node_at g x)) k" if "k \<noteq> an"
    using g' that by (simp add: attr_update_set_attr_other)
  show "Find fld' nm = Some d" if "Find fld nm = Some d"
    using fld' that
    by (auto simp: AddFunctionDef_def Find_def map_add_def split: option.splits if_splits)
qed

lemma if_rearrange_inputs_error:
  "if_rearrange_inputs g n in_types im = Inl (err, g') \<Longrightarrow> err = StdOutOfRange"
  by (auto simp: if_rearrange_inputs_def if_reorder_inputs_def ShuffleInputDataTypeAttribute_def
      split: sum.splits dest: if_reorder_inputs_loop_error ShuffleInput_loop_error_code)

lemma if_rearrange_inputs_attrs:
  assumes "if_rearrange_inputs g n in_types im = Inr g'" "k \<noteq> ''Tin''"
  shows "map_of (attrs (node_at g' x)) k = map_of (attrs (node_at g x)) k"
proof -
  from assms(1) obtain g1 new_types where
    g1: "if_reorder_inputs g n im = Inr g1"
    and g': "g' = update_node g1 n (AddAttr ''Tin'' (AttrTypeList new_types) \<circ> ClearAttr ''Tin'')"
    by (auto simp: if_rearrange_inputs_def split: sum.splits)
  have "nodes g1 = nodes g" using g1 unfolding if_reorder_inputs_def by (rule if_reorder_inputs_loop_nodes)
  then have "node_at g1 x = node_at g x" by (rule node_at_edges_only)
  then show ?thesis using g' assms(2) by (simp add: attr_update_set_attr_other)
qed

lemma if_rearrange_outputs_error:
  "if_rearrange_outputs g n out_types rim rra = Inl (err, g') \<Longrightarrow> err \<noteq> Unimplemented"
  by (auto simp: if_rearrange_outputs_def ShuffleOutputDataTypeAttribute_def
      split: sum.splits dest: RearrangeOutputEdges_loop_error ShuffleOutput_loop_error_code)

lemma if_rewrite_branch_not_unimplemented:
  assumes "GetNodeAttr_func (node_at g n) an = Inr (fname, fattr)"
    and "Find fld fname = Some fdef"
    and "FunctionDefToBodyHelper fdef = Inr fbody"
    and "resource_retvals_fed_by_args fbody"
  shows "if_rewrite_branch an n need has_out im g fld rim rra \<noteq> Inl (Unimplemented, g', fld')"
proof
  assume bad: "if_rewrite_branch an n need has_out im g fld rim rra = Inl (Unimplemented, g', fld')"
  let ?arg = "if need then RearrangeArgNodes (graph fbody) (arg_nodes fbody) im else Inr (graph fbody)"
  show False
  proof (cases ?arg)
    case (Inl p)
    obtain err b where p: "p = (err, b)" by (cases p)
    have "err = StdOutOfRange"
      using Inl p by (auto simp: RearrangeArgNodes_def split: if_splits dest: RearrangeArgNodes_error_code)
    then show False using bad assms(1-3) Inl p by (simp add: if_rewrite_branch_def)
  next
    case (Inr body1)
    have same: "same_but_index (graph fbody) body1"
      using Inr by (auto simp: RearrangeArgNodes_def same_but_index_refl split: if_splits
          intro: RearrangeArgNodes_loop_same)
    have direct: "\<forall>r\<in>set (ret_nodes fbody).
        GetNodeAttr_type (node_at body1 r) ''T'' = Inr DT_RESOURCE \<longrightarrow> fed_by_arg body1 r"
      using assms(4) same_but_index_T[OF same] same_but_index_fed_by_arg[OF same]
      by (simp add: resource_retvals_fed_by_args_def)
    show False
    proof (cases has_out)
      case False
      then show False using bad assms(1-3) Inr
        by (auto simp: if_rewrite_branch_def split: sum.splits dest: save_new_function_error)
    next
      case True
      show False
      proof (cases "CalculateRetvalRearrange body1 (ret_nodes fbody) rim rra")
        case (Inl q)
        obtain err m1 m2 where q: "q = (err, m1, m2)" by (cases q)
        have "err \<noteq> Unimplemented"
          using CalculateRetvalRearrange_loop_not_unimplemented[OF direct, of 0 rim rra m1 m2] Inl q
          by (auto simp: CalculateRetvalRearrange_def)
        then show False using bad assms(1-3) Inr True Inl q by (simp add: if_rewrite_branch_def)
      next
        case (Inr q)
        obtain rim1 rra1 where q: "q = (rim1, rra1)" by (cases q)
        show False using bad assms(1-3) \<open>?arg = Inr body1\<close> True Inr q
          by (auto simp: if_rewrite_branch_def split: sum.splits dest: save_new_function_error)
      qed
    qed
  qed
qed

lemma if_rewrite_branch_result:
  assumes "if_rewrite_branch an n need has_out im g fld rim rra = Inr (g', fld', rim', rra')"
  shows "k \<noteq> an \<Longrightarrow> map_of (attrs (node_at g' x)) k = map_of (attrs (node_at g x)) k"
    and "Find fld nm = Some d \<Longrightarrow> Find fld' nm = Some d"
proof -
  from assms obtain fname fattr body2 where
    s: "save_new_function g n fld an fname fattr body2 = Inr (g', fld')"
    unfolding if_rewrite_branch_def
    by (auto split: sum.splits option.splits prod.splits if_splits)
  show "map_of (attrs (node_at g' x)) k = map_of (attrs (node_at g x)) k" if "k \<noteq> an"
    using save_new_function_result(2)[OF s that] .
  show "Find fld' nm = Some d" if "Find fld nm = Some d"
    using save_new_function_result(3)[OF s that] .
qed

lemma MaybeRewriteIfNode_not_unimplemented:
  assumes t1: "GetNodeAttr_func (node_at g n) ''then_branch'' = Inr (tname, tattr)"
    and t2: "Find fld tname = Some tdef"
    and t3: "FunctionDefToBodyHelper tdef = Inr tbody"
    and e1: "GetNodeAttr_func (node_at g n) ''else_branch'' = Inr (ename, eattr)"
    and e2: "Find fld ename = Some edef"
    and e3: "FunctionDefToBodyHelper edef = Inr ebody"
    and dt: "resource_retvals_fed_by_args tbody"
    and de: "resource_retvals_fed_by_args ebody"
  shows "MaybeRewriteIfNode g n fld uninit \<noteq> Inl (Unimplemented, g', fld')"
proof
  assume bad: "MaybeRewriteIfNode g n fld uninit = Inl (Unimplemented, g', fld')"
  from bad obtain in_types where tin: "GetNodeAttr_type_list (node_at g n) ''Tin'' = Inr in_types"
    by (cases "GetNodeAttr_type_list (node_at g n) ''Tin''")
       (auto simp: MaybeRewriteIfNode_def dest: GetNodeAttr_error_codes)
  obtain need rc im where itn: "InputTypesNeedsRearrange in_types uninit [] = (need, rc, im)"
    by (cases "InputTypesNeedsRearrange in_types uninit []") auto
  from bad tin itn obtain out_types where tout: "GetNodeAttr_type_list (node_at g n) ''Tout'' = Inr out_types"
    by (cases "GetNodeAttr_type_list (node_at g n) ''Tout''")
       (auto simp: MaybeRewriteIfNode_def dest: GetNodeAttr_error_codes)
  let ?has = "DT_RESOURCE \<in> set out_types"
  have go: "\<not> (\<not> need \<and> \<not> ?has)"
  proof
    assume "\<not> need \<and> \<not> ?has"
    then have "MaybeRewriteIfNode g n fld uninit = Inr (g, fld, False)"
      using tin itn tout by (simp add: MaybeRewriteIfNode_def)
    then show False using bad by simp
  qed
  let ?s1 = "if need then if_rearrange_inputs g n in_types im else Inr g"
  have unfold: "MaybeRewriteIfNode g n fld uninit =
     (case ?s1 of
        Inl (err, g') \<Rightarrow> Inl (err, g', fld)
      | Inr g1 \<Rightarrow>
     (case if_rewrite_branch ''then_branch'' n need ?has im g1 fld [] [] of
        Inl err \<Rightarrow> Inl err
      | Inr (g2, fld1, rim1, rra1) \<Rightarrow>
     (case if_rewrite_branch ''else_branch'' n need ?has im g2 fld1 rim1 rra1 of
        Inl err \<Rightarrow> Inl err
      | Inr (g3, fld2, rim2, rra2) \<Rightarrow>
     (case (if ?has then if_rearrange_outputs g3 n out_types rim2 rra2 else Inr g3) of
        Inl (err, g') \<Rightarrow> Inl (err, g', fld2)
      | Inr g4 \<Rightarrow> Inr (g4, fld2, True)))))"
    using tin itn tout go
    by (cases need) (simp_all add: MaybeRewriteIfNode_def Let_def cong: sum.case_cong prod.case_cong)
  show False
  proof (cases ?s1)
    case (Inl p)
    obtain err h where p: "p = (err, h)" by (cases p)
    have "err = StdOutOfRange" using Inl p by (auto split: if_splits dest: if_rearrange_inputs_error)
    then show False using bad by (simp add: unfold Inl p)
  next
    case (Inr g1)
    have a1: "map_of (attrs (node_at g1 n)) k = map_of (attrs (node_at g n)) k" if "k \<noteq> ''Tin''" for k
      using Inr that by (auto split: if_splits dest: if_rearrange_inputs_attrs)
    have t1': "GetNodeAttr_func (node_at g1 n) ''then_branch'' = Inr (tname, tattr)"
      using t1 GetNodeAttr_cong(4)[OF a1[of "''then_branch''"]] by simp
    have e1': "GetNodeAttr_func (node_at g1 n) ''else_branch'' = Inr (ename, eattr)"
      using e1 GetNodeAttr_cong(4)[OF a1[of "''else_branch''"]] by simp
    show False
    proof (cases "if_rewrite_branch ''then_branch'' n need ?has im g1 fld [] []")
      case (Inl q)
      obtain err h f where q: "q = (err, h, f)" by (cases q)
      have "err \<noteq> Unimplemented"
        using if_rewrite_branch_not_unimplemented[OF t1' t2 t3 dt, of need ?has im "[]" "[]" h f] Inl q
        by auto
      then show False using bad by (simp add: unfold \<open>?s1 = Inr g1\<close> Inl q)
    next
      case r2: (Inr q)
      obtain g2 fld1 rim1 rra1 where q: "q = (g2, fld1, rim1, rra1)" by (cases q)
      note res = if_rewrite_branch_result[OF r2[unfolded q]]
      have e1'': "GetNodeAttr_func (node_at g2 n) ''else_branch'' = Inr (ename, eattr)"
        using e1' GetNodeAttr_cong(4)[OF res(1)[of "''else_branch''" n]] by simp
      have e2': "Find fld1 ename = Some edef" using res(2)[OF e2] .
      show False
      proof (cases "if_rewrite_branch ''else_branch'' n need ?has im g2 fld1 rim1 rra1")
        case (Inl q')
        obtain err h f where q': "q' = (err, h, f)" by (cases q')
        have "err \<noteq> Unimplemented"
          using if_rewrite_branch_not_unimplemented[OF e1'' e2' e3 de, of need ?has im rim1 rra1 h f] Inl q'
          by auto
        then show False using bad by (simp add: unfold \<open>?s1 = Inr g1\<close> r2 q Inl q')
      next
        case r3: (Inr q')
        obtain g3 fld2 rim2 rra2 where q': "q' = (g3, fld2, rim2, rra2)" by (cases q')
        show False
        proof (cases "if ?has then if_rearrange_outputs g3 n out_types rim2 rra2 else Inr g3")
          case (Inl p)
          obtain err h where p: "p = (err, h)" by (cases p)
          have "err \<noteq> Unimplemented"
            using Inl p by (auto split: if_splits dest: if_rearrange_outputs_error)
          then show False using bad by (simp add: unfold \<open>?s1 = Inr g1\<close> r2 q r3 q' Inl p)
        next
          case (Inr g4)
          then show False using bad by (simp add: unfold \<open>?s1 = Inr g1\<close> r2 q r3 q')
        qed
      qed
    qed
  qed
qed

text \<open>
  Claim C8, as amended. \<open>MaybeRewriteIfNode\<close> checks each branch on its own. When every
  resource-typed \<open>_Retval\<close> of both branch bodies is fed directly by an \<open>_Arg\<close>, the call
  does not report \<open>Unimplemented\<close>, whichever \<open>_Arg\<close> indices the two branches use: the
  branches are not compared. \<open>CalculateRetvalRearrange\<close> keeps every entry the map
  \<open>resource_retval_to_arg\<close> already holds, so where the branches differ the entry of the
  then-branch stands.
\<close>

theorem C8_if_branches_checked_separately:
  assumes "GetNodeAttr_func (node_at g n) ''then_branch'' = Inr (tname, tattr)"
    and "Find fld tname = Some tdef"
    and "FunctionDefToBodyHelper tdef = Inr tbody"
    and "GetNodeAttr_func (node_at g n) ''else_branch'' = Inr (ename, eattr)"
    and "Find fld ename = Some edef"
    and "FunctionDefToBodyHelper edef = Inr ebody"
    and "resource_retvals_fed_by_args tbody"
    and "resource_retvals_fed_by_args ebody"
  shows "status_of (MaybeRewriteIfNode g n fld uninit) \<noteq> Some Unimplemented \<and>
         (\<forall>body rets rim rra rim' rra' k v.
            CalculateRetvalRearrange body rets rim rra = Inr (rim', rra') \<and> map_of rra k = Some v
            \<longrightarrow> map_of rra' k = Some v)"
proof
  show "status_of (MaybeRewriteIfNode g n fld uninit) \<noteq> Some Unimplemented"
    using MaybeRewriteIfNode_not_unimplemented[OF assms, of uninit]
    by (auto simp: status_of_def split: sum.splits)
  show "\<forall>body rets rim rra rim' rra' k v.
            CalculateRetvalRearrange body rets rim rra = Inr (rim', rra') \<and> map_of rra k = Some v
            \<longrightarrow> map_of rra' k = Some v"
    unfolding CalculateRetvalRearrange_def
    using CalculateRetvalRearrange_loop_keeps by blast
qed

text \<open>
  Claim C8 as stated fails: retval 0 aliases \<open>_Arg\<close> 0 in the then-branch and \<open>_Arg\<close> 1 in
  the else-branch, and the node is rewritten without an error; the reader of the output
  is wired to the first resource input.
\<close>

theorem C8_mismatched_branches_counterexample:
  "CalculateRetvalRearrange then_first_body [2] [] [] = Inr ([], [(0, 0)]) \<and>
   CalculateRetvalRearrange else_second_body [2] [] [] = Inr ([], [(0, 1)]) \<and>
   (case MaybeRewriteIfNode mismatch_if_graph 3 mismatch_fld 0 of
      Inl _ \<Rightarrow> False
    | Inr (g', fld', node_rewritten) \<Rightarrow>
        node_rewritten \<and>
        edges g' = [mk_edge 0 0 3 0, mk_edge 1 0 3 1, mk_edge 2 0 3 2, mk_edge 1 0 4 0] \<and>
        map fst fld' = [''then_first'', ''else_second'', ''then_first_rearrange_0'',
                        ''else_second_rearrange_0''])"
  by code_simp

theorem C8_if_branches_witness:
  "status_of (MaybeRewriteIfNode mismatch_if_graph 3 mismatch_fld 0) \<noteq> Some Unimplemented \<and>
   CalculateRetvalRearrange else_second_body [2] [] [(0, 0)] = Inr ([], [(0, 0)])"
proof -
  have h1: "GetNodeAttr_func (node_at mismatch_if_graph 3) ''then_branch'' = Inr (''then_first'', [])"
    by code_simp
  have h2: "Find mismatch_fld ''then_first''
              = Some \<lparr> signature_name = ''then_first'', body_graph = then_first_body \<rparr>"
    by code_simp
  have h3: "FunctionDefToBodyHelper \<lparr> signature_name = ''then_first'', body_graph = then_first_body \<rparr>
              = Inr \<lparr> graph = then_first_body, arg_nodes = [0, 1], ret_nodes = [2] \<rparr>"
    by code_simp
  have h4: "GetNodeAttr_func (node_at mismatch_if_graph 3) ''else_branch'' = Inr (''else_second'', [])"
    by code_simp
  have h5: "Find mismatch_fld ''else_second''
              = Some \<lparr> signature_name = ''else_second'', body_graph = else_second_body \<rparr>"
    by code_simp
  have h6: "FunctionDefToBodyHelper \<lparr> signature_name = ''else_second'', body_graph = else_second_body \<rparr>
              = Inr \<lparr> graph = else_second_body, arg_nodes = [0, 1], ret_nodes = [2] \<rparr>"
    by code_simp
  have h7: "resource_retvals_fed_by_args \<lparr> graph = then_first_body, arg_nodes = [0, 1], ret_nodes = [2] \<rparr>"
    unfolding resource_retvals_fed_by_args_def fed_by_arg_def
    by (simp add: then_first_body_def input_edge_def in_edges_def mk_edge_def node_at_def mk_node_def IsArg_def)
  have h8: "resource_retvals_fed_by_args \<lparr> graph = else_second_body, arg_nodes = [0, 1], ret_nodes = [2] \<rparr>"
    unfolding resource_retvals_fed_by_args_def fed_by_arg_def
    by (simp add: else_second_body_def then_first_body_def input_edge_def in_edges_def mk_edge_def
          node_at_def mk_node_def IsArg_def)
  have keep: "CalculateRetvalRearrange else_second_body [2] [] [(0, 0)] = Inr ([], [(0, 0)])"
    by code_simp
  from C8_if_branches_checked_separately [OF h1 h2 h3 h4 h5 h6 h7 h8, of 0]
  show ?thesis using keep by simp
qed

lemma fed_by_arg_retval_from_arg: "fed_by_arg g r \<Longrightarrow> retval_from_arg g r"
  by (auto simp: fed_by_arg_def retval_from_arg_def input_node_def intro: reaches_arg.arg)

lemma ReorderInputEdges_loop_ok:
  "\<forall>e\<in>set es. 0 \<le> dst_input e \<and> dst_input e < int (length im)
     \<Longrightarrow> \<exists>g'. ReorderInputEdges_loop g n im es = Inr g'"
  by (induction es arbitrary: g) (auto simp: vector_at_def)

lemma call_rearrange_inputs_ok:
  assumes "InputTypesNeedsRearrange in_types uninit [] = (True, rc, im)"
    and "data_inputs_in_range g n (length in_types)"
    and "length (arg_nodes fbody) \<le> length in_types"
  shows "\<exists>g' body'. call_rearrange_inputs g n in_types im fbody = Inr (g', body')"
proof -
  note rng = need_rewrite_mapping_range[OF assms(1)]
  have "\<forall>e\<in>set (filter (\<lambda>e. \<not> IsControlEdge e) (in_edges g n)).
          0 \<le> dst_input e \<and> dst_input e < int (length im)"
    using assms(2) rng(1) by (auto simp: data_inputs_in_range_def)
  from ReorderInputEdges_loop_ok[OF this] obtain g1 where g1: "ReorderInputEdges g n im = Inr g1"
    unfolding ReorderInputEdges_def by blast
  obtain new_types where sh: "ShuffleInputDataTypeAttribute in_types im = Inr new_types"
    using ShuffleInput_need_rewrite_ok[OF assms(1)] by blast
  have "0 + int (length (arg_nodes fbody)) \<le> int (length im)" using assms(3) rng(1) by simp
  from RearrangeArgNodes_loop_ok[OF _ this] obtain b1 where
    "RearrangeArgNodes (graph fbody) (arg_nodes fbody) im = Inr b1"
    unfolding RearrangeArgNodes_def by auto
  then show ?thesis using g1 sh by (simp add: call_rearrange_inputs_def)
qed

lemma call_rearrange_inputs_body:
  assumes "call_rearrange_inputs g n in_types im fbody = Inr (g', body')"
  shows "same_but_index (graph fbody) body'"
proof -
  from assms have "RearrangeArgNodes (graph fbody) (arg_nodes fbody) im = Inr body'"
    by (auto simp: call_rearrange_inputs_def Let_def split: sum.splits)
  then show ?thesis unfolding RearrangeArgNodes_def by (auto intro: RearrangeArgNodes_loop_same)
qed

lemma call_rearrange_outputs_fails:
  assumes "\<exists>r\<in>set rets. GetNodeAttr_type (node_at body r) ''T'' = Inr DT_RESOURCE \<and> \<not> fed_by_arg body r"
  shows "\<exists>err. call_rearrange_outputs g n out_types rets body = Inl (err, g) \<and>
               ((\<forall>r\<in>set rets. retval_well_formed body r) \<longrightarrow> err = Unimplemented)"
proof -
  from CalculateRetvalRearrange_loop_fails[OF assms, of 0 "[]" "[]"]
  obtain err m1 m2 where f: "CalculateRetvalRearrange body rets [] [] = Inl (err, m1, m2)"
    unfolding CalculateRetvalRearrange_def by blast
  have "err = Unimplemented" if "\<forall>r\<in>set rets. retval_well_formed body r"
    using CalculateRetvalRearrange_loop_unimplemented[OF that assms, of 0 "[]" "[]"] f
    unfolding CalculateRetvalRearrange_def by auto
  then show ?thesis using f by (auto simp: call_rearrange_outputs_def)
qed

subsection \<open>Fresh function names\<close>

lemma string_of_nat_nonempty: "string_of_nat n \<noteq> []"
  by (subst string_of_nat.simps) simp

lemma digit_inj:
  assumes "a < 10" "b < 10" "''0123456789'' ! a = ''0123456789'' ! b"
  shows "a = b"
proof -
  have "distinct ''0123456789''" by simp
  moreover have "a < length ''0123456789''" "b < length ''0123456789''" using assms by simp_all
  ultimately show ?thesis using assms(3) by (simp add: nth_eq_iff_index_eq)
qed

lemma string_of_nat_inj: "string_of_nat m = string_of_nat n \<Longrightarrow> m = n"
proof (induction m arbitrary: n rule: less_induct)
  case (less m)
  show ?case
  proof (cases "m < 10")
    case m: True
    show ?thesis
    proof (cases "n < 10")
      case True
      with m less.prems show ?thesis
        by (simp add: string_of_nat.simps[of m] string_of_nat.simps[of n] digit_inj)
    next
      case False
      with m less.prems string_of_nat_nonempty[of "n div 10"] show ?thesis
        by (simp add: string_of_nat.simps[of m] string_of_nat.simps[of n])
    qed
  next
    case m: False
    show ?thesis
    proof (cases "n < 10")
      case True
      with m less.prems string_of_nat_nonempty[of "m div 10"] show ?thesis
        by (simp add: string_of_nat.simps[of m] string_of_nat.simps[of n])
    next
      case False
      with m less.prems have
        pre: "string_of_nat (m div 10) = string_of_nat (n div 10)"
        and dig: "''0123456789'' ! (m mod 10) = ''0123456789'' ! (n mod 10)"
        by (simp_all add: string_of_nat.simps[of m] string_of_nat.simps[of n])
      have "m div 10 < m" using m by simp
      from less.IH[OF this pre] have d: "m div 10 = n div 10" .
      have "m mod 10 = n mod 10" using dig by (intro digit_inj) simp_all
      with d show ?thesis by (metis div_mult_mod_eq)
    qed
  qed
qed

lemma UniqueFunctionName_from_fresh:
  assumes "card (fst ` set fld - (\<lambda>j. prefix @ string_of_nat j) ` {..<i}) \<le> k"
  shows "map_of fld (UniqueFunctionName_from fld prefix k i) = None"
  using assms
proof (induction k arbitrary: i)
  case 0
  let ?S = "(\<lambda>j. prefix @ string_of_nat j) ` {..<i}"
  have "finite (fst ` set fld - ?S)" by simp
  with 0 have "fst ` set fld \<subseteq> ?S" by simp
  moreover have "prefix @ string_of_nat i \<notin> ?S" using string_of_nat_inj by auto
  ultimately have "prefix @ string_of_nat i \<notin> fst ` set fld" by blast
  then show ?case by (simp add: map_of_eq_None_iff)
next
  case (Suc k)
  let ?c = "prefix @ string_of_nat i"
  show ?case
  proof (cases "map_of fld ?c = None")
    case True
    then show ?thesis by simp
  next
    case False
    then have mem: "?c \<in> fst ` set fld" by (simp add: map_of_eq_None_iff)
    have notin: "?c \<notin> (\<lambda>j. prefix @ string_of_nat j) ` {..<i}" using string_of_nat_inj by auto
    have eq: "fst ` set fld - (\<lambda>j. prefix @ string_of_nat j) ` {..<Suc i}
            = (fst ` set fld - (\<lambda>j. prefix @ string_of_nat j) ` {..<i}) - {?c}"
      by (auto simp: lessThan_Suc)
    have "card (fst ` set fld - (\<lambda>j. prefix @ string_of_nat j) ` {..<Suc i}) \<le> k"
      unfolding eq using Suc.prems mem notin by (simp add: card_Diff_singleton_if)
    from Suc.IH[OF this] show ?thesis using False by simp
  qed
qed

lemma UniqueFunctionName_fresh: "map_of fld (UniqueFunctionName fld prefix) = None"
proof -
  have "card (fst ` set fld) \<le> length fld"
    by (metis card_image_le card_length le_trans List.finite_set)
  then show ?thesis
    unfolding UniqueFunctionName_def by (intro UniqueFunctionName_from_fresh) simp
qed

lemma save_new_function_ok:
  "\<exists>new_name. map_of fld new_name = None \<and>
     save_new_function g n fld an fname fattr body
       = Inr (update_node g n (AddAttr an (AttrFunc new_name fattr) \<circ> ClearAttr an),
              fld @ [(new_name, GraphToFunctionDef body new_name)])"
  using UniqueFunctionName_fresh[of fld "fname @ ''_rearrange_''"]
  by (auto simp: save_new_function_def Let_def AddFunctionDef_def GraphToFunctionDef_def)

section \<open>Recursion over associated functions\<close>

text \<open>
  The map \<open>canonicalized_name_to_new_name\<close> gets its entry for a function only after the
  recursive call for that function has returned (lines 645-658), so a call for \<open>f\<close> whose
  first associated function is \<open>f\<close> again arrives at the same call with the same library
  and the same map.
\<close>

lemma Instantiate_ignores_attrs: "Instantiate fld f a = Instantiate fld f b"
  by (simp add: Instantiate_def)

lemma self_reference_does_not_return:
  assumes inst: "Instantiate fld f fattrs = Inr body"
    and sites: "call_sites (graph body) fld = (n, af # afs) # rest"
    and self: "af_func_name af = f"
    and fresh: "memo (Canonicalize f (af_attrs af)) = None"
  shows "RearrangeFunctionArgumentForFunction uninit f new_func_name fattrs fld memo = None"
proof (rule ccontr)
  assume "RearrangeFunctionArgumentForFunction uninit f new_func_name fattrs fld memo \<noteq> None"
  then obtain y where
    y: "RearrangeFunctionArgumentForFunction uninit f new_func_name fattrs fld memo = Some y"
    by blast
  have "\<not> (f = f \<and> fld = fld \<and> memo = memo)"
  proof (rule RearrangeFunctionArgumentForFunction.raw_induct
           [where P = "\<lambda>u fn nfn fa l m r. \<not> (fn = f \<and> l = fld \<and> m = memo)", OF _ y])
    fix self :: "int \<Rightarrow> string \<Rightarrow> string \<Rightarrow> AttrMap \<Rightarrow> FunctionLibraryDefinition \<Rightarrow> Memo \<Rightarrow> PassResult option"
    fix u fn nfn fa l m r
    assume IH: "\<And>u fn nfn fa l m y. self u fn nfn fa l m = Some y \<Longrightarrow> \<not> (fn = f \<and> l = fld \<and> m = memo)"
    assume step: "(case Instantiate l fn fa of
        Inl err \<Rightarrow> Some (Inl (err, l, m))
      | Inr body \<Rightarrow>
          (let g = graph body;
               nodes_to_associated_functions =
                 filter (\<lambda>p. snd p \<noteq> [])
                   (map (\<lambda>n. (n, GetAssociatedFunctions (node_at g n) l)) (node_ids g))
           in Option.bind
                (for_each
                   (\<lambda>p. for_each (rewrite_associated_function (self u) (fst p)) (snd p))
                   nodes_to_associated_functions (g, l, m, False))
                (\<lambda>r. case r of
                        Inl err \<Rightarrow> Some (Inl err)
                      | Inr (g1, fld1, memo1, modified1) \<Rightarrow>
                          (case for_each (rewrite_node u) (node_ids g1) (g1, fld1, modified1) of
                             None \<Rightarrow> None
                           | Some (Inl (err, _, fld2)) \<Rightarrow> Some (Inl (err, fld2, memo1))
                           | Some (Inr (g2, fld2, modified2)) \<Rightarrow>
                               Some (register_rewritten fn nfn g2 fld2 memo1 modified2))))) = Some r"
    show "\<not> (fn = f \<and> l = fld \<and> m = memo)"
    proof
      assume eq: "fn = f \<and> l = fld \<and> m = memo"
      have inst': "Instantiate fld f fa = Inr body"
        using inst Instantiate_ignores_attrs[of fld f fa fattrs] by simp
      have rec_none: "self u f nm a fld memo = None" for nm a
        using IH[of u f nm a fld memo] by (cases "self u f nm a fld memo") auto
      have stuck: "rewrite_associated_function (self u) n af (graph body, fld, memo, False) = None"
        using fresh self rec_none by (simp add: rewrite_associated_function_def Let_def)
      from step eq inst' sites[unfolded call_sites_def] show False by (simp add: Let_def stuck)
    qed
  qed
  then show False by simp
qed

text \<open>
  Claim C4, as amended. The pass keeps no record of the functions whose processing is
  under way. When the first associated function found in the body of \<open>f\<close> is \<open>f\<close> itself
  and its canonicalized name has no entry in the map yet, the call for \<open>f\<close> does not
  return; in particular it reports no \<open>Internal\<close> error.
\<close>

theorem C4_self_reference_does_not_return:
  assumes "Instantiate fld f fattrs = Inr body"
    and "call_sites (graph body) fld = (n, af # afs) # rest"
    and "af_func_name af = f"
    and "memo (Canonicalize f (af_attrs af)) = None"
  shows "RearrangeFunctionArgumentForFunction uninit f new_func_name fattrs fld memo = None \<and>
         RearrangeFunctionArgumentForFunction uninit f new_func_name fattrs fld memo
           \<noteq> Some (Inl (Internal, fld', memo'))"
  using self_reference_does_not_return [of fld f fattrs body n af afs rest memo uninit new_func_name] assms
  by simp

text \<open>
  Claim C4 as stated fails: the call for the self-referential \<open>loop_fn\<close> does not return.
\<close>

theorem C4_self_reference_counterexample:
  "RearrangeFunctionArgumentForFunction 0 ''loop_fn'' ''loop_fn_rearrange_0'' [] self_call_fld Map.empty = None"
proof (rule self_reference_does_not_return)
  show "Instantiate self_call_fld ''loop_fn'' []
          = Inr \<lparr> graph = self_call_body, arg_nodes = [], ret_nodes = [] \<rparr>"
    by code_simp
  show "call_sites (graph \<lparr> graph = self_call_body, arg_nodes = [], ret_nodes = [] \<rparr>) self_call_fld
          = (0, \<lparr> af_type = kFunctionAttr, af_func_name = ''loop_fn'', af_attrs = [], af_attr_name = ''f'' \<rparr> # []) # []"
    by code_simp
  show "af_func_name \<lparr> af_type = kFunctionAttr, af_func_name = ''loop_fn'', af_attrs = [], af_attr_name = ''f'' \<rparr>
          = ''loop_fn''" by simp
  show "Map.empty (Canonicalize ''loop_fn''
          (af_attrs \<lparr> af_type = kFunctionAttr, af_func_name = ''loop_fn'', af_attrs = [], af_attr_name = ''f'' \<rparr>)) = None"
    by simp
qed

theorem C4_self_reference_witness:
  "RearrangeFunctionArgumentForFunction 1 ''loop_fn'' ''loop_fn'' [] self_call_fld Map.empty = None \<and>
   RearrangeFunctionArgumentForFunction 1 ''loop_fn'' ''loop_fn'' [] self_call_fld Map.empty
     \<noteq> Some (Inl (Internal, self_call_fld, Map.empty))"
proof (rule C4_self_reference_does_not_return)
  show "Instantiate self_call_fld ''loop_fn'' []
          = Inr \<lparr> graph = self_call_body, arg_nodes = [], ret_nodes = [] \<rparr>"
    by code_simp
  show "call_sites (graph \<lparr> graph = self_call_body, arg_nodes = [], ret_nodes = [] \<rparr>) self_call_fld
          = (0, \<lparr> af_type = kFunctionAttr, af_func_name = ''loop_fn'', af_attrs = [], af_attr_name = ''f'' \<rparr> # []) # []"
    by code_simp
  show "af_func_name \<lparr> af_type = kFunctionAttr, af_func_name = ''loop_fn'', af_attrs = [], af_attr_name = ''f'' \<rparr>
          = ''loop_fn''" by simp
  show "Map.empty (Canonicalize ''loop_fn''
          (af_attrs \<lparr> af_type = kFunctionAttr, af_func_name = ''loop_fn'', af_attrs = [], af_attr_name = ''f'' \<rparr>)) = None"
    by simp
qed

lemma RewriteAssociatedFunction_ok:
  assumes "GetNodeAttr_func (node_at g n) (af_attr_name af) = Inr (fname, fattr)"
  shows "RewriteAssociatedFunction g n fld af new_name
           = Inr (update_node g n (AddAttr (af_attr_name af) (AttrFunc new_name fattr)
                                    \<circ> ClearAttr (af_attr_name af)), fld)"
  using assms by (simp add: RewriteAssociatedFunction_def)

lemma GetNodeAttr_func_repointed:
  assumes "n < length (nodes g)"
  shows "GetNodeAttr_func (node_at (update_node g n (AddAttr k (AttrFunc new_name fattr) \<circ> ClearAttr k)) n) k
           = Inr (new_name, fattr)"
  using assms by (simp add: node_at_update_node GetNodeAttr_func_def map_of_set_attr)

lemma node_at_update_other:
  "x \<noteq> n \<Longrightarrow> node_at (update_node g n f) x = node_at g x"
  by (simp add: node_at_update_node)

text \<open>
  Claim C5, as amended. Two distinct nodes refer to the same function with the same
  canonicalized name, which has no entry in the map yet. The loop over the associated
  functions (lines 617-671) makes the recursive call for that function for the first node
  only: its outcome depends on the recursion through that one call, and the second node
  finds the entry the first has left. When that call reports the function modified, the
  reference of both nodes is pointed at the one new name; when it does not, the entry is
  empty and the graph is left as it is.
\<close>

theorem C5_second_call_site_hits_memo:
  assumes same: "Canonicalize (af_func_name af2) (af_attrs af2)
                   = Canonicalize (af_func_name af1) (af_attrs af1)"
    and absent: "memo (Canonicalize (af_func_name af1) (af_attrs af1)) = None"
    and kind: "af_type af1 \<noteq> kSymbolicGradient"
    and new_name: "new_name = UniqueFunctionName fld (af_func_name af1 @ ''_rearrange_'')"
    and rec: "self (af_func_name af1) new_name (af_attrs af1) fld memo
                = Some (Inr (fld1, memo1, function_modified))"
    and sites: "n1 < length (nodes g)" "n2 < length (nodes g)" "n1 \<noteq> n2"
    and a1: "GetNodeAttr_func (node_at g n1) (af_attr_name af1) = Inr (f1, fattr1)"
    and a2: "GetNodeAttr_func (node_at g n2) (af_attr_name af2) = Inr (f2, fattr2)"
  shows "\<exists>g2 memo2.
           (\<forall>other. other (af_func_name af1) new_name (af_attrs af1) fld memo
                       = self (af_func_name af1) new_name (af_attrs af1) fld memo \<longrightarrow>
              for_each (\<lambda>p. for_each (rewrite_associated_function other (fst p)) (snd p))
                [(n1, [af1]), (n2, [af2])] (g, fld, memo, False)
              = Some (Inr (g2, fld1, memo2, function_modified))) \<and>
           memo2 = memo1(Canonicalize (af_func_name af1) (af_attrs af1)
                          \<mapsto> (if function_modified then Some new_name else None)) \<and>
           (if function_modified
            then GetNodeAttr_func (node_at g2 n1) (af_attr_name af1) = Inr (new_name, fattr1) \<and>
                 GetNodeAttr_func (node_at g2 n2) (af_attr_name af2) = Inr (new_name, fattr2)
            else g2 = g)"
proof -
  let ?k = "Canonicalize (af_func_name af1) (af_attrs af1)"
  let ?memo2 = "memo1(?k \<mapsto> (if function_modified then Some new_name else None))"
  let ?g1 = "update_node g n1 (AddAttr (af_attr_name af1) (AttrFunc new_name fattr1)
                                 \<circ> ClearAttr (af_attr_name af1))"
  let ?g2 = "update_node ?g1 n2 (AddAttr (af_attr_name af2) (AttrFunc new_name fattr2)
                                 \<circ> ClearAttr (af_attr_name af2))"
  let ?G = "if function_modified then ?g2 else g"
  have first: "rewrite_associated_function other n1 af1 (g, fld, memo, False)
          = Some (Inr (if function_modified then ?g1 else g, fld1, ?memo2, function_modified))"
    if "other (af_func_name af1) new_name (af_attrs af1) fld memo
          = self (af_func_name af1) new_name (af_attrs af1) fld memo" for other
    using that absent kind new_name rec RewriteAssociatedFunction_ok[OF a1, of fld1 new_name]
    by (simp add: rewrite_associated_function_def finish_associated_function_def Let_def)
  have a2': "GetNodeAttr_func (node_at ?g1 n2) (af_attr_name af2) = Inr (f2, fattr2)"
    using a2 sites(3) by (simp add: node_at_update_other)
  have second_mod: "rewrite_associated_function other n2 af2 (?g1, fld1, ?memo2, True)
          = Some (Inr (?g2, fld1, ?memo2, True))" if function_modified for other
    using that same RewriteAssociatedFunction_ok[OF a2', of fld1 new_name]
    by (simp add: rewrite_associated_function_def finish_associated_function_def Let_def)
  have second_unmod: "rewrite_associated_function other n2 af2 (g, fld1, ?memo2, False)
          = Some (Inr (g, fld1, ?memo2, False))" if "\<not> function_modified" for other
    using that same
    by (simp add: rewrite_associated_function_def finish_associated_function_def Let_def)
  have run: "for_each (\<lambda>p. for_each (rewrite_associated_function other (fst p)) (snd p))
                [(n1, [af1]), (n2, [af2])] (g, fld, memo, False)
              = Some (Inr (?G, fld1, ?memo2, function_modified))"
    if "other (af_func_name af1) new_name (af_attrs af1) fld memo
          = self (af_func_name af1) new_name (af_attrs af1) fld memo" for other
    using that first[of other] second_mod[of other] second_unmod[of other]
    by (cases function_modified) simp_all
  have len: "n1 < length (nodes ?g1)" using sites(1) by simp
  have p1: "GetNodeAttr_func (node_at ?g2 n1) (af_attr_name af1) = Inr (new_name, fattr1)"
    using sites GetNodeAttr_func_repointed[OF sites(1), of "af_attr_name af1" new_name fattr1]
    by (simp add: node_at_update_other)
  have p2: "GetNodeAttr_func (node_at ?g2 n2) (af_attr_name af2) = Inr (new_name, fattr2)"
    using GetNodeAttr_func_repointed[of n2 ?g1 "af_attr_name af2" new_name fattr2] sites(2) by simp
  show ?thesis
    using run p1 p2 by (intro exI[of _ ?G] exI[of _ ?memo2]) simp
qed

text \<open>The run of the pass on \<open>caller\<close>, step by step.\<close>

lemma Instantiate_shared:
  "Instantiate two_calls_fld ''shared'' a = Inr \<lparr> graph = branch_body, arg_nodes = [0, 1], ret_nodes = [2] \<rparr>"
  by code_simp

lemma Instantiate_caller:
  "Instantiate two_calls_fld ''caller'' a = Inr \<lparr> graph = two_calls_body, arg_nodes = [], ret_nodes = [] \<rparr>"
  by code_simp

lemma shared_unchanged:
  "RearrangeFunctionArgumentForFunction u ''shared'' nm a two_calls_fld memo
     = Some (Inr (two_calls_fld, memo, False))"
  by (subst RearrangeFunctionArgumentForFunction.simps)
     (simp add: Instantiate_shared branch_body_def node_ids_def node_at_def GetAssociatedFunctions_def
        mk_node_def rewrite_node_def register_rewritten_def Let_def)

lemma first_call_rewritten:
  "MaybeRewriteCallNode two_calls_body 2 two_calls_fld u = Inr (after_call1, fld_after_call1, True)"
  by code_simp

lemma second_call_rewritten:
  "MaybeRewriteCallNode after_call1 3 fld_after_call1 u = Inr (after_call2, fld_after_call2, True)"
  by code_simp

lemma two_calls_sites:
  "filter (\<lambda>p. snd p \<noteq> [])
     (map (\<lambda>n. (n, GetAssociatedFunctions (node_at two_calls_body n) two_calls_fld)) (node_ids two_calls_body))
   = [(2, [\<lparr> af_type = kFunctionAttr, af_func_name = ''shared'', af_attrs = [], af_attr_name = ''f'' \<rparr>]),
      (3, [\<lparr> af_type = kFunctionAttr, af_func_name = ''shared'', af_attrs = [], af_attr_name = ''f'' \<rparr>])]"
  by code_simp

lemma two_calls_node_types:
  "node_ids two_calls_body = [0, 1, 2, 3]"
  "type_string (node_at two_calls_body 0) = ''VarHandleOp''"
  "type_string (node_at two_calls_body 1) = ''Const''"
  "type_string (node_at two_calls_body (Suc 0)) = ''Const''"
  "type_string (node_at two_calls_body 2) = ''StatefulPartitionedCall''"
  "type_string (node_at after_call1 3) = ''StatefulPartitionedCall''"
  by code_simp+

lemma caller_name_free: "map_of fld_after_call2 ''caller_rearrange_0'' = None"
  by code_simp

lemma caller_rewritten:
  "RearrangeFunctionArgumentForFunction u ''caller'' ''caller_rearrange_0'' a two_calls_fld Map.empty
     = Some (Inr (fld_after_call2 @
                    [(''caller_rearrange_0'',
                      \<lparr> signature_name = ''caller_rearrange_0'', body_graph = after_call2 \<rparr>)],
                  Map.empty(Canonicalize ''shared'' [] \<mapsto> None), True))"
  apply (subst RearrangeFunctionArgumentForFunction.simps)
  apply (simp only: Instantiate_caller sum.case Let_def FunctionBody.select_convs two_calls_sites)
  apply (simp add: two_calls_node_types shared_unchanged
        first_call_rewritten second_call_rewritten caller_name_free
        rewrite_associated_function_def finish_associated_function_def rewrite_node_def
        register_rewritten_def AddFunctionDef_def GraphToFunctionDef_def Let_def)
  done

text \<open>
  Claim C5 as stated fails for call nodes: \<open>MaybeRewriteCallNode\<close> registers a new function
  for every node it rewrites and consults no map. The two call nodes of \<open>caller\<close> refer to
  the same \<open>shared\<close>; its body is rearranged twice, under two names, and each call node is
  pointed at its own copy.
\<close>

theorem C5_two_call_nodes_counterexample:
  "RearrangeFunctionArgumentForFunction 0 ''caller'' ''caller_rearrange_0'' [] two_calls_fld Map.empty
     = Some (Inr (fld_after_call2 @
                    [(''caller_rearrange_0'',
                      \<lparr> signature_name = ''caller_rearrange_0'', body_graph = after_call2 \<rparr>)],
                  Map.empty(Canonicalize ''shared'' [] \<mapsto> None), True)) \<and>
   GetNodeAttr_func (node_at after_call2 2) ''f'' = Inr (''shared_rearrange_0'', []) \<and>
   GetNodeAttr_func (node_at after_call2 3) ''f'' = Inr (''shared_rearrange_1'', []) \<and>
   map fst fld_after_call2 = [''shared'', ''caller'', ''shared_rearrange_0'', ''shared_rearrange_1'']"
proof -
  have "GetNodeAttr_func (node_at after_call2 2) ''f'' = Inr (''shared_rearrange_0'', [])"
    by code_simp
  moreover have "GetNodeAttr_func (node_at after_call2 3) ''f'' = Inr (''shared_rearrange_1'', [])"
    by code_simp
  moreover have "map fst fld_after_call2 = [''shared'', ''caller'', ''shared_rearrange_0'', ''shared_rearrange_1'']"
    by code_simp
  ultimately show ?thesis
    using caller_rewritten [of 0 "[]"] by simp
qed

lemma caller_new_name: "UniqueFunctionName two_calls_fld (''caller'' @ ''_rearrange_'') = ''caller_rearrange_0''"
  by code_simp

lemma two_sites_attrs:
  "GetNodeAttr_func (node_at two_sites_graph 0) ''f'' = Inr (''caller'', [])"
  "GetNodeAttr_func (node_at two_sites_graph 1) ''f'' = Inr (''caller'', [])"
  "length (nodes two_sites_graph) = 2"
  by code_simp+

theorem C5_second_call_site_witness:
  "\<exists>g2 fld1 memo2.
     for_each (\<lambda>p. for_each (rewrite_associated_function (RearrangeFunctionArgumentForFunction 0) (fst p)) (snd p))
       [(0, [caller_reference]), (1, [caller_reference])] (two_sites_graph, two_calls_fld, Map.empty, False)
       = Some (Inr (g2, fld1, memo2, True)) \<and>
     memo2 (Canonicalize ''caller'' []) = Some (Some ''caller_rearrange_0'') \<and>
     GetNodeAttr_func (node_at g2 0) ''f'' = Inr (''caller_rearrange_0'', []) \<and>
     GetNodeAttr_func (node_at g2 1) ''f'' = Inr (''caller_rearrange_0'', [])"
proof -
  let ?self = "RearrangeFunctionArgumentForFunction 0"
  from C5_second_call_site_hits_memo
         [where ?af1.0 = caller_reference and ?af2.0 = caller_reference and memo = Map.empty
            and new_name = "''caller_rearrange_0''" and fld = two_calls_fld and self = ?self
            and ?n1.0 = 0 and ?n2.0 = 1 and g = two_sites_graph and function_modified = True,
          OF refl _ _ _ _ _ _ _ _ _]
  obtain g2 memo2 where
    "for_each (\<lambda>p. for_each (rewrite_associated_function ?self (fst p)) (snd p))
       [(0, [caller_reference]), (1, [caller_reference])] (two_sites_graph, two_calls_fld, Map.empty, False)
       = Some (Inr (g2, fld_after_call2 @
                    [(''caller_rearrange_0'',
                      \<lparr> signature_name = ''caller_rearrange_0'', body_graph = after_call2 \<rparr>)], memo2, True))"
    "memo2 (Canonicalize ''caller'' []) = Some (Some ''caller_rearrange_0'')"
    "GetNodeAttr_func (node_at g2 0) ''f'' = Inr (''caller_rearrange_0'', [])"
    "GetNodeAttr_func (node_at g2 1) ''f'' = Inr (''caller_rearrange_0'', [])"
    using caller_rewritten [of 0 "[]"] caller_new_name two_sites_attrs
    by (fastforce simp add: caller_reference_def)
  then show ?thesis by blast
qed

section \<open>The resource check of the While body\<close>

lemma traces_to_trace_identity:
  "traces_to g x a \<Longrightarrow> trace_identity g x = Some (Inr a)"
  by (induction rule: traces_to.induct) (simp_all add: trace_identity.simps)

lemma while_body_check_step_in_place:
  assumes "GetNodeAttr_type (node_at g r) ''T'' = Inr t"
    and "t = DT_RESOURCE \<longrightarrow> returns_arg g r i"
  shows "while_body_check g (r # rs) i = while_body_check g rs (i + 1)"
proof (cases "t = DT_RESOURCE")
  case False
  then show ?thesis using assms(1) by simp
next
  case True
  with assms(2) obtain first a where
    "input_node g r 0 = Inr first" "traces_to g first a" "IsArg (node_at g a)"
    "GetNodeAttr_int (node_at g a) ''index'' = Inr i"
    unfolding returns_arg_def retval_source_def by blast
  then show ?thesis using assms(1) True traces_to_trace_identity[of g first a] by simp
qed

lemma while_body_check_step_other:
  assumes "GetNodeAttr_type (node_at g r) ''T'' = Inr DT_RESOURCE"
    and "returns_other g r i"
  shows "while_body_check g (r # rs) i = Some (Inl Unimplemented)"
proof -
  from assms(2) obtain first a where
    src: "input_node g r 0 = Inr first" "traces_to g first a"
    and a: "if IsArg (node_at g a)
            then \<exists>j. GetNodeAttr_int (node_at g a) ''index'' = Inr j \<and> j \<noteq> i else True"
    unfolding returns_other_def retval_source_def by blast
  show ?thesis
  proof (cases "IsArg (node_at g a)")
    case True
    with a obtain j where "GetNodeAttr_int (node_at g a) ''index'' = Inr j" "j \<noteq> i" by auto
    then show ?thesis using assms(1) src True traces_to_trace_identity[of g first a] by simp
  next
    case False
    then show ?thesis using assms(1) src traces_to_trace_identity[of g first a] by simp
  qed
qed

lemma while_body_check_in_place:
  assumes "\<forall>j<length rets.
        \<exists>t. GetNodeAttr_type (node_at g (rets ! j)) ''T'' = Inr t \<and>
            (t = DT_RESOURCE \<longrightarrow> returns_arg g (rets ! j) (int (k + j)))"
  shows "while_body_check g rets (int k) = Some (Inr ())"
  using assms
proof (induction rets arbitrary: k)
  case Nil
  show ?case by simp
next
  case (Cons r rs)
  from Cons.prems[rule_format, of 0] obtain t where
    t: "GetNodeAttr_type (node_at g r) ''T'' = Inr t" "t = DT_RESOURCE \<longrightarrow> returns_arg g r (int k)"
    by auto
  have rest: "\<forall>j<length rs.
        \<exists>t. GetNodeAttr_type (node_at g (rs ! j)) ''T'' = Inr t \<and>
            (t = DT_RESOURCE \<longrightarrow> returns_arg g (rs ! j) (int (Suc k + j)))"
  proof (intro allI impI)
    fix j assume "j < length rs"
    then show "\<exists>t. GetNodeAttr_type (node_at g (rs ! j)) ''T'' = Inr t \<and>
            (t = DT_RESOURCE \<longrightarrow> returns_arg g (rs ! j) (int (Suc k + j)))"
      using Cons.prems[rule_format, of "Suc j"] by simp
  qed
  have e: "int k + 1 = int (Suc k)" by simp
  show ?case
    unfolding while_body_check_step_in_place[OF t, of rs] e by (rule Cons.IH[OF rest])
qed

lemma while_body_check_out_of_place:
  assumes "\<forall>j<length rets.
        \<exists>t. GetNodeAttr_type (node_at g (rets ! j)) ''T'' = Inr t \<and>
            (t = DT_RESOURCE \<longrightarrow> returns_arg g (rets ! j) (int (k + j)) \<or>
                                  returns_other g (rets ! j) (int (k + j)))"
    and "\<exists>j<length rets.
        GetNodeAttr_type (node_at g (rets ! j)) ''T'' = Inr DT_RESOURCE \<and>
        returns_other g (rets ! j) (int (k + j))"
  shows "while_body_check g rets (int k) = Some (Inl Unimplemented)"
  using assms
proof (induction rets arbitrary: k)
  case Nil
  then show ?case by simp
next
  case (Cons r rs)
  from Cons.prems(1)[rule_format, of 0] obtain t where
    t: "GetNodeAttr_type (node_at g r) ''T'' = Inr t"
       "t = DT_RESOURCE \<longrightarrow> returns_arg g r (int k) \<or> returns_other g r (int k)"
    by auto
  show ?case
  proof (cases "t = DT_RESOURCE \<and> returns_other g r (int k)")
    case True
    then show ?thesis using while_body_check_step_other[of g r "int k" rs] t(1) by blast
  next
    case False
    then have inplace: "t = DT_RESOURCE \<longrightarrow> returns_arg g r (int k)" using t(2) by blast
    have rest: "\<forall>j<length rs.
        \<exists>t. GetNodeAttr_type (node_at g (rs ! j)) ''T'' = Inr t \<and>
            (t = DT_RESOURCE \<longrightarrow> returns_arg g (rs ! j) (int (Suc k + j)) \<or>
                                  returns_other g (rs ! j) (int (Suc k + j)))"
    proof (intro allI impI)
      fix j assume "j < length rs"
      then show "\<exists>t. GetNodeAttr_type (node_at g (rs ! j)) ''T'' = Inr t \<and>
            (t = DT_RESOURCE \<longrightarrow> returns_arg g (rs ! j) (int (Suc k + j)) \<or>
                                  returns_other g (rs ! j) (int (Suc k + j)))"
        using Cons.prems(1)[rule_format, of "Suc j"] by simp
    qed
    from Cons.prems(2) obtain j where
      j: "j < length (r # rs)" "GetNodeAttr_type (node_at g ((r # rs) ! j)) ''T'' = Inr DT_RESOURCE"
         "returns_other g ((r # rs) ! j) (int (k + j))"
      by blast
    have "j \<noteq> 0" using j False t(1) by (cases j) auto
    then obtain j' where j': "j = Suc j'" by (cases j) auto
    have bad: "\<exists>j<length rs.
        GetNodeAttr_type (node_at g (rs ! j)) ''T'' = Inr DT_RESOURCE \<and>
        returns_other g (rs ! j) (int (Suc k + j))"
      using j j' by (intro exI[of _ j']) simp
    have e: "int k + 1 = int (Suc k)" by simp
    show ?thesis
      unfolding while_body_check_step_in_place[OF t(1) inplace, of rs] e by (rule Cons.IH[OF rest bad])
  qed
qed

lemma ReorderInputEdges_loop_edges:
  assumes "filter Q ys = es"
    and "\<forall>e\<in>set es. 0 \<le> dst_input e \<and> dst_input e < int (length im)"
    and "\<forall>e\<in>set es. dst e = n"
  shows "ReorderInputEdges_loop (g\<lparr> edges := ys @ zs \<rparr>) n im es
           = Inr (g\<lparr> edges := filter (\<lambda>e. \<not> Q e) ys @ zs @ map (input_target im) es \<rparr>)"
  using assms
proof (induction es arbitrary: ys zs)
  case Nil
  then have "filter (\<lambda>e. \<not> Q e) ys = ys"
    by (metis (mono_tags, lifting) filter_True filter_empty_conv)
  then show ?case by simp
next
  case (Cons e es)
  from Cons.prems(1) obtain us vs where
    ys: "ys = us @ e # vs" and us: "\<forall>u\<in>set us. \<not> Q u" and Qe: "Q e" and es: "es = filter Q vs"
    unfolding filter_eq_Cons_iff by blast
  have rng: "0 \<le> dst_input e" "dst_input e < int (length im)" and de: "dst e = n"
    using Cons.prems by simp_all
  then have at: "vector_at im (dst_input e) = Inr (im ! nat (dst_input e))"
    by (simp add: vector_at_def)
  have rm: "remove1 e (ys @ zs) = (us @ vs) @ zs"
    using remove1_first_match[OF us Qe, of vs zs] ys by simp
  have tgt: "\<lparr>src = src e, src_output = src_output e, dst = n,
              dst_input = im ! nat (dst_input e)\<rparr> = input_target im e"
    using de by (simp add: input_target_def)
  have step: "AddEdge (RemoveEdge (g\<lparr> edges := ys @ zs \<rparr>) e) (src e) (src_output e) n
                 (im ! nat (dst_input e))
              = g\<lparr> edges := (us @ vs) @ (zs @ [input_target im e]) \<rparr>"
    using rm tgt by (simp add: AddEdge_def RemoveEdge_def)
  have es': "filter Q (us @ vs) = es" using es us by simp
  have nq: "filter (\<lambda>e. \<not> Q e) ys = filter (\<lambda>e. \<not> Q e) (us @ vs)" using ys Qe by simp
  from Cons.IH[OF es', of "zs @ [input_target im e]"] Cons.prems(2,3)
  show ?case using at step nq by simp
qed

lemma ReorderInputEdges_result:
  assumes "data_inputs_in_range g n (length im)"
  shows "ReorderInputEdges g n im
           = Inr (g\<lparr> edges := filter (\<lambda>e. \<not> (dst e = n \<and> \<not> IsControlEdge e)) (edges g) @
                              map (input_target im)
                                (filter (\<lambda>e. dst e = n \<and> \<not> IsControlEdge e) (edges g)) \<rparr>)"
proof -
  let ?Q = "\<lambda>e. dst e = n \<and> \<not> IsControlEdge e"
  have es: "filter ?Q (edges g) = filter (\<lambda>e. \<not> IsControlEdge e) (in_edges g n)"
    unfolding in_edges_def filter_filter by (rule filter_cong) auto
  have rng: "\<forall>e\<in>set (filter (\<lambda>e. \<not> IsControlEdge e) (in_edges g n)).
               0 \<le> dst_input e \<and> dst_input e < int (length im)"
    using assms by (auto simp: data_inputs_in_range_def)
  have dst: "\<forall>e\<in>set (filter (\<lambda>e. \<not> IsControlEdge e) (in_edges g n)). dst e = n"
    by (auto simp: in_edges_def)
  have "g\<lparr> edges := edges g @ [] \<rparr> = g" by simp
  with ReorderInputEdges_loop_edges[OF es rng dst, where g = g and zs = "[]"]
  show ?thesis unfolding ReorderInputEdges_def es by simp
qed

lemma ReorderInputEdges_slots_fed:
  assumes r: "ReorderInputEdges g n im = Inr g2"
    and rng: "data_inputs_in_range g n (length im)"
    and fed: "inputs_fed g n (length im)"
  shows "\<forall>m\<in>set im. \<exists>ie\<in>set (in_edges g2 n). dst_input ie = m"
proof
  fix m assume "m \<in> set im"
  then obtain k where k: "k < length im" "im ! k = m" by (auto simp: in_set_conv_nth)
  with fed obtain e where e: "e \<in> set (in_edges g n)" "\<not> IsControlEdge e" "dst_input e = int k"
    unfolding inputs_fed_def by blast
  have g2: "g2 = g\<lparr> edges := filter (\<lambda>e. \<not> (dst e = n \<and> \<not> IsControlEdge e)) (edges g) @
                              map (input_target im)
                                (filter (\<lambda>e. dst e = n \<and> \<not> IsControlEdge e) (edges g)) \<rparr>"
    using r ReorderInputEdges_result[OF rng] by simp
  have "input_target im e \<in> set (edges g2)"
    using e unfolding g2 by (auto simp: in_edges_def)
  moreover have "dst (input_target im e) = n" "dst_input (input_target im e) = m"
    using e k by (auto simp: input_target_def in_edges_def)
  ultimately show "\<exists>ie\<in>set (in_edges g2 n). dst_input ie = m"
    by (auto simp: in_edges_def)
qed

lemma ReorderInputEdges_out_edges:
  assumes r: "ReorderInputEdges g n im = Inr g2"
    and rng: "data_inputs_in_range g n (length im)"
    and noloop: "no_self_loop g n"
  shows "nodes g2 = nodes g" and "out_edges g2 n = out_edges g n"
proof -
  have g2: "g2 = g\<lparr> edges := filter (\<lambda>e. \<not> (dst e = n \<and> \<not> IsControlEdge e)) (edges g) @
                              map (input_target im)
                                (filter (\<lambda>e. dst e = n \<and> \<not> IsControlEdge e) (edges g)) \<rparr>"
    using r ReorderInputEdges_result[OF rng] by simp
  show "nodes g2 = nodes g" unfolding g2 by simp
  have a: "filter (\<lambda>e. src e = n) (filter (\<lambda>e. \<not> (dst e = n \<and> \<not> IsControlEdge e)) (edges g))
             = filter (\<lambda>e. src e = n) (edges g)"
    unfolding filter_filter using noloop by (intro filter_cong) (auto simp: no_self_loop_def)
  have b: "filter (\<lambda>e. src e = n)
             (map (input_target im) (filter (\<lambda>e. dst e = n \<and> \<not> IsControlEdge e) (edges g))) = []"
    using noloop by (auto simp: filter_empty_conv no_self_loop_def input_target_def)
  show "out_edges g2 n = out_edges g n"
    unfolding g2 out_edges_def using a b by simp
qed

lemma input_edge_found:
  assumes "\<exists>ie\<in>set (in_edges g n). dst_input ie = m" "0 \<le> m"
  shows "\<exists>ie. input_edge g n m = Inr ie"
proof -
  have "find (\<lambda>e. dst_input e = m) (in_edges g n) \<noteq> None"
    using assms(1) by (auto simp: find_None_iff)
  then show ?thesis using assms(2) by (auto simp: input_edge_def)
qed

lemma in_edges_replace_out_edge:
  assumes "dst e \<noteq> n" "d \<noteq> n"
  shows "in_edges (RemoveEdge g e) n = in_edges g n"
    and "in_edges (AddEdge (RemoveEdge g e) s x d y) n = in_edges g n"
  using assms by (simp_all add: in_edges_def AddEdge_def RemoveEdge_def filter_remove1_other)

lemma ReorderOutputEdges_loop_ok:
  assumes "\<forall>e\<in>set es. dst e \<noteq> n \<and> 0 \<le> src_output e \<and> src_output e < int (length im)"
    and "\<forall>m\<in>set im. 0 \<le> m \<and> (\<exists>ie\<in>set (in_edges g n). dst_input ie = m)"
  shows "\<exists>g'. ReorderOutputEdges_loop g n ic rc im es = Inr g' \<and> nodes g' = nodes g"
  using assms
proof (induction es arbitrary: g)
  case Nil
  show ?case by simp
next
  case (Cons e es)
  have e: "dst e \<noteq> n" "0 \<le> src_output e" "src_output e < int (length im)"
    using Cons.prems(1) by simp_all
  let ?m = "im ! nat (src_output e)"
  have at: "vector_at im (src_output e) = Inr ?m" using e by (simp add: vector_at_def)
  have mem: "?m \<in> set im" using e by simp
  then have m: "0 \<le> ?m" "\<exists>ie\<in>set (in_edges g n). dst_input ie = ?m"
    using Cons.prems(2) by blast+
  have rest: "\<forall>e\<in>set es. dst e \<noteq> n \<and> 0 \<le> src_output e \<and> src_output e < int (length im)"
    using Cons.prems(1) by simp
  have inv: "\<forall>m\<in>set im. 0 \<le> m \<and> (\<exists>ie\<in>set (in_edges (AddEdge (RemoveEdge g e) s x (dst e) y) n). dst_input ie = m)"
    for s x y
    using Cons.prems(2) in_edges_replace_out_edge(2)[OF e(1) e(1), of g s x y] by simp
  show ?case
  proof (cases "?m < ic - rc")
    case True
    from Cons.IH[OF rest inv, of n ?m "dst_input e"] obtain g' where
      "ReorderOutputEdges_loop (AddEdge (RemoveEdge g e) n ?m (dst e) (dst_input e)) n ic rc im es = Inr g'"
      "nodes g' = nodes (AddEdge (RemoveEdge g e) n ?m (dst e) (dst_input e))"
      by blast
    then show ?thesis using at True by (simp add: Let_def AddEdge_def RemoveEdge_def)
  next
    case False
    have "\<exists>ie\<in>set (in_edges (RemoveEdge g e) n). dst_input ie = ?m"
      using m(2) in_edges_replace_out_edge(1)[OF e(1) e(1), of g] by simp
    from input_edge_found[OF this m(1)] obtain ie where
      ie: "input_edge (RemoveEdge g e) n ?m = Inr ie" by blast
    from Cons.IH[OF rest inv, of "src ie" "src_output ie" "dst_input e"] obtain g' where
      "ReorderOutputEdges_loop (AddEdge (RemoveEdge g e) (src ie) (src_output ie) (dst e) (dst_input e))
         n ic rc im es = Inr g'"
      "nodes g' = nodes (AddEdge (RemoveEdge g e) (src ie) (src_output ie) (dst e) (dst_input e))"
      by blast
    then show ?thesis using at False ie by (simp add: Let_def AddEdge_def RemoveEdge_def)
  qed
qed

lemma while_ret_nodes_loop_ok:
  "0 \<le> i \<Longrightarrow> i + int (length ns) \<le> int (length im)
     \<Longrightarrow> \<exists>g'. while_ret_nodes_loop g ns im bound i = Inr g'"
proof (induction ns arbitrary: g i)
  case Nil
  then show ?case by simp
next
  case (Cons n ns)
  then have "vector_at im i = Inr (im ! nat i)" by (simp add: vector_at_def)
  moreover have "0 \<le> i + 1" "i + 1 + int (length ns) \<le> int (length im)" using Cons.prems by simp_all
  ultimately show ?case using Cons.IH[of "i + 1"] by simp
qed

lemma while_rewrite_cond_ok:
  assumes "GetNodeAttr_func (node_at g n) ''cond'' = Inr (cname, cattr)"
    and "Find fld cname = Some cdef"
    and "FunctionDefToBodyHelper cdef = Inr cbody"
    and "length (arg_nodes cbody) \<le> length im"
  shows "\<exists>new_name body'.
           while_rewrite_function ''cond'' n types rc im g fld
             = Some (Inr (update_node g n (AddAttr ''cond'' (AttrFunc new_name cattr) \<circ> ClearAttr ''cond''),
                          fld @ [(new_name, GraphToFunctionDef body' new_name)]))"
proof -
  have "0 + int (length (arg_nodes cbody)) \<le> int (length im)" using assms(4) by simp
  from RearrangeArgNodes_loop_ok[OF _ this] obtain body1 where
    b1: "RearrangeArgNodes (graph cbody) (arg_nodes cbody) im = Inr body1"
    unfolding RearrangeArgNodes_def by auto
  from save_new_function_ok[of fld g n "''cond''" cname cattr body1] obtain new_name where
    "save_new_function g n fld ''cond'' cname cattr body1
       = Inr (update_node g n (AddAttr ''cond'' (AttrFunc new_name cattr) \<circ> ClearAttr ''cond''),
              fld @ [(new_name, GraphToFunctionDef body1 new_name)])"
    by blast
  then have "while_rewrite_function ''cond'' n types rc im g fld
             = Some (Inr (update_node g n (AddAttr ''cond'' (AttrFunc new_name cattr) \<circ> ClearAttr ''cond''),
                          fld @ [(new_name, GraphToFunctionDef body1 new_name)]))"
    using assms(1-3) b1 by (simp add: while_rewrite_function_def)
  then show ?thesis by blast
qed

lemma while_rewrite_body_in_place:
  assumes "GetNodeAttr_func (node_at g n) ''body'' = Inr (bname, battr)"
    and "Find fld bname = Some bdef"
    and "FunctionDefToBodyHelper bdef = Inr bbody"
    and "length (arg_nodes bbody) \<le> length im"
    and "length (ret_nodes bbody) \<le> length im"
    and "resources_in_place (graph bbody) (ret_nodes bbody)"
  shows "\<exists>g' fld'. while_rewrite_function ''body'' n types rc im g fld = Some (Inr (g', fld'))"
proof -
  have chk: "while_body_check (graph bbody) (ret_nodes bbody) 0 = Some (Inr ())"
    using while_body_check_in_place[of "ret_nodes bbody" "graph bbody" 0] assms(6)
    unfolding resources_in_place_def by simp
  have "0 + int (length (arg_nodes bbody)) \<le> int (length im)" using assms(4) by simp
  from RearrangeArgNodes_loop_ok[OF _ this] obtain body1 where
    b1: "RearrangeArgNodes (graph bbody) (arg_nodes bbody) im = Inr body1"
    unfolding RearrangeArgNodes_def by auto
  have "0 + int (length (ret_nodes bbody)) \<le> int (length im)" using assms(5) by simp
  from while_ret_nodes_loop_ok[OF _ this] obtain body2 where
    b2: "while_ret_nodes_loop body1 (ret_nodes bbody) im (int (length types) - rc) 0 = Inr body2"
    by auto
  from save_new_function_ok[of fld g n "''body''" bname battr body2] obtain g' fld' where
    "save_new_function g n fld ''body'' bname battr body2 = Inr (g', fld')"
    by blast
  then show ?thesis using assms(1-3) chk b1 b2 by (simp add: while_rewrite_function_def)
qed

lemma while_rewrite_body_out_of_place:
  assumes "GetNodeAttr_func (node_at g n) ''body'' = Inr (bname, battr)"
    and "Find fld bname = Some bdef"
    and "FunctionDefToBodyHelper bdef = Inr bbody"
    and "resource_out_of_place (graph bbody) (ret_nodes bbody)"
  shows "while_rewrite_function ''body'' n types rc im g fld = Some (Inl (Unimplemented, g, fld))"
proof -
  have chk: "while_body_check (graph bbody) (ret_nodes bbody) 0 = Some (Inl Unimplemented)"
    using while_body_check_out_of_place[of "ret_nodes bbody" "graph bbody" 0] assms(4)
    unfolding resource_out_of_place_def by simp
  then show ?thesis using assms(1-3) by (simp add: while_rewrite_function_def)
qed

lemma GetNodeAttr_func_other_attr:
  "k' \<noteq> k \<Longrightarrow>
     GetNodeAttr_func (node_at (update_node g n (AddAttr k v \<circ> ClearAttr k)) x) k'
       = GetNodeAttr_func (node_at g x) k'"
  by (rule GetNodeAttr_cong(4)) (rule attr_update_set_attr_other)

lemma Find_append:
  "Find fld f = Some d \<Longrightarrow> Find (fld @ added) f = Some d"
  by (simp add: Find_def)

text \<open>
  The steps of \<open>MaybeRewriteWhileNode\<close> up to the round for \<open>body\<close>: for a well-formed node
  they succeed, and they leave the attribute \<open>body\<close> and the entries of the library alone.
\<close>

lemma while_node_up_to_body:
  assumes types: "GetNodeAttr_type_list (node_at g n) ''T'' = Inr types"
    and need: "InputTypesNeedsRearrange types uninit [] = (True, rc, im)"
    and ins: "data_inputs_in_range g n (length types)"
    and fed: "inputs_fed g n (length types)"
    and outs: "data_outputs_in_range g n (length types)"
    and noloop: "no_self_loop g n"
    and cond: "GetNodeAttr_func (node_at g n) ''cond'' = Inr (cname, cattr)"
      "Find fld cname = Some cdef" "FunctionDefToBodyHelper cdef = Inr cbody"
      "length (arg_nodes cbody) \<le> length types"
    and body: "GetNodeAttr_func (node_at g n) ''body'' = Inr (bname, battr)"
      "Find fld bname = Some bdef"
  shows "\<exists>g4 fld1.
           MaybeRewriteWhileNode g n fld uninit
             = (case while_rewrite_function ''body'' n types rc im g4 fld1 of
                  None \<Rightarrow> None
                | Some (Inl err) \<Rightarrow> Some (Inl err)
                | Some (Inr (g5, fld2)) \<Rightarrow> Some (Inr (g5, fld2, True))) \<and>
           GetNodeAttr_func (node_at g4 n) ''body'' = Inr (bname, battr) \<and>
           Find fld1 bname = Some bdef"
proof -
  note len = need_rewrite_mapping_range(1)[OF need]
  obtain new_types where sh: "ShuffleInputDataTypeAttribute types im = Inr new_types"
    using ShuffleInput_need_rewrite_ok[OF need] by blast
  let ?g1 = "update_node g n (AddAttr ''T'' (AttrTypeList new_types) \<circ> ClearAttr ''T'')"
  have in1: "in_edges ?g1 n = in_edges g n" and out1: "out_edges ?g1 n = out_edges g n"
    by (simp_all add: in_edges_def out_edges_def)
  have ins1: "data_inputs_in_range ?g1 n (length im)"
    using ins len in1 by (simp add: data_inputs_in_range_def)
  have fed1: "inputs_fed ?g1 n (length im)"
    using fed len in1 by (simp add: inputs_fed_def)
  have noloop1: "no_self_loop ?g1 n" using noloop by (simp add: no_self_loop_def)
  obtain g2 where g2: "ReorderInputEdges ?g1 n im = Inr g2"
    using ReorderInputEdges_result[OF ins1] by blast
  note g2_facts = ReorderInputEdges_out_edges[OF g2 ins1 noloop1]
  have slots: "\<forall>m\<in>set im. 0 \<le> m \<and> (\<exists>ie\<in>set (in_edges g2 n). dst_input ie = m)"
    using ReorderInputEdges_slots_fed[OF g2 ins1 fed1] need_rewrite_nonneg[OF need] by blast
  have outs2: "\<forall>e\<in>set (filter (\<lambda>e. \<not> IsControlEdge e) (out_edges g2 n)).
                 dst e \<noteq> n \<and> 0 \<le> src_output e \<and> src_output e < int (length im)"
    using outs noloop len unfolding g2_facts(2) out1
    by (auto simp: data_outputs_in_range_def no_self_loop_def out_edges_def)
  from ReorderOutputEdges_loop_ok[OF outs2 slots, of "int (length types)" rc] obtain g3 where
    g3: "ReorderOutputEdges g2 n (int (length types)) rc im = Inr g3" and n3: "nodes g3 = nodes g2"
    unfolding ReorderOutputEdges_def by blast
  have node3: "node_at g3 x = node_at ?g1 x" for x
    using node_at_edges_only[OF n3] node_at_edges_only[OF g2_facts(1)] by simp
  have cond3: "GetNodeAttr_func (node_at g3 n) ''cond'' = Inr (cname, cattr)"
    using cond(1) by (simp add: node3 GetNodeAttr_func_other_attr)
  have body3: "GetNodeAttr_func (node_at g3 n) ''body'' = Inr (bname, battr)"
    using body(1) by (simp add: node3 GetNodeAttr_func_other_attr)
  have "length (arg_nodes cbody) \<le> length im" using cond(4) len by simp
  from while_rewrite_cond_ok[OF cond3 cond(2,3) this, of types rc] obtain new_name body' where
    c: "while_rewrite_function ''cond'' n types rc im g3 fld
          = Some (Inr (update_node g3 n (AddAttr ''cond'' (AttrFunc new_name cattr) \<circ> ClearAttr ''cond''),
                       fld @ [(new_name, GraphToFunctionDef body' new_name)]))"
    by blast
  let ?g4 = "update_node g3 n (AddAttr ''cond'' (AttrFunc new_name cattr) \<circ> ClearAttr ''cond'')"
  let ?fld1 = "fld @ [(new_name, GraphToFunctionDef body' new_name)]"
  have body4: "GetNodeAttr_func (node_at ?g4 n) ''body'' = Inr (bname, battr)"
    using body3 by (simp add: GetNodeAttr_func_other_attr)
  have find1: "Find ?fld1 bname = Some bdef" using body(2) by (rule Find_append)
  have "MaybeRewriteWhileNode g n fld uninit
          = (case while_rewrite_function ''body'' n types rc im ?g4 ?fld1 of
               None \<Rightarrow> None
             | Some (Inl err) \<Rightarrow> Some (Inl err)
             | Some (Inr (g5, fld2)) \<Rightarrow> Some (Inr (g5, fld2, True)))"
    using types need sh g2 g3 c by (simp add: MaybeRewriteWhileNode_def)
  then show ?thesis using body4 find1 by blast
qed

text \<open>
  Claim C3, as amended. For a well-formed \<open>While\<close> node whose inputs need rearranging:
  when every resource-typed \<open>_Retval\<close> of the body returns, through zero or more identity
  nodes, the argument of its own position, \<open>MaybeRewriteWhileNode\<close> succeeds and reports
  the node rewritten; when some resource-typed \<open>_Retval\<close> returns an argument of another
  position or the output of a node that is no \<open>_Arg\<close>, it fails with \<open>Unimplemented\<close>.
  A node whose inputs need no rearranging is left as it is and its body is not looked at.
\<close>

theorem C3_while_resource_identity:
  assumes types: "GetNodeAttr_type_list (node_at g n) ''T'' = Inr types"
    and ins: "data_inputs_in_range g n (length types)"
    and fed: "inputs_fed g n (length types)"
    and outs: "data_outputs_in_range g n (length types)"
    and noloop: "no_self_loop g n"
    and cond: "GetNodeAttr_func (node_at g n) ''cond'' = Inr (cname, cattr)"
      "Find fld cname = Some cdef" "FunctionDefToBodyHelper cdef = Inr cbody"
      "length (arg_nodes cbody) \<le> length types"
    and body: "GetNodeAttr_func (node_at g n) ''body'' = Inr (bname, battr)"
      "Find fld bname = Some bdef" "FunctionDefToBodyHelper bdef = Inr bbody"
      "length (arg_nodes bbody) \<le> length types" "length (ret_nodes bbody) \<le> length types"
  shows "if fst (InputTypesNeedsRearrange types uninit [])
         then (resources_in_place (graph bbody) (ret_nodes bbody) \<longrightarrow>
                 (\<exists>g' fld'. MaybeRewriteWhileNode g n fld uninit = Some (Inr (g', fld', True)))) \<and>
              (resource_out_of_place (graph bbody) (ret_nodes bbody) \<longrightarrow>
                 (\<exists>g' fld'. MaybeRewriteWhileNode g n fld uninit = Some (Inl (Unimplemented, g', fld'))))
         else MaybeRewriteWhileNode g n fld uninit = Some (Inr (g, fld, False))"
proof (cases "fst (InputTypesNeedsRearrange types uninit [])")
  case False
  then show ?thesis using MaybeRewriteWhileNode_untouched[OF types, of uninit fld] by simp
next
  case True
  then obtain rc im where need: "InputTypesNeedsRearrange types uninit [] = (True, rc, im)"
    by (cases "InputTypesNeedsRearrange types uninit []") auto
  note len = need_rewrite_mapping_range(1)[OF need]
  from while_node_up_to_body[OF types need ins fed outs noloop cond body(1,2)] obtain g4 fld1 where
    run: "MaybeRewriteWhileNode g n fld uninit
             = (case while_rewrite_function ''body'' n types rc im g4 fld1 of
                  None \<Rightarrow> None
                | Some (Inl err) \<Rightarrow> Some (Inl err)
                | Some (Inr (g5, fld2)) \<Rightarrow> Some (Inr (g5, fld2, True)))"
    and attr4: "GetNodeAttr_func (node_at g4 n) ''body'' = Inr (bname, battr)"
    and find1: "Find fld1 bname = Some bdef"
    by blast
  have la: "length (arg_nodes bbody) \<le> length im" and lr: "length (ret_nodes bbody) \<le> length im"
    using body(4,5) len by simp_all
  have ok: "\<exists>g' fld'. MaybeRewriteWhileNode g n fld uninit = Some (Inr (g', fld', True))"
    if "resources_in_place (graph bbody) (ret_nodes bbody)"
    using while_rewrite_body_in_place[OF attr4 find1 body(3) la lr that, of types rc] run by auto
  have bad: "\<exists>g' fld'. MaybeRewriteWhileNode g n fld uninit = Some (Inl (Unimplemented, g', fld'))"
    if "resource_out_of_place (graph bbody) (ret_nodes bbody)"
    using while_rewrite_body_out_of_place[OF attr4 find1 body(3) that, of types rc im] run by simp
  show ?thesis using True ok bad by simp
qed

lemmas graph_eval =
  node_at_def input_node_def input_edge_def in_edges_def out_edges_def mk_node_def mk_edge_def
  IsArg_def IsIdentity_def GetNodeAttr_int_def GetNodeAttr_type_def IsControlEdge_def kControlSlot_def

text \<open>
  Claim C3 as stated fails: the check of the body would reject the exchange, but the
  inputs of the node need no rearranging, so the check is not reached and the node is
  left as it is, without an error.
\<close>

theorem C3_exchanged_resources_counterexample:
  "FunctionDefToBodyHelper \<lparr> signature_name = ''body_fn'', body_graph = exchange_body \<rparr>
     = Inr \<lparr> graph = exchange_body, arg_nodes = [0, 1], ret_nodes = [2, 3] \<rparr> \<and>
   while_body_check exchange_body [2, 3] 0 = Some (Inl Unimplemented) \<and>
   MaybeRewriteWhileNode exchange_graph 2 exchange_fld 0
     = Some (Inr (exchange_graph, exchange_fld, False))"
proof (intro conjI)
  show "FunctionDefToBodyHelper \<lparr> signature_name = ''body_fn'', body_graph = exchange_body \<rparr>
     = Inr \<lparr> graph = exchange_body, arg_nodes = [0, 1], ret_nodes = [2, 3] \<rparr>"
    by code_simp
  have "trace_identity exchange_body 1 = Some (Inr 1)"
    by (subst trace_identity.simps) (simp add: exchange_body_def graph_eval)
  then show "while_body_check exchange_body [2, 3] 0 = Some (Inl Unimplemented)"
    by (simp add: exchange_body_def graph_eval)
  have "GetNodeAttr_type_list (node_at exchange_graph 2) ''T'' = Inr [DT_RESOURCE, DT_RESOURCE]"
    by code_simp
  moreover have "fst (InputTypesNeedsRearrange [DT_RESOURCE, DT_RESOURCE] 0 []) = False"
    by code_simp
  ultimately show "MaybeRewriteWhileNode exchange_graph 2 exchange_fld 0
     = Some (Inr (exchange_graph, exchange_fld, False))"
    by (rule MaybeRewriteWhileNode_untouched)
qed

lemma loop_node_facts:
  "GetNodeAttr_type_list (node_at loop_graph 3) ''T'' = Inr [DT_RESOURCE, DT_FLOAT, DT_RESOURCE]"
  "GetNodeAttr_func (node_at loop_graph 3) ''cond'' = Inr (''cond_fn'', [])"
  "GetNodeAttr_func (node_at loop_graph 3) ''body'' = Inr (''body_fn'', [])"
  "data_inputs_in_range loop_graph 3 (length [DT_RESOURCE, DT_FLOAT, DT_RESOURCE])"
  "data_outputs_in_range loop_graph 3 (length [DT_RESOURCE, DT_FLOAT, DT_RESOURCE])"
  "no_self_loop loop_graph 3"
  "fst (InputTypesNeedsRearrange [DT_RESOURCE, DT_FLOAT, DT_RESOURCE] 0 [])"
  by code_simp+

lemma loop_inputs_fed: "inputs_fed loop_graph 3 (length [DT_RESOURCE, DT_FLOAT, DT_RESOURCE])"
  by (auto simp: inputs_fed_def less_Suc_eq loop_graph_def in_edges_def mk_edge_def
        IsControlEdge_def kControlSlot_def)

lemma loop_fld_facts:
  "Find (loop_fld body) ''cond_fn'' = Some \<lparr> signature_name = ''cond_fn'', body_graph = loop_cond \<rparr>"
  "Find (loop_fld body) ''body_fn'' = Some \<lparr> signature_name = ''body_fn'', body_graph = body \<rparr>"
  "FunctionDefToBodyHelper \<lparr> signature_name = ''cond_fn'', body_graph = loop_cond \<rparr>
     = Inr \<lparr> graph = loop_cond, arg_nodes = [0, 1, 2], ret_nodes = [4] \<rparr>"
  "FunctionDefToBodyHelper \<lparr> signature_name = ''body_fn'', body_graph = keep_body \<rparr>
     = Inr \<lparr> graph = keep_body, arg_nodes = [0, 1, 2], ret_nodes = [4, 5, 6] \<rparr>"
  "FunctionDefToBodyHelper \<lparr> signature_name = ''body_fn'', body_graph = swap_body \<rparr>
     = Inr \<lparr> graph = swap_body, arg_nodes = [0, 1, 2], ret_nodes = [4, 5, 6] \<rparr>"
  by (simp_all add: Find_def loop_fld_def) code_simp+

lemma keep_body_sources:
  "retval_source keep_body 4 0" "retval_source keep_body 6 2"
proof -
  have "traces_to keep_body 0 0" "traces_to keep_body 2 2"
    by (rule traces_to.here, simp add: keep_body_def graph_eval)+
  moreover from this(1) have "traces_to keep_body 3 0"
    by (rule traces_to.through_identity[rotated 2]) (simp_all add: keep_body_def graph_eval)
  ultimately show "retval_source keep_body 4 0" "retval_source keep_body 6 2"
    unfolding retval_source_def
    by (auto simp: keep_body_def graph_eval)
qed

lemma swap_body_sources:
  "retval_source swap_body 4 2" "retval_source swap_body 6 0"
proof -
  have "traces_to swap_body 0 0" "traces_to swap_body 2 2"
    by (rule traces_to.here, simp add: swap_body_def keep_body_def graph_eval)+
  moreover from this(2) have "traces_to swap_body 3 2"
    by (rule traces_to.through_identity[rotated 2]) (simp_all add: swap_body_def keep_body_def graph_eval)
  ultimately show "retval_source swap_body 4 2" "retval_source swap_body 6 0"
    unfolding retval_source_def
    by (auto simp: swap_body_def keep_body_def graph_eval)
qed

lemma keep_body_in_place: "resources_in_place keep_body [4, 5, 6]"
  unfolding resources_in_place_def returns_arg_def
proof (intro allI impI)
  fix j :: nat assume "j < length [4, 5, 6 :: nat]"
  then consider "j = 0" | "j = 1" | "j = 2" by fastforce
  then show "\<exists>t. GetNodeAttr_type (node_at keep_body ([4, 5, 6] ! j)) ''T'' = Inr t \<and>
             (t = DT_RESOURCE \<longrightarrow>
                (\<exists>a. retval_source keep_body ([4, 5, 6] ! j) a \<and> IsArg (node_at keep_body a) \<and>
                     GetNodeAttr_int (node_at keep_body a) ''index'' = Inr (int j)))"
  proof cases
    case 1
    have "IsArg (node_at keep_body 0) \<and> GetNodeAttr_int (node_at keep_body 0) ''index'' = Inr 0 \<and>
          GetNodeAttr_type (node_at keep_body 4) ''T'' = Inr DT_RESOURCE"
      by (simp add: keep_body_def graph_eval)
    then show ?thesis using 1 keep_body_sources(1) by auto
  next
    case 2
    have "GetNodeAttr_type (node_at keep_body 5) ''T'' = Inr DT_FLOAT"
      by (simp add: keep_body_def graph_eval)
    then show ?thesis using 2 by simp
  next
    case 3
    have "IsArg (node_at keep_body 2) \<and> GetNodeAttr_int (node_at keep_body 2) ''index'' = Inr 2 \<and>
          GetNodeAttr_type (node_at keep_body 6) ''T'' = Inr DT_RESOURCE"
      by (simp add: keep_body_def graph_eval)
    then show ?thesis using 3 keep_body_sources(2) by auto
  qed
qed

lemma swap_body_others:
  "returns_other swap_body 4 0" "returns_other swap_body 6 2"
proof -
  have "IsArg (node_at swap_body 2) \<and> GetNodeAttr_int (node_at swap_body 2) ''index'' = Inr 2"
       "IsArg (node_at swap_body 0) \<and> GetNodeAttr_int (node_at swap_body 0) ''index'' = Inr 0"
    by (simp_all add: swap_body_def keep_body_def graph_eval)
  then show "returns_other swap_body 4 0" "returns_other swap_body 6 2"
    unfolding returns_other_def using swap_body_sources by auto
qed

lemma swap_body_out_of_place: "resource_out_of_place swap_body [4, 5, 6]"
  unfolding resource_out_of_place_def
proof (intro conjI allI impI)
  fix j :: nat assume "j < length [4, 5, 6 :: nat]"
  then consider "j = 0" | "j = 1" | "j = 2" by fastforce
  then show "\<exists>t. GetNodeAttr_type (node_at swap_body ([4, 5, 6] ! j)) ''T'' = Inr t \<and>
             (t = DT_RESOURCE \<longrightarrow> returns_arg swap_body ([4, 5, 6] ! j) (int j) \<or>
                                   returns_other swap_body ([4, 5, 6] ! j) (int j))"
  proof cases
    case 1
    have "GetNodeAttr_type (node_at swap_body 4) ''T'' = Inr DT_RESOURCE"
      by (simp add: swap_body_def keep_body_def graph_eval)
    then show ?thesis using 1 swap_body_others(1) by simp
  next
    case 2
    have "GetNodeAttr_type (node_at swap_body 5) ''T'' = Inr DT_FLOAT"
      by (simp add: swap_body_def keep_body_def graph_eval)
    then show ?thesis using 2 by simp
  next
    case 3
    have "GetNodeAttr_type (node_at swap_body 6) ''T'' = Inr DT_RESOURCE"
      by (simp add: swap_body_def keep_body_def graph_eval)
    then show ?thesis using 3 swap_body_others(2) by simp
  qed
next
  have "GetNodeAttr_type (node_at swap_body 4) ''T'' = Inr DT_RESOURCE"
    by (simp add: swap_body_def keep_body_def graph_eval)
  then show "\<exists>j<length [4, 5, 6 :: nat].
        GetNodeAttr_type (node_at swap_body ([4, 5, 6] ! j)) ''T'' = Inr DT_RESOURCE \<and>
        returns_other swap_body ([4, 5, 6] ! j) (int j)"
    using swap_body_others(1) by (intro exI[of _ 0]) simp
qed

theorem C3_while_resource_identity_witness:
  "(\<exists>g' fld'. MaybeRewriteWhileNode loop_graph 3 (loop_fld keep_body) 0 = Some (Inr (g', fld', True))) \<and>
   (\<exists>g' fld'. MaybeRewriteWhileNode loop_graph 3 (loop_fld swap_body) 0
                 = Some (Inl (Unimplemented, g', fld')))"
proof
  show "\<exists>g' fld'. MaybeRewriteWhileNode loop_graph 3 (loop_fld keep_body) 0 = Some (Inr (g', fld', True))"
    using C3_while_resource_identity
            [where uninit = 0 and fld = "loop_fld keep_body",
             OF loop_node_facts(1) loop_node_facts(4) loop_inputs_fed loop_node_facts(5,6)
                loop_node_facts(2) loop_fld_facts(1) loop_fld_facts(3) _
                loop_node_facts(3) loop_fld_facts(2) loop_fld_facts(4)]
          loop_node_facts(7) keep_body_in_place
    by simp
  show "\<exists>g' fld'. MaybeRewriteWhileNode loop_graph 3 (loop_fld swap_body) 0
                 = Some (Inl (Unimplemented, g', fld'))"
    using C3_while_resource_identity
            [where uninit = 0 and fld = "loop_fld swap_body",
             OF loop_node_facts(1) loop_node_facts(4) loop_inputs_fed loop_node_facts(5,6)
                loop_node_facts(2) loop_fld_facts(1) loop_fld_facts(3) _
                loop_node_facts(3) loop_fld_facts(2) loop_fld_facts(5)]
          loop_node_facts(7) swap_body_out_of_place
    by simp
qed

section \<open>Resource return values of a called function\<close>

text \<open>
  Claim C2, as amended. For a call node with a resource-typed declared output whose callee
  is in the library: if some resource-typed \<open>_Retval\<close> of the callee body is not fed
  directly by an \<open>_Arg\<close> (line 193 follows no identity nodes), \<open>MaybeRewriteCallNode\<close>
  fails, the library it leaves is the library this call was given (the call registers no
  function), and for a well-formed node and body the error is \<open>Unimplemented\<close>.
\<close>

theorem C2_call_resource_retval_fed_directly:
  assumes tin: "GetNodeAttr_type_list (node_at g n) ''Tin'' = Inr in_types"
    and tout: "GetNodeAttr_type_list (node_at g n) ''Tout'' = Inr out_types"
    and has: "DT_RESOURCE \<in> set out_types"
    and f: "GetNodeAttr_func (node_at g n) ''f'' = Inr (fname, fattr)"
    and find: "Find fld fname = Some fdef"
    and body: "FunctionDefToBodyHelper fdef = Inr fbody"
    and bad: "\<exists>r\<in>set (ret_nodes fbody).
                GetNodeAttr_type (node_at (graph fbody) r) ''T'' = Inr DT_RESOURCE \<and>
                \<not> fed_by_arg (graph fbody) r"
  shows "\<exists>err g'. MaybeRewriteCallNode g n fld uninit = Inl (err, g', fld) \<and>
           (data_inputs_in_range g n (length in_types) \<and>
            length (arg_nodes fbody) \<le> length in_types \<and>
            (\<forall>r\<in>set (ret_nodes fbody). retval_well_formed (graph fbody) r)
            \<longrightarrow> err = Unimplemented)"
proof -
  obtain need rc im where itn: "InputTypesNeedsRearrange in_types uninit [] = (need, rc, im)"
    by (cases "InputTypesNeedsRearrange in_types uninit []") auto
  let ?s1 = "if need then call_rearrange_inputs g n in_types im fbody else Inr (g, graph fbody)"
  have unfold: "MaybeRewriteCallNode g n fld uninit =
     (case ?s1 of
        Inl (err, g') \<Rightarrow> Inl (err, g', fld)
      | Inr (g1, body1) \<Rightarrow>
     (case call_rearrange_outputs g1 n out_types (ret_nodes fbody) body1 of
        Inl (err, g') \<Rightarrow> Inl (err, g', fld)
      | Inr (g2, body2) \<Rightarrow>
     (case save_new_function g2 n fld ''f'' fname fattr body2 of
        Inl err \<Rightarrow> Inl err
      | Inr (g3, fld') \<Rightarrow> Inr (g3, fld', True))))"
    using tin tout has f find body itn
    by (simp add: MaybeRewriteCallNode_def Let_def cong: sum.case_cong prod.case_cong)
  let ?wf = "data_inputs_in_range g n (length in_types) \<and>
            length (arg_nodes fbody) \<le> length in_types \<and>
            (\<forall>r\<in>set (ret_nodes fbody). retval_well_formed (graph fbody) r)"
  show ?thesis
  proof (cases ?s1)
    case (Inl p)
    obtain err h where p: "p = (err, h)" by (cases p)
    have "\<not> ?wf"
    proof
      assume wf: ?wf
      have need using Inl by (auto split: if_splits)
      with itn wf call_rearrange_inputs_ok[of in_types uninit rc im g n fbody] Inl
      show False by auto
    qed
    moreover have "MaybeRewriteCallNode g n fld uninit = Inl (err, h, fld)"
      using Inl p by (simp add: unfold)
    ultimately show ?thesis by blast
  next
    case (Inr q)
    obtain g1 body1 where q: "q = (g1, body1)" by (cases q)
    have same: "same_but_index (graph fbody) body1"
      using Inr q by (auto split: if_splits intro: same_but_index_refl dest: call_rearrange_inputs_body)
    from bad obtain r where r: "r \<in> set (ret_nodes fbody)"
      "GetNodeAttr_type (node_at (graph fbody) r) ''T'' = Inr DT_RESOURCE"
      "\<not> fed_by_arg (graph fbody) r" by blast
    have "GetNodeAttr_type (node_at body1 r) ''T'' = Inr DT_RESOURCE \<and> \<not> fed_by_arg body1 r"
      using r(2,3) same_but_index_T[OF same] same_but_index_fed_by_arg[OF same] by simp
    then have "\<exists>r\<in>set (ret_nodes fbody).
                 GetNodeAttr_type (node_at body1 r) ''T'' = Inr DT_RESOURCE \<and> \<not> fed_by_arg body1 r"
      using r(1) by blast
    from call_rearrange_outputs_fails[OF this, of g1 n out_types]
    obtain err where
      e: "call_rearrange_outputs g1 n out_types (ret_nodes fbody) body1 = Inl (err, g1)"
      and u: "(\<forall>r\<in>set (ret_nodes fbody). retval_well_formed body1 r) \<longrightarrow> err = Unimplemented"
      by blast
    have "err = Unimplemented" if ?wf
      using u that same_but_index_well_formed[OF same] by blast
    moreover have "MaybeRewriteCallNode g n fld uninit = Inl (err, g1, fld)"
      using Inr q e by (simp add: unfold)
    ultimately show ?thesis by blast
  qed
qed

theorem C2_call_resource_retval_fed_directly_witness:
  "MaybeRewriteCallNode internal_resource_call 1 internal_resource_fld 7
     = Inl (Unimplemented, internal_resource_call, internal_resource_fld)"
proof -
  let ?fbody = "\<lparr> graph = internal_resource_body, arg_nodes = [0], ret_nodes = [2, 3] \<rparr>"
  have tin: "GetNodeAttr_type_list (node_at internal_resource_call 1) ''Tin'' = Inr [DT_FLOAT]"
    by code_simp
  have tout: "GetNodeAttr_type_list (node_at internal_resource_call 1) ''Tout'' = Inr [DT_RESOURCE, DT_FLOAT]"
    by code_simp
  have has: "DT_RESOURCE \<in> set [DT_RESOURCE, DT_FLOAT]" by simp
  have f: "GetNodeAttr_func (node_at internal_resource_call 1) ''f'' = Inr (''make_var'', [])"
    by code_simp
  have find: "Find internal_resource_fld ''make_var''
                = Some \<lparr> signature_name = ''make_var'', body_graph = internal_resource_body \<rparr>"
    by code_simp
  have body: "FunctionDefToBodyHelper \<lparr> signature_name = ''make_var'', body_graph = internal_resource_body \<rparr>
                = Inr ?fbody"
    by code_simp
  have nfa: "\<not> fed_by_arg internal_resource_body 2"
    by (simp add: fed_by_arg_def internal_resource_body_def node_at_def mk_node_def
          input_edge_def in_edges_def mk_edge_def IsArg_def)
  have t2: "GetNodeAttr_type (node_at internal_resource_body 2) ''T'' = Inr DT_RESOURCE" by code_simp
  have bad: "\<exists>r\<in>set (ret_nodes ?fbody).
                GetNodeAttr_type (node_at (graph ?fbody) r) ''T'' = Inr DT_RESOURCE \<and>
                \<not> fed_by_arg (graph ?fbody) r"
    using nfa t2 by simp
  have wf1: "data_inputs_in_range internal_resource_call 1 (length [DT_FLOAT])"
    by (simp add: data_inputs_in_range_def in_edges_def internal_resource_call_def mk_edge_def)
  have wf2: "length (arg_nodes ?fbody) \<le> length [DT_FLOAT]" by simp
  have wf3: "\<forall>r\<in>set (ret_nodes ?fbody). retval_well_formed (graph ?fbody) r"
    by (simp add: retval_well_formed_def internal_resource_body_def node_at_def mk_node_def
          GetNodeAttr_type_def input_edge_def in_edges_def mk_edge_def IsArg_def)
  from C2_call_resource_retval_fed_directly [OF tin tout has f find body bad, of 7] wf1 wf2 wf3
  obtain g' where "MaybeRewriteCallNode internal_resource_call 1 internal_resource_fld 7
                     = Inl (Unimplemented, g', internal_resource_fld)"
    by blast
  moreover have "case MaybeRewriteCallNode internal_resource_call 1 internal_resource_fld 7 of
                   Inl (err, g', fld') \<Rightarrow> g' = internal_resource_call | Inr _ \<Rightarrow> True"
    by code_simp
  ultimately show ?thesis by simp
qed

text \<open>
  Claim C2 as stated fails: the resource \<open>_Retval\<close> of \<open>pass_through\<close> traces back to its
  \<open>_Arg\<close> through one identity node, and the call node is refused with \<open>Unimplemented\<close>
  all the same, because the node that feeds the \<open>_Retval\<close> is the identity node.
\<close>

theorem C2_identity_before_retval_counterexample:
  "FunctionDefToBodyHelper \<lparr> signature_name = ''pass_through'', body_graph = pass_through_body \<rparr>
     = Inr \<lparr> graph = pass_through_body, arg_nodes = [0], ret_nodes = [2] \<rparr> \<and>
   GetNodeAttr_type (node_at pass_through_body 2) ''T'' = Inr DT_RESOURCE \<and>
   retval_from_arg pass_through_body 2 \<and>
   MaybeRewriteCallNode pass_through_call 3 pass_through_fld 0
     = Inl (Unimplemented, pass_through_call, pass_through_fld)"
proof (intro conjI)
  show "FunctionDefToBodyHelper \<lparr> signature_name = ''pass_through'', body_graph = pass_through_body \<rparr>
     = Inr \<lparr> graph = pass_through_body, arg_nodes = [0], ret_nodes = [2] \<rparr>"
    by code_simp
  show "GetNodeAttr_type (node_at pass_through_body 2) ''T'' = Inr DT_RESOURCE"
    by code_simp
  have "reaches_arg pass_through_body 0"
    by (rule reaches_arg.arg) (simp add: pass_through_body_def node_at_def mk_node_def IsArg_def)
  then have "reaches_arg pass_through_body 1"
    by (rule reaches_arg.through_identity[rotated 2])
       (simp_all add: pass_through_body_def node_at_def mk_node_def IsIdentity_def input_node_def
          input_edge_def in_edges_def mk_edge_def)
  moreover have "input_node pass_through_body 2 0 = Inr 1" by code_simp
  ultimately show "retval_from_arg pass_through_body 2"
    unfolding retval_from_arg_def by blast
  show "MaybeRewriteCallNode pass_through_call 3 pass_through_fld 0
     = Inl (Unimplemented, pass_through_call, pass_through_fld)"
    by code_simp
qed

text \<open>
  The library is handed back as the call received it, not as the pass received it: the
  loop over the nodes (lines 673-693) stops at the refused node 3, and the function that
  was registered for node 2 before stays in the library.
\<close>

lemma earlier_function_stays_registered:
  "for_each (rewrite_node 0) (node_ids pass_through_call) (pass_through_call, pass_through_fld, False)
     = Some (Inl (Unimplemented, pass_through_after_call1,
                  pass_through_fld @
                  [(''shared_rearrange_0'',
                    \<lparr> signature_name = ''shared_rearrange_0'', body_graph = rearranged_branch_body \<rparr>)]))"
proof -
  have ids: "node_ids pass_through_call = [0, 1, 2, 3]" by code_simp
  have types:
    "type_string (node_at pass_through_call 0) = ''VarHandleOp''"
    "type_string (node_at pass_through_call (Suc 0)) = ''Const''"
    "type_string (node_at pass_through_call 2) = ''StatefulPartitionedCall''"
    "type_string (node_at pass_through_after_call1 3) = ''StatefulPartitionedCall''"
    by code_simp+
  have first: "MaybeRewriteCallNode pass_through_call 2 pass_through_fld 0
      = Inr (pass_through_after_call1,
             pass_through_fld @
             [(''shared_rearrange_0'',
               \<lparr> signature_name = ''shared_rearrange_0'', body_graph = rearranged_branch_body \<rparr>)],
             True)"
    by code_simp
  have second: "MaybeRewriteCallNode pass_through_after_call1 3
        (pass_through_fld @
         [(''shared_rearrange_0'',
           \<lparr> signature_name = ''shared_rearrange_0'', body_graph = rearranged_branch_body \<rparr>)]) 0
      = Inl (Unimplemented, pass_through_after_call1,
             pass_through_fld @
             [(''shared_rearrange_0'',
               \<lparr> signature_name = ''shared_rearrange_0'', body_graph = rearranged_branch_body \<rparr>)])"
    by code_simp
  show ?thesis
    unfolding ids by (simp add: rewrite_node_def types first second)
qed

end
